theory Spec2Isabelle
  imports Main "HOL-Library.Word"
begin

section \<open>JavaScript strings\<close>

text \<open>
  A JavaScript string is a sequence of 16-bit code units; \<open>length\<close>, \<open>slice\<close>,
  \<open>startsWith\<close> and \<open>includes\<close> all count code units. \<open>js\<close> embeds an ASCII literal.
\<close>

type_synonym jsstring = "16 word list"

definition js :: "string \<Rightarrow> jsstring" where
  "js s = map of_char s"

definition startsWith :: "jsstring \<Rightarrow> jsstring \<Rightarrow> bool" where
  "startsWith s p = (take (length p) s = p)"

fun js_includes :: "jsstring \<Rightarrow> jsstring \<Rightarrow> bool" where
  "js_includes [] sub = (sub = [])"
| "js_includes (c # cs) sub = (startsWith (c # cs) sub \<or> js_includes cs sub)"

text \<open>
  \<open>String.prototype.trim\<close> removes WhiteSpace and LineTerminator code points at both
  ends: TAB, LF, VT, FF, CR, SPACE, NBSP, U+1680, U+2000..U+200A, U+2028, U+2029, U+202F,
  U+205F, U+3000 and U+FEFF.
\<close>

definition is_js_whitespace :: "16 word \<Rightarrow> bool" where
  "is_js_whitespace c =
     (c \<in> set [0x9, 0xA, 0xB, 0xC, 0xD, 0x20, 0xA0, 0x1680,
                0x2000, 0x2001, 0x2002, 0x2003, 0x2004, 0x2005, 0x2006, 0x2007,
                0x2008, 0x2009, 0x200A, 0x2028, 0x2029, 0x202F, 0x205F, 0x3000, 0xFEFF])"

definition trim :: "jsstring \<Rightarrow> jsstring" where
  "trim s = rev (dropWhile is_js_whitespace (rev (dropWhile is_js_whitespace s)))"

text \<open>\<^verbatim>\<open>text.replace(/^\uFEFF/, '')\<close>: one leading byte-order mark is removed.\<close>

definition stripBOM :: "jsstring \<Rightarrow> jsstring" where
  "stripBOM s = (case s of [] \<Rightarrow> [] | c # cs \<Rightarrow> if c = 0xFEFF then cs else c # cs)"

text \<open>\<^verbatim>\<open>x || d\<close> on strings: the empty string is falsy.\<close>

definition or_else :: "jsstring \<Rightarrow> jsstring \<Rightarrow> jsstring" where
  "or_else s d = (if s = [] then d else s)"

text \<open>The decimal digits of a number, as a template literal prints it.\<close>

fun show_nat :: "nat \<Rightarrow> jsstring" where
  "show_nat n =
     (if n < 10 then [of_nat (48 + n)] else show_nat (n div 10) @ [of_nat (48 + n mod 10)])"

declare show_nat.simps [simp del]

text \<open>
  \<^verbatim>\<open>s.replace(/<[^>]*>/g, '')\<close>: every \<open><\<close> that has a \<open>>\<close> somewhere after it is
  removed together with everything up to the nearest such \<open>>\<close>. \<open>has_tag\<close> says that the
  pattern \<^verbatim>\<open><[^>]*>\<close> matches somewhere.
\<close>

definition LT :: "16 word" where "LT = 0x3C"
definition GT :: "16 word" where "GT = 0x3E"

function strip_tags :: "jsstring \<Rightarrow> jsstring" where
  "strip_tags [] = []"
| "strip_tags (c # cs) =
     (if c = LT \<and> GT \<in> set cs then strip_tags (tl (dropWhile (\<lambda>x. x \<noteq> GT) cs))
      else c # strip_tags cs)"
  by pat_completeness auto
termination
proof (relation "measure length")
  fix c :: "16 word" and cs :: jsstring
  have "length (dropWhile (\<lambda>x. x \<noteq> GT) cs) \<le> length cs"
    by (rule length_dropWhile_le)
  then show "(tl (dropWhile (\<lambda>x. x \<noteq> GT) cs), c # cs) \<in> measure length"
    by simp
qed simp_all

fun has_tag :: "jsstring \<Rightarrow> bool" where
  "has_tag [] = False"
| "has_tag (c # cs) = ((c = LT \<and> GT \<in> set cs) \<or> has_tag cs)"

section \<open>Errors and promises that stay pending\<close>

text \<open>
  How a call can end without a result. The values the service throws are a plain
  \<open>Error\<close> with its message (this covers the \<open>TypeError\<close>, \<open>AbortError\<close> and
  \<open>SyntaxError\<close> the platform raises; none of them is named \<open>FeedDiscoveryError\<close>), and
  \<open>class FeedDiscoveryError\<close> with its message, \<open>htmlContent\<close> and \<open>originalUrl\<close>.

  \<open>NeverSettles\<close> is not a thrown value: it stands for an \<open>await\<close> on a promise that
  stays pending for ever (a request that nobody answers and no timer aborts, a response
  body that never arrives). The function that awaits never resumes: no \<open>catch\<close> clause
  sees anything, no later statement runs, and the promise of every caller stays pending
  too. Every function below therefore hands \<open>NeverSettles\<close> on unchanged, together with the
  effects that happened before.
\<close>

datatype js_error =
    Error jsstring
  | FeedDiscoveryError jsstring jsstring jsstring
  | NeverSettles

section \<open>The document object model\<close>

text \<open>
  What \<open>DOMParser\<close> returns, as far as the service reads it: elements with a namespace
  prefix, a local name, attributes (by qualified name) and children, and text nodes.
  Comments and processing instructions are invisible to every call the service makes.
\<close>

datatype node =
    Element (ns_prefix: jsstring) (localName: jsstring)
            (attributes: "(jsstring \<times> jsstring) list") (childNodes: "node list")
  | Text jsstring

fun getAttribute :: "node \<Rightarrow> jsstring \<Rightarrow> jsstring option" where
  "getAttribute (Element p n as cs) a = map_of as a"
| "getAttribute (Text t) a = None"

fun textContent :: "node \<Rightarrow> jsstring" where
  "textContent (Text t) = t"
| "textContent (Element p n as cs) = concat (map textContent cs)"

text \<open>The descendants of a node in document order (the node itself excluded).\<close>

fun descendants :: "node \<Rightarrow> node list" where
  "descendants (Text t) = []"
| "descendants (Element p n as cs) = concat (map (\<lambda>c. c # descendants c) cs)"

text \<open>
  A type selector and \<^verbatim>\<open>getElementsByTagNameNS('*', name)\<close> both match an element by its
  local name, in any namespace.
\<close>

fun has_name :: "jsstring list \<Rightarrow> node \<Rightarrow> bool" where
  "has_name names (Element p n as cs) = (n \<in> set names)"
| "has_name names (Text t) = False"

text \<open>\<^verbatim>\<open>element.querySelectorAll('a, b')\<close> and \<^verbatim>\<open>element.querySelector('a, b')\<close>.\<close>

definition querySelectorAll :: "jsstring list \<Rightarrow> node \<Rightarrow> node list" where
  "querySelectorAll names e = filter (has_name names) (descendants e)"

definition first_of :: "'a list \<Rightarrow> 'a option" where
  "first_of xs = (case xs of [] \<Rightarrow> None | x # _ \<Rightarrow> Some x)"

definition querySelector :: "jsstring list \<Rightarrow> node \<Rightarrow> node option" where
  "querySelector names e = first_of (querySelectorAll names e)"

text \<open>\<^verbatim>\<open>element.getElementsByTagNameNS('*', name)\<close>.\<close>

definition getElementsByTagNameNS_any :: "jsstring \<Rightarrow> node \<Rightarrow> node list" where
  "getElementsByTagNameNS_any name e = filter (has_name [name]) (descendants e)"

text \<open>
  An XML document is its document element. \<^verbatim>\<open>document.querySelectorAll\<close> also considers
  the document element itself.
\<close>

definition doc_querySelectorAll :: "jsstring list \<Rightarrow> node \<Rightarrow> node list" where
  "doc_querySelectorAll names root = filter (has_name names) (root # descendants root)"

definition doc_querySelector :: "jsstring list \<Rightarrow> node \<Rightarrow> node option" where
  "doc_querySelector names root = first_of (doc_querySelectorAll names root)"

text \<open>
  \<^verbatim>\<open>'channel > title, feed > title'\<close>: the elements named in \<open>names\<close> whose parent
  element is named in \<open>parents\<close>, in document order. The document element has no parent
  element and cannot match.
\<close>

fun select_children :: "jsstring list \<Rightarrow> jsstring list \<Rightarrow> node \<Rightarrow> node list" where
  "select_children parents names (Text t) = []"
| "select_children parents names (Element p n as cs) =
     concat (map (\<lambda>c. (if n \<in> set parents \<and> has_name names c then [c] else [])
                        @ select_children parents names c) cs)"

text \<open>
  An HTML document as the \<open>text/html\<close> parser builds it: always a \<open>head\<close> and a
  \<open>body\<close>; the children of each are kept.
\<close>

datatype html_doc = HtmlDocument (head_nodes: "node list") (body_nodes: "node list")

definition body_textContent :: "html_doc \<Rightarrow> jsstring" where
  "body_textContent d = concat (map textContent (body_nodes d))"

definition html_elements :: "html_doc \<Rightarrow> node list" where
  "html_elements d =
     concat (map (\<lambda>c. c # descendants c) (head_nodes d))
     @ concat (map (\<lambda>c. c # descendants c) (body_nodes d))"

definition html_querySelector :: "jsstring list \<Rightarrow> html_doc \<Rightarrow> node option" where
  "html_querySelector names d = first_of (filter (has_name names) (html_elements d))"

section \<open>Articles, effects and the platform\<close>

text \<open>\<open>interface Article\<close> and the result of every fetch strategy.\<close>

record article =
  article_id :: jsstring
  feedId :: jsstring
  title :: jsstring
  link :: jsstring
  pubDate :: jsstring
  content :: jsstring
  contentSnippet :: jsstring
  thumbnail :: "jsstring option"
  author :: "jsstring option"

record feed_result =
  result_title :: jsstring
  articles :: "article list"

text \<open>
  The effects of a run, in the order they happen: a network request (its URL and the
  delay in milliseconds of the timer that aborts it, if one was set), the entry
  into \<open>fetchFeed\<close> and into \<open>fetchWithRss2Json\<close> with their arguments, a reading of the
  clock and a drawing of a random identifier.
\<close>

datatype event =
    Fetch jsstring "nat option"
  | Call_fetchFeed jsstring jsstring
  | Call_fetchWithRss2Json jsstring jsstring
  | DateRead
  | UuidDrawn

type_synonym history = "event list"

text \<open>
  What the network does with a request. It fails after some milliseconds (\<open>Rejects\<close>, with
  the message of the error); or the status line and the headers arrive after some
  milliseconds (\<open>Responds\<close>), and the body then arrives in full, or breaks off with an
  error, or never arrives; or nothing ever comes back (\<open>Silent\<close>).
  \<open>response.ok\<close> is true for the statuses 200 to 299. An error raised by the platform is
  represented by its message (\<open>Inl\<close> where a result is expected); the service sees it as
  an \<open>Error\<close> with that message.
\<close>

datatype body = Body jsstring | BodyFails jsstring | BodyStalls

datatype reply =
    Rejects nat jsstring
  | Responds nat nat body
  | Silent

definition response_ok :: "nat \<Rightarrow> bool" where
  "response_ok st = (200 \<le> st \<and> st \<le> 299)"

text \<open>
  The JSON value of the conversion service, as far as \<open>fetchWithRss2Json\<close> reads it. A
  member the code guards with \<^verbatim>\<open>||\<close> or \<^verbatim>\<open>?.\<close> is optional. So are the objects it
  dereferences without a guard: the value itself, \<open>data.feed\<close> (here with its title),
  \<open>data.items\<close> and each item are \<open>None\<close> when they are \<open>null\<close> or missing, and reading a
  property of them throws a \<open>TypeError\<close>. \<open>data_message\<close> is \<open>data.message\<close> as a
  template literal prints it.
\<close>

record rss2json_item =
  item_title :: jsstring
  item_link :: jsstring
  item_pubDate :: jsstring
  item_content :: "jsstring option"
  item_description :: "jsstring option"
  item_thumbnail :: "jsstring option"
  item_enclosure :: "jsstring option option"
  item_author :: "jsstring option"

record rss2json_data =
  data_status :: jsstring
  data_message :: jsstring
  data_feed :: "jsstring option"
  data_items :: "rss2json_item option list option"

text \<open>
  The platform the service runs on. Its pure functions are taken as they are; the network,
  the clock and the random source answer by the number of effects that happened before.
  \<^item> \<open>toLowerCase\<close>: \<open>String.prototype.toLowerCase\<close>;
  \<^item> \<open>encodeURIComponent\<close>: throws on a lone surrogate;
  \<^item> \<open>parseXml\<close>, \<open>parseHtml\<close>: \<open>DOMParser.parseFromString\<close> with \<open>text/xml\<close> and
    \<open>text/html\<close>;
  \<^item> \<open>resolveUrl href base\<close>: \<^verbatim>\<open>new URL(href, base).href\<close>, \<open>None\<close> when it throws;
  \<^item> \<open>parseJson\<close>: \<open>response.json()\<close> on a body that has arrived;
  \<^item> \<open>network n url\<close>: what the network does with the request;
  \<^item> \<open>abortMessage\<close>: the message of the \<open>AbortError\<close> with which \<open>fetch\<close> rejects when
    its signal is aborted;
  \<^item> \<open>typeErrorMessage p\<close>: the message of the \<open>TypeError\<close> raised when the property \<open>p\<close>
    of \<open>null\<close> or \<open>undefined\<close> is read;
  \<^item> \<open>randomUUID n\<close>: \<open>crypto.randomUUID()\<close>;
  \<^item> \<open>nowISO n\<close>: \<^verbatim>\<open>new Date().toISOString()\<close>; \<open>nowMs n\<close>: \<open>Date.now()\<close>.
\<close>

record runtime =
  toLowerCase :: "jsstring \<Rightarrow> jsstring"
  encodeURIComponent :: "jsstring \<Rightarrow> jsstring + jsstring"
  parseXml :: "jsstring \<Rightarrow> node"
  parseHtml :: "jsstring \<Rightarrow> html_doc"
  resolveUrl :: "jsstring \<Rightarrow> jsstring \<Rightarrow> jsstring option"
  parseJson :: "jsstring \<Rightarrow> jsstring + rss2json_data option"
  network :: "nat \<Rightarrow> jsstring \<Rightarrow> reply"
  abortMessage :: jsstring
  typeErrorMessage :: "jsstring \<Rightarrow> jsstring"
  randomUUID :: "nat \<Rightarrow> jsstring"
  nowISO :: "nat \<Rightarrow> jsstring"
  nowMs :: "nat \<Rightarrow> nat"

text \<open>
  \<^verbatim>\<open>await fetch(url, { signal })\<close> for the request issued after \<open>n\<close> effects, where the
  signal is aborted by a timer after \<open>deadline\<close> milliseconds unless the timer is cleared
  before; without a timer the deadline is \<open>None\<close>. \<open>fetch\<close> settles when the network
  fails or when the status line and headers have arrived, whichever the network does, or
  when the timer fires, if that happens first: then it rejects with the \<open>AbortError\<close>. An
  answer that comes at the deadline or later loses against the timer. The body is not
  part of what \<open>fetch\<close> waits for.
\<close>

datatype fetched = FetchRejected jsstring | FetchResolved nat body | FetchPending

definition expired :: "nat option \<Rightarrow> nat \<Rightarrow> bool" where
  "expired deadline ms = (case deadline of None \<Rightarrow> False | Some d \<Rightarrow> d \<le> ms)"

definition fetch :: "runtime \<Rightarrow> nat \<Rightarrow> jsstring \<Rightarrow> nat option \<Rightarrow> fetched" where
  "fetch rt n url deadline =
     (case network rt n url of
        Silent \<Rightarrow>
          (case deadline of None \<Rightarrow> FetchPending | Some d \<Rightarrow> FetchRejected (abortMessage rt))
      | Rejects ms m \<Rightarrow>
          if expired deadline ms then FetchRejected (abortMessage rt) else FetchRejected m
      | Responds ms st b \<Rightarrow>
          if expired deadline ms then FetchRejected (abortMessage rt) else FetchResolved st b)"

section \<open>The format normalizer: \<open>parseXmlFeed\<close>\<close>

text \<open>\<^verbatim>\<open>node?.textContent\<close> where the result only meets \<^verbatim>\<open>||\<close>: absent counts as empty.\<close>

definition opt_text :: "node option \<Rightarrow> jsstring" where
  "opt_text n = (case n of None \<Rightarrow> [] | Some e \<Rightarrow> textContent e)"

definition the_default :: "'a \<Rightarrow> 'a option \<Rightarrow> 'a" where
  "the_default d v = (case v of None \<Rightarrow> d | Some x \<Rightarrow> x)"

definition truthy :: "jsstring option \<Rightarrow> bool" where
  "truthy v = (case v of None \<Rightarrow> False | Some s \<Rightarrow> s \<noteq> [])"

definition UNKNOWN_SOURCE :: jsstring where
  "UNKNOWN_SOURCE = js ''Nezn'' @ [0xE1] @ js ''m'' @ [0xFD] @ js '' zdroj''"

definition UNTITLED :: jsstring where
  "UNTITLED = js ''Bez n'' @ [0xE1] @ js ''zvu''"

definition PARSE_FAILED :: jsstring where
  "PARSE_FAILED =
     js ''Chyba p'' @ [0x159] @ js ''i parsov'' @ [0xE1] @ js ''n'' @ [0xED] @ js '' XML: ''"

text \<open>The plain text snippet (source line 125).\<close>

definition make_snippet :: "html_doc \<Rightarrow> jsstring" where
  "make_snippet doc =
     or_else (trim (take 300 (body_textContent doc))
              @ (if body_textContent doc \<noteq> [] \<and> length (body_textContent doc) > 300
                 then js ''...'' else []))
             []"

text \<open>Thumbnail extraction (source lines 127 to 139).\<close>

definition attr_of :: "node option \<Rightarrow> jsstring \<Rightarrow> jsstring option" where
  "attr_of n a = (case n of None \<Rightarrow> None | Some e \<Rightarrow> getAttribute e a)"

definition extract_thumbnail :: "node \<Rightarrow> html_doc \<Rightarrow> jsstring option" where
  "extract_thumbnail item doc =
     (let mediaContent = first_of (getElementsByTagNameNS_any (js ''content'') item);
          enclosure = querySelector [js ''enclosure''] item;
          imgInContent = html_querySelector [js ''img''] doc
      in if truthy (attr_of mediaContent (js ''url''))
         then attr_of mediaContent (js ''url'')
         else if (case attr_of enclosure (js ''type'') of
                    None \<Rightarrow> False | Some t \<Rightarrow> startsWith t (js ''image''))
         then attr_of enclosure (js ''url'')
         else if imgInContent \<noteq> None
         then attr_of imgInContent (js ''src'')
         else Some [])"

text \<open>
  The body of \<^verbatim>\<open>items.map(item => ...)\<close> for one item. The clock is read only when the item
  has no date text; the identifier is drawn last.
\<close>

definition parse_item :: "runtime \<Rightarrow> jsstring \<Rightarrow> node \<Rightarrow> history \<Rightarrow> article \<times> history" where
  "parse_item rt fid item h =
     (let itemTitle = or_else (opt_text (querySelector [js ''title''] item)) UNTITLED;
          link0 = or_else (opt_text (querySelector [js ''link''] item)) [];
          link1 = (if link0 = [] \<and> truthy (attr_of (querySelector [js ''link''] item) (js ''href''))
                   then the_default [] (attr_of (querySelector [js ''link''] item) (js ''href''))
                   else link0);
          dateText = opt_text (querySelector
                       [js ''pubDate'', js ''published'', js ''updated'', js ''date''] item);
          date = (if dateText = [] then nowISO rt (length h) else dateText);
          h1 = (if dateText = [] then h @ [DateRead] else h);
          contentEncoded = opt_text (first_of (getElementsByTagNameNS_any (js ''encoded'') item));
          description = or_else (opt_text (querySelector
                          [js ''description'', js ''summary''] item)) [];
          content1 = or_else (or_else contentEncoded description) [];
          doc = parseHtml rt content1;
          authorText = opt_text (querySelector [js ''author'', js ''creator''] item)
      in (\<lparr> article_id = randomUUID rt (length h1),
            feedId = fid,
            title = itemTitle,
            link = link1,
            pubDate = date,
            content = content1,
            contentSnippet = make_snippet doc,
            thumbnail = extract_thumbnail item doc,
            author = (if authorText = [] then None else Some authorText) \<rparr>,
          h1 @ [UuidDrawn]))"

text \<open>\<^verbatim>\<open>items.map\<close>: the items in order, the effects threaded through.\<close>

fun parse_items :: "runtime \<Rightarrow> jsstring \<Rightarrow> node list \<Rightarrow> history \<Rightarrow> article list \<times> history" where
  "parse_items rt fid [] h = ([], h)"
| "parse_items rt fid (item # items) h =
     (case parse_item rt fid item h of
        (a, h1) \<Rightarrow> (case parse_items rt fid items h1 of (as, h2) \<Rightarrow> (a # as, h2)))"

text \<open>The \<open>try\<close> block of \<open>parseXmlFeed\<close> (source lines 87 to 154).\<close>

definition parse_body ::
  "runtime \<Rightarrow> jsstring \<Rightarrow> jsstring \<Rightarrow> jsstring \<Rightarrow> jsstring \<Rightarrow> history
     \<Rightarrow> (js_error + feed_result) \<times> history" where
  "parse_body rt text trimmed fid originalUrl h =
     (let xml = parseXml rt text in
      case doc_querySelector [js ''parsererror''] xml of
        Some errorNode \<Rightarrow>
          if js_includes trimmed (js ''<html'') \<or> js_includes trimmed (js ''<body'')
          then (Inl (FeedDiscoveryError (js ''XML Parsing failed, content looks like HTML'')
                       text originalUrl), h)
          else (Inl (Error (js ''XML Parser Error: '' @ textContent errorNode)), h)
      | None \<Rightarrow>
          (let ttl = or_else (opt_text (first_of (select_children
                       [js ''channel'', js ''feed''] [js ''title''] xml))) UNKNOWN_SOURCE;
               items = doc_querySelectorAll [js ''item'', js ''entry''] xml
           in case parse_items rt fid items h of
                (as, h1) \<Rightarrow> (Inr \<lparr> result_title = ttl, articles = as \<rparr>, h1)))"

text \<open>The \<open>catch\<close> clause (source lines 155 to 158).\<close>

fun rethrow :: "js_error \<Rightarrow> js_error" where
  "rethrow (FeedDiscoveryError m html u) = FeedDiscoveryError m html u"
| "rethrow (Error m) = Error (PARSE_FAILED @ m)"
| "rethrow NeverSettles = NeverSettles"

definition parseXmlFeed ::
  "runtime \<Rightarrow> jsstring \<Rightarrow> jsstring \<Rightarrow> jsstring \<Rightarrow> history
     \<Rightarrow> (js_error + feed_result) \<times> history" where
  "parseXmlFeed rt text0 fid originalUrl h =
     (let text = stripBOM text0;
          trimmed = trim text;
          lowerText = toLowerCase rt trimmed;
          isHtml = (startsWith lowerText (js ''<!doctype html'')
                    \<or> startsWith lowerText (js ''<html''));
          isRss = (js_includes lowerText (js ''<rss'') \<or> js_includes lowerText (js ''<feed'')
                   \<or> js_includes lowerText (js ''<rdf:rdf''))
      in if isHtml \<and> \<not> isRss
         then (Inl (FeedDiscoveryError (js ''Received HTML page instead of XML'')
                      text originalUrl), h)
         else (case parse_body rt text trimmed fid originalUrl h of
                 (Inl e, h1) \<Rightarrow> (Inl (rethrow e), h1)
               | (Inr r, h1) \<Rightarrow> (Inr r, h1)))"

text \<open>A lower-casing that agrees with \<open>toLowerCase\<close> on ASCII text.\<close>

definition ascii_lower :: "jsstring \<Rightarrow> jsstring" where
  "ascii_lower s = map (\<lambda>c. if 0x41 \<le> c \<and> c \<le> 0x5A then c + 0x20 else c) s"

section \<open>The transport layer: \<open>fetchRawText\<close>\<close>

text \<open>
  The relay URL builders, in the order of the source. The first one reads \<open>Date.now()\<close>
  after it has encoded the URL.
\<close>

type_synonym url_builder = "runtime \<Rightarrow> jsstring \<Rightarrow> history \<Rightarrow> (js_error + jsstring) \<times> history"

definition PROXIES :: "url_builder list" where
  "PROXIES =
     [ (\<lambda>rt url h. case encodeURIComponent rt url of
                      Inl m \<Rightarrow> (Inl (Error m), h)
                    | Inr enc \<Rightarrow>
                        (Inr (js ''https://api.allorigins.win/raw?url='' @ enc @ js ''&t=''
                              @ show_nat (nowMs rt (length h))), h @ [DateRead])),
       (\<lambda>rt url h. case encodeURIComponent rt url of
                      Inl m \<Rightarrow> (Inl (Error m), h)
                    | Inr enc \<Rightarrow> (Inr (js ''https://api.codetabs.com/v1/proxy?quest='' @ enc), h)),
       (\<lambda>rt url h. (Inr (js ''https://yacdn.org/proxy/'' @ url), h)),
       (\<lambda>rt url h. (Inr (js ''https://thingproxy.freeboard.io/fetch/'' @ url), h)) ]"

definition TIMEOUT_MS :: nat where
  "TIMEOUT_MS = 12000"

text \<open>
  The \<open>try\<close> block of the loop for one relay (source lines 34 to 59): build the URL, set
  the timer that aborts the request after 12000 ms, await \<open>fetch\<close>, clear the timer
  (line 47), require an ok status, await the body (line 53) and require that it is not
  blank. The timer is cleared before the body is awaited, so nothing ends the wait for a
  body that never arrives.
\<close>

definition attempt :: "runtime \<Rightarrow> url_builder \<Rightarrow> jsstring \<Rightarrow> history \<Rightarrow> (js_error + jsstring) \<times> history" where
  "attempt rt createProxyUrl url h =
     (case createProxyUrl rt url h of
        (Inl e, h1) \<Rightarrow> (Inl e, h1)
      | (Inr proxyUrl, h1) \<Rightarrow>
          (let h2 = h1 @ [Fetch proxyUrl (Some TIMEOUT_MS)] in
           case fetch rt (length h1) proxyUrl (Some TIMEOUT_MS) of
             FetchRejected m \<Rightarrow> (Inl (Error m), h2)
           | FetchPending \<Rightarrow> (Inl NeverSettles, h2)
           | FetchResolved st response_body \<Rightarrow>
               if \<not> response_ok st
               then (Inl (Error (js ''HTTP error! status: '' @ show_nat st)), h2)
               else (case response_body of
                       BodyStalls \<Rightarrow> (Inl NeverSettles, h2)
                     | BodyFails m \<Rightarrow> (Inl (Error m), h2)
                     | Body text \<Rightarrow>
                         if text = [] \<or> length (trim text) = 0
                         then (Inl (Error (js ''Empty response'')), h2)
                         else (Inr text, h2))))"

text \<open>
  The \<open>for\<close> loop over the builders, with \<open>lastError\<close>, and the final \<open>throw\<close>. The
  \<open>catch\<close> clause records what the \<open>try\<close> block throws; a \<open>try\<close> block that stays
  pending throws nothing, and the loop does not go on.
\<close>

fun try_proxies ::
  "runtime \<Rightarrow> url_builder list \<Rightarrow> jsstring \<Rightarrow> js_error option \<Rightarrow> history
     \<Rightarrow> (js_error + jsstring) \<times> history" where
  "try_proxies rt [] url lastError h =
     (Inl (case lastError of
             Some e \<Rightarrow> e
           | None \<Rightarrow> Error (js ''Failed to fetch feed from all proxies'')), h)"
| "try_proxies rt (createProxyUrl # rest) url lastError h =
     (case attempt rt createProxyUrl url h of
        (Inr text, h1) \<Rightarrow> (Inr text, h1)
      | (Inl err, h1) \<Rightarrow>
          if err = NeverSettles then (Inl NeverSettles, h1)
          else try_proxies rt rest url (Some err) h1)"

definition fetchRawText :: "runtime \<Rightarrow> jsstring \<Rightarrow> history \<Rightarrow> (js_error + jsstring) \<times> history" where
  "fetchRawText rt url h = try_proxies rt PROXIES url None h"

section \<open>Feed discovery: \<open>getFeedUrlFromHtml\<close>\<close>

text \<open>
  \<^verbatim>\<open>link[type="application/rss+xml"], link[type="application/atom+xml"]\<close>. In an HTML
  document the value of a \<open>type\<close> attribute is compared ASCII case-insensitively.
\<close>

definition is_feed_link :: "node \<Rightarrow> bool" where
  "is_feed_link e =
     (has_name [js ''link''] e \<and>
      (case getAttribute e (js ''type'') of
         None \<Rightarrow> False
       | Some t \<Rightarrow> ascii_lower t = js ''application/rss+xml''
                   \<or> ascii_lower t = js ''application/atom+xml''))"

definition getFeedUrlFromHtml :: "runtime \<Rightarrow> jsstring \<Rightarrow> jsstring \<Rightarrow> jsstring option" where
  "getFeedUrlFromHtml rt html baseUrl =
     (let doc = parseHtml rt html;
          links = filter is_feed_link (html_elements doc)
      in case links of
           [] \<Rightarrow> None
         | l # _ \<Rightarrow>
             (case getAttribute l (js ''href'') of
                None \<Rightarrow> None
              | Some href \<Rightarrow>
                  if href = [] then None
                  else (case resolveUrl rt href baseUrl of
                          Some u \<Rightarrow> Some u
                        | None \<Rightarrow> Some href)))"

section \<open>The remote fallback: \<open>fetchWithRss2Json\<close>\<close>

text \<open>
  The body of \<^verbatim>\<open>data.items.map((item: any) => ...)\<close> for one item: the identifier is drawn
  first; then \<open>item.title\<close> is read, which throws when the item is \<open>null\<close>.
\<close>

definition convert_item ::
  "runtime \<Rightarrow> jsstring \<Rightarrow> rss2json_item option \<Rightarrow> history \<Rightarrow> (js_error + article) \<times> history" where
  "convert_item rt fid item0 h =
     (case item0 of
        None \<Rightarrow> (Inl (Error (typeErrorMessage rt (js ''title''))), h @ [UuidDrawn])
      | Some item \<Rightarrow>
          (Inr \<lparr> article_id = randomUUID rt (length h),
                 feedId = fid,
                 title = item_title item,
                 link = item_link item,
                 pubDate = item_pubDate item,
                 content = or_else (or_else (the_default [] (item_content item))
                                            (the_default [] (item_description item))) [],
                 contentSnippet =
                   take 300 (strip_tags (or_else (or_else (the_default [] (item_description item))
                                                          (the_default [] (item_content item))) [])),
                 thumbnail = (if truthy (item_thumbnail item) then item_thumbnail item
                              else (case item_enclosure item of None \<Rightarrow> None | Some l \<Rightarrow> l)),
                 author = item_author item \<rparr>,
           h @ [UuidDrawn]))"

fun convert_items ::
  "runtime \<Rightarrow> jsstring \<Rightarrow> rss2json_item option list \<Rightarrow> history
     \<Rightarrow> (js_error + article list) \<times> history" where
  "convert_items rt fid [] h = (Inr [], h)"
| "convert_items rt fid (item # items) h =
     (case convert_item rt fid item h of
        (Inl e, h1) \<Rightarrow> (Inl e, h1)
      | (Inr a, h1) \<Rightarrow>
          (case convert_items rt fid items h1 of
             (Inl e, h2) \<Rightarrow> (Inl e, h2)
           | (Inr as, h2) \<Rightarrow> (Inr (a # as), h2)))"

text \<open>
  \<open>fetchWithRss2Json\<close> (source lines 190 to 213). The request has no timer: when
  nothing comes back, or the body never arrives, the call stays pending. \<open>json_result\<close>
  is what follows once \<open>res.json()\<close> has settled (lines 196 to 212); in the result,
  \<open>data.feed.title\<close> is read before \<open>data.items.map\<close> is called.
\<close>

definition json_result ::
  "runtime \<Rightarrow> jsstring \<Rightarrow> jsstring + rss2json_data option \<Rightarrow> history
     \<Rightarrow> (js_error + feed_result) \<times> history" where
  "json_result rt fid parsed h1 =
     (case parsed of
        Inl m \<Rightarrow> (Inl (Error m), h1)
      | Inr None \<Rightarrow> (Inl (Error (typeErrorMessage rt (js ''status''))), h1)
      | Inr (Some data) \<Rightarrow>
          if data_status data \<noteq> js ''ok''
          then (Inl (Error (js ''RSS2JSON failed: '' @ data_message data)), h1)
          else (case data_feed data of
                  None \<Rightarrow> (Inl (Error (typeErrorMessage rt (js ''title''))), h1)
                | Some feedTitle \<Rightarrow>
                    (case data_items data of
                       None \<Rightarrow> (Inl (Error (typeErrorMessage rt (js ''map''))), h1)
                     | Some items \<Rightarrow>
                         (case convert_items rt fid items h1 of
                            (Inl e, h2) \<Rightarrow> (Inl e, h2)
                          | (Inr as, h2) \<Rightarrow>
                              (Inr \<lparr> result_title = feedTitle, articles = as \<rparr>, h2)))))"

definition fetchWithRss2Json ::
  "runtime \<Rightarrow> jsstring \<Rightarrow> jsstring \<Rightarrow> history \<Rightarrow> (js_error + feed_result) \<times> history" where
  "fetchWithRss2Json rt url fid h0 =
     (let h = h0 @ [Call_fetchWithRss2Json url fid] in
      case encodeURIComponent rt url of
        Inl m \<Rightarrow> (Inl (Error m), h)
      | Inr enc \<Rightarrow>
          (let apiUrl = js ''https://api.rss2json.com/v1/api.json?rss_url='' @ enc;
               h1 = h @ [Fetch apiUrl None]
           in case fetch rt (length h) apiUrl None of
                FetchRejected m \<Rightarrow> (Inl (Error m), h1)
              | FetchPending \<Rightarrow> (Inl NeverSettles, h1)
              | FetchResolved st response_body \<Rightarrow>
                  if \<not> response_ok st
                  then (Inl (Error (js ''RSS2JSON failed with status '' @ show_nat st)), h1)
                  else (case response_body of
                          BodyStalls \<Rightarrow> (Inl NeverSettles, h1)
                        | BodyFails m \<Rightarrow> (Inl (Error m), h1)
                        | Body text \<Rightarrow> json_result rt fid (parseJson rt text) h1)))"

section \<open>The orchestrator: \<open>fetchFeed\<close>\<close>

text \<open>The \<open>try\<close> block: the relays, then the normalizer.\<close>

definition direct_fetch ::
  "runtime \<Rightarrow> jsstring \<Rightarrow> jsstring \<Rightarrow> history \<Rightarrow> (js_error + feed_result) \<times> history" where
  "direct_fetch rt url fid h =
     (case fetchRawText rt url h of
        (Inl e, h1) \<Rightarrow> (Inl e, h1)
      | (Inr text, h1) \<Rightarrow> parseXmlFeed rt text fid url h1)"

text \<open>
  The recursion of the source has no bound: the result is \<open>None\<close> for a run that goes
  on for ever. A run whose direct chain stays pending ends there, in \<open>NeverSettles\<close>.
\<close>

partial_function (option) fetchFeed ::
  "runtime \<Rightarrow> jsstring \<Rightarrow> jsstring \<Rightarrow> history \<Rightarrow> ((js_error + feed_result) \<times> history) option" where
  "fetchFeed rt url fid h0 =
     (case direct_fetch rt url fid (h0 @ [Call_fetchFeed url fid]) of
        (Inr r, h1) \<Rightarrow> Some (Inr r, h1)
      | (Inl error, h1) \<Rightarrow>
          (case error of
             NeverSettles \<Rightarrow> Some (Inl NeverSettles, h1)
           | FeedDiscoveryError m htmlContent ou \<Rightarrow>
               (if truthy (getFeedUrlFromHtml rt htmlContent url)
                   \<and> getFeedUrlFromHtml rt htmlContent url \<noteq> Some url
                then fetchFeed rt (the_default [] (getFeedUrlFromHtml rt htmlContent url)) fid h1
                else Some (fetchWithRss2Json rt url fid h1))
           | Error m \<Rightarrow> Some (fetchWithRss2Json rt url fid h1)))"

section \<open>The application state: merging fetched articles\<close>

text \<open>
  A JavaScript \<open>Map\<close> keeps its entries in insertion order; setting a key that is present
  replaces the value and keeps the position. \<open>new Map(entries)\<close> sets the entries one
  after the other, \<open>values()\<close> lists the values in order.
\<close>

fun map_set :: "('k \<times> 'v) list \<Rightarrow> 'k \<Rightarrow> 'v \<Rightarrow> ('k \<times> 'v) list" where
  "map_set [] k v = [(k, v)]"
| "map_set ((k', v') # m) k v = (if k' = k then (k', v) # m else (k', v') # map_set m k v)"

definition new_Map :: "('k \<times> 'v) list \<Rightarrow> ('k \<times> 'v) list" where
  "new_Map entries = foldl (\<lambda>m (k, v). map_set m k v) [] entries"

definition map_values :: "('k \<times> 'v) list \<Rightarrow> 'v list" where
  "map_values m = map snd m"

text \<open>\<^verbatim>\<open>Array.from(new Map(xs.map(item => [item.link, item])).values())\<close>\<close>

definition unique_by_link :: "article list \<Rightarrow> article list" where
  "unique_by_link xs = map_values (new_Map (map (\<lambda>item. (link item, item)) xs))"

text \<open>\<open>interface Feed\<close>, and the part of the state of \<open>App\<close> that the merges touch.\<close>

record feed =
  feed_id :: jsstring
  feed_url :: jsstring
  feed_title :: jsstring
  feed_icon :: "jsstring option"

record app_state =
  feeds :: "feed list"
  stored :: "article list"

text \<open>The outcome of a promise, as \<open>Promise.allSettled\<close> and \<open>await\<close> see it.\<close>

datatype 'a settled = Fulfilled 'a | Failed js_error

definition retitle :: "jsstring \<Rightarrow> jsstring \<Rightarrow> feed list \<Rightarrow> feed list" where
  "retitle fid ttl currentFeeds =
     map (\<lambda>f. if feed_id f = fid \<and> feed_title f \<noteq> ttl then f\<lparr>feed_title := ttl\<rparr> else f)
         currentFeeds"

text \<open>
  \<^verbatim>\<open>results.forEach((result, index) => ...)\<close>: the feeds and the collected articles after
  the results from \<open>index\<close> on.
\<close>

fun collect_results ::
  "(feed \<times> feed_result settled) list \<Rightarrow> feed list \<Rightarrow> article list \<Rightarrow> feed list \<times> article list" where
  "collect_results [] currentFeeds allArticles = (currentFeeds, allArticles)"
| "collect_results ((f, Fulfilled v) # rest) currentFeeds allArticles =
     collect_results rest (retitle (feed_id f) (result_title v) currentFeeds)
                          (allArticles @ articles v)"
| "collect_results ((f, Failed e) # rest) currentFeeds allArticles =
     collect_results rest currentFeeds allArticles"

text \<open>
  \<open>refreshFeeds\<close>, given the settled outcomes of \<open>fetchFeed\<close> for the feeds in order. The
  notification block between the merge and \<open>setArticles\<close> reads the merged list only; when
  \<^verbatim>\<open>new Notification\<close> throws there (\<open>notificationThrows\<close>), the \<open>catch\<close> clause is
  entered and \<open>setArticles\<close> is not reached, after the feed titles have been updated.
\<close>

definition refreshFeeds :: "app_state \<Rightarrow> feed_result settled list \<Rightarrow> bool \<Rightarrow> app_state" where
  "refreshFeeds s results notificationThrows =
     (if length (feeds s) = 0 then s\<lparr>stored := []\<rparr>
      else (case collect_results (zip (feeds s) results) (feeds s) [] of
              (newFeeds, allArticles) \<Rightarrow>
                if notificationThrows then s\<lparr>feeds := newFeeds\<rparr>
                else s\<lparr>feeds := newFeeds, stored := unique_by_link allArticles\<rparr>))"

text \<open>\<^verbatim>\<open>url.replace(/\/$/, '')\<close>: one trailing slash is dropped.\<close>

definition strip_trailing_slash :: "jsstring \<Rightarrow> jsstring" where
  "strip_trailing_slash u = (if u \<noteq> [] \<and> last u = 0x2F then butlast u else u)"

text \<open>
  \<open>addFeed\<close>, given the fresh identifier and the outcome of \<open>fetchFeed(url, newId)\<close>.
\<close>

definition addFeed :: "app_state \<Rightarrow> jsstring \<Rightarrow> jsstring \<Rightarrow> feed_result settled \<Rightarrow> app_state" where
  "addFeed s url newId outcome =
     (if list_ex (\<lambda>f. strip_trailing_slash (feed_url f) = strip_trailing_slash url) (feeds s)
      then s
      else (case outcome of
              Failed e \<Rightarrow> s
            | Fulfilled v \<Rightarrow>
                s\<lparr>feeds := feeds s @ [\<lparr>feed_id = newId, feed_url = url,
                                        feed_title = result_title v, feed_icon = None\<rparr>],
                  stored := unique_by_link (stored s @ articles v)\<rparr>))"

definition removeFeed :: "app_state \<Rightarrow> jsstring \<Rightarrow> app_state" where
  "removeFeed s fid =
     s\<lparr>feeds := filter (\<lambda>f. feed_id f \<noteq> fid) (feeds s),
       stored := filter (\<lambda>a. feedId a \<noteq> fid) (stored s)\<rparr>"

text \<open>The operations that update the article state, and a run of them from the start.\<close>

datatype operation =
    RefreshFeeds "feed_result settled list" bool
  | AddFeed jsstring jsstring "feed_result settled"
  | RemoveFeed jsstring

fun apply_operation :: "app_state \<Rightarrow> operation \<Rightarrow> app_state" where
  "apply_operation s (RefreshFeeds results notificationThrows) =
     refreshFeeds s results notificationThrows"
| "apply_operation s (AddFeed url newId outcome) = addFeed s url newId outcome"
| "apply_operation s (RemoveFeed fid) = removeFeed s fid"

definition run_operations :: "feed list \<Rightarrow> operation list \<Rightarrow> app_state" where
  "run_operations initialFeeds ops = foldl apply_operation \<lparr>feeds = initialFeeds, stored = []\<rparr> ops"

section \<open>Notions used to state the properties\<close>

text \<open>The item and entry elements of the document parsed from a text, in document order.\<close>

definition feed_items :: "runtime \<Rightarrow> jsstring \<Rightarrow> node list" where
  "feed_items rt text0 =
     doc_querySelectorAll [js ''item'', js ''entry''] (parseXml rt (stripBOM text0))"

text \<open>
  The text of the first date element of an item (empty when there is none), and an item
  with a date element whose text is not empty.
\<close>

definition date_text :: "node \<Rightarrow> jsstring" where
  "date_text item =
     opt_text (querySelector [js ''pubDate'', js ''published'', js ''updated'', js ''date''] item)"

definition has_date :: "node \<Rightarrow> bool" where
  "has_date item =
     (opt_text (querySelector [js ''pubDate'', js ''published'', js ''updated'', js ''date''] item)
        \<noteq> [])"

text \<open>
  The effects of converting one item: the clock is read when the item has no date text,
  then the identifier is drawn. \<open>effects_before items i\<close> is the number of effects of
  converting the items before the one at index \<open>i\<close>.
\<close>

definition item_effects :: "node \<Rightarrow> event list" where
  "item_effects item = (if has_date item then [UuidDrawn] else [DateRead, UuidDrawn])"

definition effects_before :: "node list \<Rightarrow> nat \<Rightarrow> nat" where
  "effects_before items i = length (concat (map item_effects (take i items)))"

text \<open>An article without its identifier, and without its identifier and date.\<close>

definition erase_id :: "article \<Rightarrow> article" where
  "erase_id a = a\<lparr>article_id := []\<rparr>"

definition erase_id_date :: "article \<Rightarrow> article" where
  "erase_id_date a = a\<lparr>article_id := [], pubDate := []\<rparr>"

text \<open>An enclosure element whose \<open>type\<close> attribute begins with \<open>image\<close>.\<close>

definition image_enclosure :: "node option \<Rightarrow> bool" where
  "image_enclosure enclosure =
     (case attr_of enclosure (js ''type'') of
        None \<Rightarrow> False
      | Some t \<Rightarrow> startsWith t (js ''image''))"

text \<open>
  The thumbnail as the specification words it: the \<open>url\<close> attribute of a \<open>content\<close> element
  of the item if some such element has one; else the \<open>url\<close> attribute of an enclosure
  element whose type begins with \<open>image\<close>, if there is one; else the \<open>src\<close> of the first
  inline image; else absent (the empty string).
\<close>

definition claimed_thumbnail :: "node \<Rightarrow> html_doc \<Rightarrow> jsstring option" where
  "claimed_thumbnail item doc =
     (case filter (\<lambda>m. truthy (getAttribute m (js ''url'')))
                  (getElementsByTagNameNS_any (js ''content'') item) of
        m # _ \<Rightarrow> getAttribute m (js ''url'')
      | [] \<Rightarrow>
          (case filter (\<lambda>e. image_enclosure (Some e)) (querySelectorAll [js ''enclosure''] item) of
             e # _ \<Rightarrow> getAttribute e (js ''url'')
           | [] \<Rightarrow>
               (case html_querySelector [js ''img''] doc of
                  Some i \<Rightarrow> getAttribute i (js ''src'')
                | None \<Rightarrow> Some [])))"



section \<open>Reading a history\<close>

text \<open>
  The calls of \<open>fetchFeed\<close> and of \<open>fetchWithRss2Json\<close> recorded in a history, with their
  arguments, and the network requests with their abort delays, each in order.
\<close>

definition fetchFeed_calls :: "history \<Rightarrow> (jsstring \<times> jsstring) list" where
  "fetchFeed_calls h =
     concat (map (\<lambda>e. case e of Call_fetchFeed u f \<Rightarrow> [(u, f)] | _ \<Rightarrow> []) h)"

definition fallback_calls :: "history \<Rightarrow> (jsstring \<times> jsstring) list" where
  "fallback_calls h =
     concat (map (\<lambda>e. case e of Call_fetchWithRss2Json u f \<Rightarrow> [(u, f)] | _ \<Rightarrow> []) h)"


fun is_call :: "event \<Rightarrow> bool" where
  "is_call (Call_fetchFeed u f) = True"
| "is_call (Call_fetchWithRss2Json u f) = True"
| "is_call e = False"

text \<open>\<open>h'\<close> continues \<open>h\<close> without entering \<open>fetchFeed\<close> or \<open>fetchWithRss2Json\<close>.\<close>

definition extends_quietly :: "history \<Rightarrow> history \<Rightarrow> bool" where
  "extends_quietly h h' = (\<exists>es. h' = h @ es \<and> list_all (\<lambda>e. \<not> is_call e) es)"

text \<open>
  The shape of a run of \<open>fetchFeed url fid\<close> that started at \<open>h0\<close> and ended in \<open>y\<close>: the
  calls of \<open>fetchFeed\<close> it recorded start with its own and all carry \<open>fid\<close>; the fallback
  was entered at most once, with the arguments of the last of these calls; every article
  of a result carries \<open>fid\<close>.
\<close>

definition run_shape ::
  "jsstring \<Rightarrow> jsstring \<Rightarrow> history \<Rightarrow> (js_error + feed_result) \<times> history \<Rightarrow> bool" where
  "run_shape url fid h0 y =
     ((\<exists>cs. fetchFeed_calls (snd y) = fetchFeed_calls h0 @ (url, fid) # cs
            \<and> list_all (\<lambda>c. snd c = fid) cs
            \<and> (fallback_calls (snd y) = fallback_calls h0
               \<or> fallback_calls (snd y) = fallback_calls h0 @ [last ((url, fid) # cs)]))
      \<and> (case fst y of
           Inr res \<Rightarrow> list_all (\<lambda>a. feedId a = fid) (articles res)
         | Inl e \<Rightarrow> True))"

section \<open>A sample platform\<close>

text \<open>
  \<open>encodeURIComponent\<close> as ECMAScript defines it: the letters, the digits and the
  characters \<^verbatim>\<open>- _ . ! ~ * ' ( )\<close> stay; every other code point is written in UTF-8 and
  each byte becomes \<open>%\<close> and two upper-case hexadecimal digits; a surrogate without its
  partner is an error.
\<close>

definition unreserved :: "16 word \<Rightarrow> bool" where
  "unreserved c =
     ((0x41 \<le> c \<and> c \<le> 0x5A) \<or> (0x61 \<le> c \<and> c \<le> 0x7A) \<or> (0x30 \<le> c \<and> c \<le> 0x39)
      \<or> c \<in> set [0x2D, 0x5F, 0x2E, 0x21, 0x7E, 0x2A, 0x27, 0x28, 0x29])"

definition hex_digit :: "nat \<Rightarrow> 16 word" where
  "hex_digit d = of_nat (if d < 10 then 48 + d else 55 + d)"

definition percent :: "nat \<Rightarrow> jsstring" where
  "percent byte = [0x25, hex_digit (byte div 16), hex_digit (byte mod 16)]"

definition utf8 :: "nat \<Rightarrow> nat list" where
  "utf8 cp =
     (if cp < 0x80 then [cp]
      else if cp < 0x800 then [0xC0 + cp div 0x40, 0x80 + cp mod 0x40]
      else if cp < 0x10000
      then [0xE0 + cp div 0x1000, 0x80 + cp div 0x40 mod 0x40, 0x80 + cp mod 0x40]
      else [0xF0 + cp div 0x40000, 0x80 + cp div 0x1000 mod 0x40, 0x80 + cp div 0x40 mod 0x40,
            0x80 + cp mod 0x40])"

fun percent_encode :: "jsstring \<Rightarrow> jsstring option" where
  "percent_encode [] = Some []"
| "percent_encode (c # cs) =
     (if unreserved c then map_option ((#) c) (percent_encode cs)
      else if 0xD800 \<le> c \<and> c \<le> 0xDBFF
      then (case cs of
              [] \<Rightarrow> None
            | d # ds \<Rightarrow>
                if 0xDC00 \<le> d \<and> d \<le> 0xDFFF
                then map_option
                       ((@) (concat (map percent
                          (utf8 (0x10000 + (unat c - 0xD800) * 0x400 + (unat d - 0xDC00))))))
                       (percent_encode ds)
                else None)
      else if 0xDC00 \<le> c \<and> c \<le> 0xDFFF then None
      else map_option ((@) (concat (map percent (utf8 (unat c))))) (percent_encode cs))"

text \<open>
  A platform to run the service on concrete inputs: ASCII lower-casing, the encoder
  above, parsers that return empty documents, a network on which every request fails
  after 40 ms, and identifiers and a clock that advance with every effect. Examples
  replace the components they exercise.
\<close>

definition sample_runtime :: runtime where
  "sample_runtime =
     \<lparr> toLowerCase = ascii_lower,
       encodeURIComponent = (\<lambda>s. case percent_encode s of
                                     None \<Rightarrow> Inl (js ''URI malformed'')
                                   | Some enc \<Rightarrow> Inr enc),
       parseXml = (\<lambda>s. Element [] (js ''rss'') [] []),
       parseHtml = (\<lambda>s. HtmlDocument [] []),
       resolveUrl = (\<lambda>href base. Some href),
       parseJson = (\<lambda>s. Inl (js ''Unexpected end of JSON input'')),
       network = (\<lambda>n u. Rejects 40 (js ''Failed to fetch'')),
       abortMessage = js ''signal is aborted without reason'',
       typeErrorMessage = (\<lambda>p. js ''Cannot read properties of undefined (reading ''
                                @ [0x27] @ p @ [0x27] @ js '')''),
       randomUUID = (\<lambda>n. js ''id-'' @ show_nat n),
       nowISO = (\<lambda>n. js ''2024-01-01T00:00:00.'' @ show_nat (100 + n) @ js ''Z''),
       nowMs = (\<lambda>n. 1700000000000 + n) \<rparr>"

section \<open>Sample documents\<close>

text \<open>
  A site whose page announces its feed, the feed, an Atom feed with a media extension, and
  a feed whose description is escaped twice; each text with the document a browser
  builds from it.
\<close>

definition dq :: jsstring where
  "dq = [0x22]"

definition SITE_URL :: jsstring where
  "SITE_URL = js ''https://site.example/''"

definition FEED_URL :: jsstring where
  "FEED_URL = js ''https://site.example/feed.xml''"

definition SITE_HTML :: jsstring where
  "SITE_HTML = js ''<!DOCTYPE html><html><head><link type=application/rss+xml href=/feed.xml></head><body></body></html>''"

definition SITE_DOC :: html_doc where
  "SITE_DOC = HtmlDocument
     [Element [] (js ''link'')
        [(js ''type'', js ''application/rss+xml''), (js ''href'', js ''/feed.xml'')] []]
     []"

definition FEED_XML :: jsstring where
  "FEED_XML =
     js ''<rss xmlns:media='' @ dq @ js ''http://search.yahoo.com/mrss/'' @ dq
     @ js ''><channel><title>News</title><item><title>First</title><link>https://site.example/a</link><pubDate>Mon, 01 Jan 2024 00:00:00 GMT</pubDate><description>&lt;p&gt;Hello&lt;/p&gt;</description><media:content url=''
     @ dq @ js ''https://site.example/m.jpg'' @ dq @ js ''/><enclosure url='' @ dq
     @ js ''https://site.example/a.png'' @ dq @ js '' type='' @ dq @ js ''image/png'' @ dq
     @ js ''/></item><item><link>https://site.example/b</link><description>&lt;img src=https://site.example/b.png&gt;plain</description></item></channel></rss>''"

definition FEED_ITEM1 :: node where
  "FEED_ITEM1 = Element [] (js ''item'') []
     [Element [] (js ''title'') [] [Text (js ''First'')],
      Element [] (js ''link'') [] [Text (js ''https://site.example/a'')],
      Element [] (js ''pubDate'') [] [Text (js ''Mon, 01 Jan 2024 00:00:00 GMT'')],
      Element [] (js ''description'') [] [Text (js ''<p>Hello</p>'')],
      Element (js ''media'') (js ''content'') [(js ''url'', js ''https://site.example/m.jpg'')] [],
      Element [] (js ''enclosure'')
        [(js ''url'', js ''https://site.example/a.png''), (js ''type'', js ''image/png'')] []]"

definition FEED_ITEM2 :: node where
  "FEED_ITEM2 = Element [] (js ''item'') []
     [Element [] (js ''link'') [] [Text (js ''https://site.example/b'')],
      Element [] (js ''description'') [] [Text (js ''<img src=https://site.example/b.png>plain'')]]"

definition FEED_DOC :: node where
  "FEED_DOC = Element [] (js ''rss'') [(js ''xmlns:media'', js ''http://search.yahoo.com/mrss/'')]
     [Element [] (js ''channel'') []
        [Element [] (js ''title'') [] [Text (js ''News'')], FEED_ITEM1, FEED_ITEM2]]"

definition ATOM_XML :: jsstring where
  "ATOM_XML =
     js ''<feed xmlns='' @ dq @ js ''http://www.w3.org/2005/Atom'' @ dq
     @ js '' xmlns:media='' @ dq @ js ''http://search.yahoo.com/mrss/'' @ dq
     @ js ''><title>Blog</title><entry><title>Post</title><link href='' @ dq
     @ js ''https://blog.example/post'' @ dq
     @ js ''/><updated>2024-01-02T00:00:00Z</updated><content type='' @ dq @ js ''html'' @ dq
     @ js ''>Hi</content><media:content url='' @ dq @ js ''https://blog.example/i.jpg'' @ dq
     @ js ''/></entry></feed>''"

definition ATOM_MEDIA :: node where
  "ATOM_MEDIA =
     Element (js ''media'') (js ''content'') [(js ''url'', js ''https://blog.example/i.jpg'')] []"

definition ATOM_ENTRY :: node where
  "ATOM_ENTRY = Element [] (js ''entry'') []
     [Element [] (js ''title'') [] [Text (js ''Post'')],
      Element [] (js ''link'') [(js ''href'', js ''https://blog.example/post'')] [],
      Element [] (js ''updated'') [] [Text (js ''2024-01-02T00:00:00Z'')],
      Element [] (js ''content'') [(js ''type'', js ''html'')] [Text (js ''Hi'')],
      ATOM_MEDIA]"

definition ATOM_DOC :: node where
  "ATOM_DOC = Element [] (js ''feed'')
     [(js ''xmlns'', js ''http://www.w3.org/2005/Atom''),
      (js ''xmlns:media'', js ''http://search.yahoo.com/mrss/'')]
     [Element [] (js ''title'') [] [Text (js ''Blog'')], ATOM_ENTRY]"

definition ESCAPED_XML :: jsstring where
  "ESCAPED_XML = js ''<rss><channel><item><description>&amp;lt;b&amp;gt;bold&amp;lt;/b&amp;gt;</description></item></channel></rss>''"

definition ESCAPED_DOC :: node where
  "ESCAPED_DOC = Element [] (js ''rss'') []
     [Element [] (js ''channel'') []
        [Element [] (js ''item'') []
           [Element [] (js ''description'') [] [Text (js ''&lt;b&gt;bold&lt;/b&gt;'')]]]]"

text \<open>
  The platform for these documents. The network answers a relay request for the feed
  with the feed and one for the site with its page; the fallback is never reached on them.
\<close>

definition site_runtime :: runtime where
  "site_runtime = sample_runtime
     \<lparr> parseXml := (\<lambda>s. if s = FEED_XML then FEED_DOC
                        else if s = ATOM_XML then ATOM_DOC
                        else if s = ESCAPED_XML then ESCAPED_DOC
                        else Element [] (js ''parsererror'') [] [Text (js ''syntax error'')]),
       parseHtml := (\<lambda>s. if s = SITE_HTML then SITE_DOC
                         else if s = [] then HtmlDocument [] []
                         else if s = js ''<p>Hello</p>''
                         then HtmlDocument [] [Element [] (js ''p'') [] [Text (js ''Hello'')]]
                         else if s = js ''<img src=https://site.example/b.png>plain''
                         then HtmlDocument []
                                [Element [] (js ''img'') [(js ''src'', js ''https://site.example/b.png'')] [],
                                 Text (js ''plain'')]
                         else if s = js ''&lt;b&gt;bold&lt;/b&gt;''
                         then HtmlDocument [] [Text (js ''<b>bold</b>'')]
                         else HtmlDocument [] [Text s]),
       resolveUrl := (\<lambda>href base. if href = js ''/feed.xml'' \<and> base = SITE_URL
                                  then Some FEED_URL else None),
       network := (\<lambda>n u. if js_includes u (js ''feed.xml'') then Responds 120 200 (Body FEED_XML)
                         else if js_includes u (js ''site.example'')
                         then Responds 120 200 (Body SITE_HTML)
                         else Rejects 40 (js ''Failed to fetch'')) \<rparr>"

text \<open>
  Two pages that announce each other as their feed, on a network that answers the first
  two requests and fails on every later one.
\<close>

definition PAGE_A_URL :: jsstring where
  "PAGE_A_URL = js ''https://a.example/''"

definition PAGE_B_URL :: jsstring where
  "PAGE_B_URL = js ''https://b.example/''"

definition PAGE_A :: jsstring where
  "PAGE_A = js ''<html><head><link type=application/rss+xml href=https://b.example/></head></html>''"

definition PAGE_B :: jsstring where
  "PAGE_B = js ''<html><head><link type=application/rss+xml href=https://a.example/></head></html>''"

definition link_doc :: "jsstring \<Rightarrow> html_doc" where
  "link_doc href = HtmlDocument
     [Element [] (js ''link'') [(js ''type'', js ''application/rss+xml''), (js ''href'', href)] []]
     []"

definition cyclic_runtime :: runtime where
  "cyclic_runtime = sample_runtime
     \<lparr> parseHtml := (\<lambda>s. if s = PAGE_A then link_doc PAGE_B_URL
                         else if s = PAGE_B then link_doc PAGE_A_URL
                         else HtmlDocument [] [Text s]),
       network := (\<lambda>n u. if 6 \<le> n then Rejects 40 (js ''Failed to fetch'')
                         else if js_includes u (js ''a.example'') then Responds 120 200 (Body PAGE_A)
                         else if js_includes u (js ''b.example'') then Responds 120 200 (Body PAGE_B)
                         else Rejects 40 (js ''Failed to fetch'')) \<rparr>"

definition FID :: jsstring where
  "FID = js ''feed-1''"

text \<open>What \<open>parseXmlFeed\<close> makes of the sample feeds when it starts after the history \<open>h\<close>.\<close>

definition FEED_ARTICLE1 :: "history \<Rightarrow> article" where
  "FEED_ARTICLE1 h =
     \<lparr> article_id = randomUUID site_runtime (length h), feedId = FID, title = js ''First'',
       link = js ''https://site.example/a'', pubDate = js ''Mon, 01 Jan 2024 00:00:00 GMT'',
       content = js ''<p>Hello</p>'', contentSnippet = js ''Hello'',
       thumbnail = Some (js ''https://site.example/m.jpg''), author = None \<rparr>"

definition FEED_ARTICLE2 :: "history \<Rightarrow> article" where
  "FEED_ARTICLE2 h =
     \<lparr> article_id = randomUUID site_runtime (length h + 2), feedId = FID, title = UNTITLED,
       link = js ''https://site.example/b'', pubDate = nowISO site_runtime (length h + 1),
       content = js ''<img src=https://site.example/b.png>plain'', contentSnippet = js ''plain'',
       thumbnail = Some (js ''https://site.example/b.png''), author = None \<rparr>"

definition ATOM_ARTICLE :: "history \<Rightarrow> article" where
  "ATOM_ARTICLE h =
     \<lparr> article_id = randomUUID site_runtime (length h), feedId = FID, title = js ''Post'',
       link = js ''https://blog.example/post'', pubDate = js ''2024-01-02T00:00:00Z'',
       content = [], contentSnippet = [], thumbnail = Some [], author = None \<rparr>"

definition ESCAPED_ARTICLE :: "history \<Rightarrow> article" where
  "ESCAPED_ARTICLE h =
     \<lparr> article_id = randomUUID site_runtime (length h + 1), feedId = FID, title = UNTITLED,
       link = [], pubDate = nowISO site_runtime (length h),
       content = js ''&lt;b&gt;bold&lt;/b&gt;'', contentSnippet = js ''<b>bold</b>'',
       thumbnail = Some [], author = None \<rparr>"











text \<open>Three stored articles, the first and the last with the same link.\<close>

definition ART_OLD :: article where
  "ART_OLD = \<lparr> article_id = js ''id-1'', feedId = js ''feed-1'', title = js ''Old title'',
       link = js ''https://x/a'', pubDate = js ''2024-01-01'', content = [], contentSnippet = [],
       thumbnail = Some [], author = None \<rparr>"

definition ART_OTHER :: article where
  "ART_OTHER = \<lparr> article_id = js ''id-2'', feedId = js ''feed-1'', title = js ''Other'',
       link = js ''https://x/b'', pubDate = js ''2024-01-01'', content = [], contentSnippet = [],
       thumbnail = Some [], author = None \<rparr>"

definition ART_NEW :: article where
  "ART_NEW = \<lparr> article_id = js ''id-3'', feedId = js ''feed-2'', title = js ''New title'',
       link = js ''https://x/a'', pubDate = js ''2024-01-02'', content = [], contentSnippet = [],
       thumbnail = Some [], author = None \<rparr>"

text \<open>
  A page without a feed link, served for every request; a page that starts with a
  byte-order mark and a blank; and the histories of the sample runs.
\<close>

definition PAGE_HTML :: jsstring where
  "PAGE_HTML = js ''<html><body>Hello</body></html>''"

definition page_runtime :: runtime where
  "page_runtime = sample_runtime
     \<lparr> parseHtml := (\<lambda>s. HtmlDocument [] [Text (js ''Hello'')]),
       network := (\<lambda>n u. Responds 120 200 (Body PAGE_HTML)) \<rparr>"

definition BOM_PAGE :: jsstring where
  "BOM_PAGE = 0xFEFF # js '' <!DOCTYPE html><html><body>Hello</body></html>''"

definition SITE_H1 :: history where
  "SITE_H1 =
     [Call_fetchFeed SITE_URL FID, DateRead,
      Fetch (js ''https://api.allorigins.win/raw?url=https%3A%2F%2Fsite.example%2F&t=1700000000001'')
            (Some 12000)]"

definition SITE_H2 :: history where
  "SITE_H2 = SITE_H1 @
     [Call_fetchFeed FEED_URL FID, DateRead,
      Fetch (js ''https://api.allorigins.win/raw?url=https%3A%2F%2Fsite.example%2Ffeed.xml&t=1700000000004'')
            (Some 12000)]"

definition CYCLE_H1 :: history where
  "CYCLE_H1 =
     [Call_fetchFeed PAGE_A_URL FID, DateRead,
      Fetch (js ''https://api.allorigins.win/raw?url=https%3A%2F%2Fa.example%2F&t=1700000000001'')
            (Some 12000)]"

definition CYCLE_H2 :: history where
  "CYCLE_H2 = CYCLE_H1 @
     [Call_fetchFeed PAGE_B_URL FID, DateRead,
      Fetch (js ''https://api.allorigins.win/raw?url=https%3A%2F%2Fb.example%2F&t=1700000000004'')
            (Some 12000)]"

definition CYCLE_H3 :: history where
  "CYCLE_H3 = CYCLE_H2 @
     [Call_fetchFeed PAGE_A_URL FID, DateRead,
      Fetch (js ''https://api.allorigins.win/raw?url=https%3A%2F%2Fa.example%2F&t=1700000000007'')
            (Some 12000),
      Fetch (js ''https://api.codetabs.com/v1/proxy?quest=https%3A%2F%2Fa.example%2F'') (Some 12000),
      Fetch (js ''https://yacdn.org/proxy/https://a.example/'') (Some 12000),
      Fetch (js ''https://thingproxy.freeboard.io/fetch/https://a.example/'') (Some 12000)]"

text \<open>
  A page that announces the address it is served from as its feed: the text of page A,
  served for every request and read at the address of page B.
\<close>

definition mirror_runtime :: runtime where
  "mirror_runtime = sample_runtime
     \<lparr> parseHtml := (\<lambda>s. if s = PAGE_A then link_doc PAGE_B_URL else HtmlDocument [] [Text s]),
       network := (\<lambda>n u. Responds 120 200 (Body PAGE_A)) \<rparr>"

text \<open>
  A network on which every relay request fails, while the conversion service answers a
  request for the site with a document of one item and any other request with status
  500; the document, its value, the address of the request and the article made of the
  item.
\<close>

definition JSON_TEXT :: jsstring where
  "JSON_TEXT =
     js ''{'' @ dq @ js ''status'' @ dq @ js '':'' @ dq @ js ''ok'' @ dq @ js '','' @ dq
     @ js ''feed'' @ dq @ js '':{'' @ dq @ js ''title'' @ dq @ js '':'' @ dq @ js ''News''
     @ dq @ js ''},'' @ dq @ js ''items'' @ dq @ js '':[{'' @ dq @ js ''title'' @ dq
     @ js '':'' @ dq @ js ''First'' @ dq @ js '','' @ dq @ js ''link'' @ dq @ js '':'' @ dq
     @ js ''https://site.example/a'' @ dq @ js '','' @ dq @ js ''pubDate'' @ dq @ js '':''
     @ dq @ js ''2024-01-01 00:00:00'' @ dq @ js '','' @ dq @ js ''description'' @ dq
     @ js '':'' @ dq @ js ''<p>Hello</p>'' @ dq @ js ''}]}''"

definition JSON_DATA :: rss2json_data where
  "JSON_DATA =
     \<lparr> data_status = js ''ok'', data_message = js ''undefined'', data_feed = Some (js ''News''),
       data_items = Some [Some \<lparr> item_title = js ''First'', item_link = js ''https://site.example/a'',
                                 item_pubDate = js ''2024-01-01 00:00:00'', item_content = None,
                                 item_description = Some (js ''<p>Hello</p>''),
                                 item_thumbnail = None, item_enclosure = None,
                                 item_author = None \<rparr>] \<rparr>"

definition fallback_runtime :: runtime where
  "fallback_runtime = sample_runtime
     \<lparr> parseJson := (\<lambda>s. if s = JSON_TEXT then Inr (Some JSON_DATA)
                         else Inl (js ''Unexpected end of JSON input'')),
       network := (\<lambda>n u. if startsWith u (js ''https://api.rss2json.com/'')
                         then (if js_includes u (js ''site.example'')
                               then Responds 60 200 (Body JSON_TEXT)
                               else Responds 60 500 (Body []))
                         else Rejects 40 (js ''Failed to fetch'')) \<rparr>"

definition API_URL :: jsstring where
  "API_URL = js ''https://api.rss2json.com/v1/api.json?rss_url=https%3A%2F%2Fsite.example%2F''"

definition JSON_ARTICLE :: article where
  "JSON_ARTICLE =
     \<lparr> article_id = js ''id-2'', feedId = FID, title = js ''First'',
       link = js ''https://site.example/a'', pubDate = js ''2024-01-01 00:00:00'',
       content = js ''<p>Hello</p>'', contentSnippet = js ''Hello'', thumbnail = None,
       author = None \<rparr>"

section \<open>Histories of the parts\<close>

lemma fetchFeed_calls_append [simp]: "fetchFeed_calls (h @ k) = fetchFeed_calls h @ fetchFeed_calls k"
  by (simp add: fetchFeed_calls_def)

lemma fallback_calls_append [simp]: "fallback_calls (h @ k) = fallback_calls h @ fallback_calls k"
  by (simp add: fallback_calls_def)

lemma calls_quiet:
  "list_all (\<lambda>e. \<not> is_call e) es \<Longrightarrow> fetchFeed_calls es = [] \<and> fallback_calls es = []"
  by (induction es) (auto simp: fetchFeed_calls_def fallback_calls_def split: event.splits)

lemma extends_quietly_refl [simp]: "extends_quietly h h"
  by (simp add: extends_quietly_def)

lemma extends_quietly_trans: "extends_quietly h h1 \<Longrightarrow> extends_quietly h1 h2 \<Longrightarrow> extends_quietly h h2"
  by (auto simp: extends_quietly_def)

lemma extends_quietly_snoc: "\<not> is_call e \<Longrightarrow> extends_quietly h (h @ [e])"
  by (simp add: extends_quietly_def)

lemma extends_quietly_calls:
  "extends_quietly h h' \<Longrightarrow> fetchFeed_calls h' = fetchFeed_calls h \<and> fallback_calls h' = fallback_calls h"
  by (auto simp: extends_quietly_def calls_quiet)

lemma parse_item_quiet: "parse_item rt fid item h = (a, h') \<Longrightarrow> extends_quietly h h'"
  by (auto simp: parse_item_def Let_def extends_quietly_def)

lemma parse_items_quiet: "parse_items rt fid items h = (as, h') \<Longrightarrow> extends_quietly h h'"
proof (induction items arbitrary: h as h')
  case Nil
  then show ?case by simp
next
  case (Cons item items)
  obtain a h1 where a: "parse_item rt fid item h = (a, h1)" by (cases "parse_item rt fid item h")
  obtain as' h2 where b: "parse_items rt fid items h1 = (as', h2)" by (cases "parse_items rt fid items h1")
  have "extends_quietly h h1" using parse_item_quiet a by blast
  moreover have "extends_quietly h1 h2" using Cons.IH b by blast
  ultimately show ?case using a b Cons.prems by (auto intro: extends_quietly_trans)
qed

lemma parse_body_quiet: "parse_body rt t tr fid url h = (r, h') \<Longrightarrow> extends_quietly h h'"
  by (auto simp: parse_body_def Let_def split: option.splits prod.splits if_splits
           dest: parse_items_quiet)

lemma parseXmlFeed_quiet: "parseXmlFeed rt text fid url h = (r, h') \<Longrightarrow> extends_quietly h h'"
  by (auto simp: parseXmlFeed_def Let_def split: prod.splits sum.splits if_splits
           dest: parse_body_quiet)

lemma PROXIES_quiet: "b \<in> set PROXIES \<Longrightarrow> b rt url h = (r, h') \<Longrightarrow> extends_quietly h h'"
  by (auto simp: PROXIES_def extends_quietly_def split: sum.splits)

lemma attempt_history:
  assumes "attempt rt b url h = (r, h')" and "b rt url h = (rb, hb)"
  shows "h' = hb \<or> (\<exists>p. h' = hb @ [Fetch p (Some TIMEOUT_MS)])"
proof (cases rb)
  case (Inl e)
  then show ?thesis using assms by (simp add: attempt_def)
next
  case (Inr p)
  have "snd (attempt rt b url h) = hb @ [Fetch p (Some TIMEOUT_MS)]"
    using assms(2) Inr
    by (simp add: attempt_def Let_def split: fetched.split body.split)
  then show ?thesis using assms(1) by auto
qed

lemma attempt_quiet:
  assumes "b \<in> set PROXIES" and "attempt rt b url h = (r, h')"
  shows "extends_quietly h h'"
proof -
  obtain rb hb where b: "b rt url h = (rb, hb)" by (cases "b rt url h")
  have q: "extends_quietly h hb" using PROXIES_quiet [OF assms(1) b] .
  from attempt_history [OF assms(2) b] show ?thesis
  proof
    assume "h' = hb"
    then show ?thesis using q by simp
  next
    assume "\<exists>p. h' = hb @ [Fetch p (Some TIMEOUT_MS)]"
    then obtain p where "h' = hb @ [Fetch p (Some TIMEOUT_MS)]" ..
    then have "extends_quietly hb h'" by (simp add: extends_quietly_snoc)
    with q show ?thesis by (rule extends_quietly_trans)
  qed
qed

lemma try_proxies_quiet:
  "set bs \<subseteq> set PROXIES \<Longrightarrow> try_proxies rt bs url le h = (r, h') \<Longrightarrow> extends_quietly h h'"
proof (induction bs arbitrary: le h)
  case Nil
  then show ?case by simp
next
  case (Cons b bs)
  obtain r1 h1 where a: "attempt rt b url h = (r1, h1)" by (cases "attempt rt b url h")
  have q: "extends_quietly h h1" using attempt_quiet [OF _ a] Cons.prems(1) by simp
  show ?case
  proof (cases r1)
    case (Inl e)
    show ?thesis
    proof (cases "e = NeverSettles")
      case True
      then show ?thesis using Cons.prems(2) a Inl q by simp
    next
      case False
      then have "try_proxies rt bs url (Some e) h1 = (r, h')" using Cons.prems(2) a Inl by simp
      then have "extends_quietly h1 h'" using Cons.IH Cons.prems(1) by simp
      then show ?thesis using q by (rule extends_quietly_trans [rotated])
    qed
  next
    case (Inr t)
    then show ?thesis using Cons.prems(2) a q by simp
  qed
qed

lemma fetchRawText_quiet: "fetchRawText rt url h = (r, h') \<Longrightarrow> extends_quietly h h'"
  unfolding fetchRawText_def by (rule try_proxies_quiet [OF subset_refl])

lemma direct_fetch_quiet:
  assumes "direct_fetch rt url fid h = (r, h')"
  shows "extends_quietly h h'"
proof -
  obtain r1 h1 where a: "fetchRawText rt url h = (r1, h1)" by (cases "fetchRawText rt url h")
  have q: "extends_quietly h h1" using fetchRawText_quiet [OF a] .
  show ?thesis
  proof (cases r1)
    case (Inl e)
    then show ?thesis using assms a q by (simp add: direct_fetch_def)
  next
    case (Inr t)
    then have "parseXmlFeed rt t fid url h1 = (r, h')" using assms a by (simp add: direct_fetch_def)
    then have "extends_quietly h1 h'" by (rule parseXmlFeed_quiet)
    with q show ?thesis by (rule extends_quietly_trans)
  qed
qed

lemma convert_item_history: "snd (convert_item rt fid item h) = h @ [UuidDrawn]"
  by (simp add: convert_item_def split: option.split)

lemma convert_item_feedId: "convert_item rt fid item h = (Inr a, h') \<Longrightarrow> feedId a = fid"
  by (auto simp: convert_item_def split: option.splits)

lemma convert_items_quiet: "convert_items rt fid items h = (r, h') \<Longrightarrow> extends_quietly h h'"
proof (induction items arbitrary: h r h')
  case Nil
  then show ?case by simp
next
  case (Cons item items)
  obtain r1 h1 where a: "convert_item rt fid item h = (r1, h1)"
    by (cases "convert_item rt fid item h")
  have "h1 = h @ [UuidDrawn]" using convert_item_history [of rt fid item h] a by simp
  then have q: "extends_quietly h h1" by (simp add: extends_quietly_snoc)
  show ?case
  proof (cases r1)
    case (Inl e)
    then show ?thesis using Cons.prems a q by simp
  next
    case (Inr x)
    obtain r2 h2 where b: "convert_items rt fid items h1 = (r2, h2)"
      by (cases "convert_items rt fid items h1")
    have "extends_quietly h1 h2" using Cons.IH b by blast
    with q have "extends_quietly h h2" by (rule extends_quietly_trans)
    moreover have "h' = h2" using Cons.prems a b Inr by (cases r2) simp_all
    ultimately show ?thesis by simp
  qed
qed

lemma json_result_quiet: "json_result rt fid parsed h = (r, h') \<Longrightarrow> extends_quietly h h'"
  by (auto simp: json_result_def split: sum.splits option.splits if_splits prod.splits
           dest: convert_items_quiet)

lemma fetchWithRss2Json_history:
  assumes "fetchWithRss2Json rt url fid h = (r, h')"
  shows "extends_quietly (h @ [Call_fetchWithRss2Json url fid]) h'"
proof (cases "encodeURIComponent rt url")
  case (Inl m)
  then show ?thesis using assms by (simp add: fetchWithRss2Json_def)
next
  case (Inr enc)
  define h0 where "h0 = h @ [Call_fetchWithRss2Json url fid]"
  define apiUrl where "apiUrl = js ''https://api.rss2json.com/v1/api.json?rss_url='' @ enc"
  define h1 where "h1 = h0 @ [Fetch apiUrl None]"
  have q: "extends_quietly h0 h1" by (simp add: h1_def extends_quietly_snoc)
  have "h' = h1 \<or> (\<exists>parsed. json_result rt fid parsed h1 = (r, h'))"
    using assms Inr
    by (auto simp: fetchWithRss2Json_def Let_def h0_def h1_def apiUrl_def
             split: fetched.splits body.splits if_splits)
  then have "extends_quietly h1 h'"
    by (auto dest: json_result_quiet)
  with q show ?thesis unfolding h0_def by (rule extends_quietly_trans)
qed

lemma fetchWithRss2Json_calls:
  assumes "fetchWithRss2Json rt url fid h = (r, h')"
  shows "fetchFeed_calls h' = fetchFeed_calls h \<and> fallback_calls h' = fallback_calls h @ [(url, fid)]"
proof -
  have "fetchFeed_calls h' = fetchFeed_calls (h @ [Call_fetchWithRss2Json url fid])"
    and "fallback_calls h' = fallback_calls (h @ [Call_fetchWithRss2Json url fid])"
    using fetchWithRss2Json_history [OF assms] by (simp_all add: extends_quietly_calls)
  then show ?thesis
    by (simp add: fetchFeed_calls_def fallback_calls_def)
qed

lemma fetchFeed_success:
  "direct_fetch rt url fid (h0 @ [Call_fetchFeed url fid]) = (Inr r, h1) \<Longrightarrow>
     fetchFeed rt url fid h0 = Some (Inr r, h1)"
  by (subst fetchFeed.simps) simp

lemma fetchFeed_plain_error:
  "direct_fetch rt url fid (h0 @ [Call_fetchFeed url fid]) = (Inl (Error m), h1) \<Longrightarrow>
     fetchFeed rt url fid h0 = Some (fetchWithRss2Json rt url fid h1)"
  by (subst fetchFeed.simps) simp

lemma fetchFeed_pending:
  "direct_fetch rt url fid (h0 @ [Call_fetchFeed url fid]) = (Inl NeverSettles, h1) \<Longrightarrow>
     fetchFeed rt url fid h0 = Some (Inl NeverSettles, h1)"
  by (subst fetchFeed.simps) simp

lemma fetchFeed_no_new_url:
  "direct_fetch rt url fid (h0 @ [Call_fetchFeed url fid]) = (Inl (FeedDiscoveryError m html ou), h1) \<Longrightarrow>
   \<not> truthy (getFeedUrlFromHtml rt html url) \<or> getFeedUrlFromHtml rt html url = Some url \<Longrightarrow>
     fetchFeed rt url fid h0 = Some (fetchWithRss2Json rt url fid h1)"
  by (subst fetchFeed.simps) auto

lemma fetchFeed_recurses:
  "direct_fetch rt url fid (h0 @ [Call_fetchFeed url fid]) = (Inl (FeedDiscoveryError m html ou), h1) \<Longrightarrow>
   getFeedUrlFromHtml rt html url = Some u \<Longrightarrow> u \<noteq> [] \<Longrightarrow> u \<noteq> url \<Longrightarrow>
     fetchFeed rt url fid h0 = fetchFeed rt u fid h1"
  by (subst fetchFeed.simps) (simp add: truthy_def the_default_def)

lemma parse_item_feedId: "parse_item rt fid item h = (a, h') \<Longrightarrow> feedId a = fid"
  by (auto simp: parse_item_def Let_def)

lemma parse_items_feedId:
  "parse_items rt fid items h = (as, h') \<Longrightarrow> \<forall>a \<in> set as. feedId a = fid"
proof (induction items arbitrary: h as h')
  case Nil
  then show ?case by simp
next
  case (Cons item items)
  obtain a h1 where a: "parse_item rt fid item h = (a, h1)" by (cases "parse_item rt fid item h")
  obtain as' h2 where b: "parse_items rt fid items h1 = (as', h2)" by (cases "parse_items rt fid items h1")
  have "feedId a = fid" using parse_item_feedId a by blast
  moreover have "\<forall>x \<in> set as'. feedId x = fid" using Cons.IH b by blast
  ultimately show ?case using a b Cons.prems by auto
qed

lemma parseXmlFeed_feedId:
  assumes "parseXmlFeed rt text fid url h = (Inr r, h')"
  shows "\<forall>a \<in> set (articles r). feedId a = fid"
proof -
  from assms obtain t tr where "parse_body rt t tr fid url h = (Inr r, h')"
    by (auto simp: parseXmlFeed_def Let_def split: if_splits prod.splits sum.splits)
  then obtain items as where "parse_items rt fid items h = (as, h')" and "articles r = as"
    by (auto simp: parse_body_def Let_def split: option.splits if_splits prod.splits)
  then show ?thesis using parse_items_feedId by blast
qed

lemma convert_items_feedId:
  "convert_items rt fid items h = (Inr as, h') \<Longrightarrow> \<forall>a \<in> set as. feedId a = fid"
proof (induction items arbitrary: h as h')
  case Nil
  then show ?case by simp
next
  case (Cons item items)
  obtain r1 h1 where a: "convert_item rt fid item h = (r1, h1)"
    by (cases "convert_item rt fid item h")
  obtain r2 h2 where b: "convert_items rt fid items h1 = (r2, h2)"
    by (cases "convert_items rt fid items h1")
  from Cons.prems a b obtain x xs where x: "r1 = Inr x" "r2 = Inr xs" "as = x # xs"
    by (cases r1; cases r2) auto
  have "feedId x = fid" using convert_item_feedId a x(1) by blast
  moreover have "\<forall>y \<in> set xs. feedId y = fid" using Cons.IH b x(2) by blast
  ultimately show ?case using x(3) by simp
qed

lemma json_result_feedId:
  assumes "json_result rt fid parsed h = (Inr r, h')"
  shows "\<forall>a \<in> set (articles r). feedId a = fid"
proof -
  from assms obtain items as where "convert_items rt fid items h = (Inr as, h')" and "articles r = as"
    by (auto simp: json_result_def split: sum.splits option.splits if_splits prod.splits)
  then show ?thesis using convert_items_feedId by blast
qed

lemma fetchWithRss2Json_feedId:
  assumes "fetchWithRss2Json rt url fid h = (Inr r, h')"
  shows "\<forall>a \<in> set (articles r). feedId a = fid"
proof -
  from assms obtain parsed h1 where "json_result rt fid parsed h1 = (Inr r, h')"
    by (auto simp: fetchWithRss2Json_def Let_def
             split: sum.splits fetched.splits body.splits if_splits)
  then show ?thesis by (rule json_result_feedId)
qed

lemma direct_fetch_feedId:
  assumes "direct_fetch rt url fid h = (Inr r, h')"
  shows "\<forall>a \<in> set (articles r). feedId a = fid"
  using assms
  by (auto simp: direct_fetch_def split: prod.splits sum.splits dest: parseXmlFeed_feedId)

lemma run_shape_fallback:
  assumes d: "direct_fetch rt url fid (h0 @ [Call_fetchFeed url fid]) = (e, h1)"
  shows "run_shape url fid h0 (fetchWithRss2Json rt url fid h1)"
proof -
  obtain r h' where f: "fetchWithRss2Json rt url fid h1 = (r, h')"
    by (cases "fetchWithRss2Json rt url fid h1")
  have q: "fetchFeed_calls h1 = fetchFeed_calls h0 @ [(url, fid)]" "fallback_calls h1 = fallback_calls h0"
    using extends_quietly_calls [OF direct_fetch_quiet [OF d]]
    by (simp_all add: fetchFeed_calls_def fallback_calls_def)
  have "fetchFeed_calls h' = fetchFeed_calls h0 @ [(url, fid)]"
    and "fallback_calls h' = fallback_calls h0 @ [(url, fid)]"
    using fetchWithRss2Json_calls [OF f] q by simp_all
  moreover have "\<forall>res. r = Inr res \<longrightarrow> (\<forall>a \<in> set (articles res). feedId a = fid)"
    using fetchWithRss2Json_feedId f by blast
  ultimately show ?thesis
    by (auto simp: run_shape_def f list_all_iff split: sum.splits)
qed

lemma run_shape_success:
  assumes d: "direct_fetch rt url fid (h0 @ [Call_fetchFeed url fid]) = (Inr r, h1)"
  shows "run_shape url fid h0 (Inr r, h1)"
proof -
  have q: "fetchFeed_calls h1 = fetchFeed_calls h0 @ [(url, fid)]" "fallback_calls h1 = fallback_calls h0"
    using extends_quietly_calls [OF direct_fetch_quiet [OF d]]
    by (simp_all add: fetchFeed_calls_def fallback_calls_def)
  then show ?thesis using direct_fetch_feedId [OF d] by (simp add: run_shape_def list_all_iff)
qed

lemma run_shape_failure:
  assumes d: "direct_fetch rt url fid (h0 @ [Call_fetchFeed url fid]) = (Inl e, h1)"
  shows "run_shape url fid h0 (Inl e, h1)"
proof -
  have q: "fetchFeed_calls h1 = fetchFeed_calls h0 @ [(url, fid)]" "fallback_calls h1 = fallback_calls h0"
    using extends_quietly_calls [OF direct_fetch_quiet [OF d]]
    by (simp_all add: fetchFeed_calls_def fallback_calls_def)
  then show ?thesis by (simp add: run_shape_def)
qed

lemma run_shape_step:
  assumes d: "direct_fetch rt url fid (h0 @ [Call_fetchFeed url fid]) = (e, h1)"
    and r: "run_shape u fid h1 y"
  shows "run_shape url fid h0 y"
proof -
  have q: "fetchFeed_calls h1 = fetchFeed_calls h0 @ [(url, fid)]" "fallback_calls h1 = fallback_calls h0"
    using extends_quietly_calls [OF direct_fetch_quiet [OF d]]
    by (simp_all add: fetchFeed_calls_def fallback_calls_def)
  from r obtain cs where cs: "fetchFeed_calls (snd y) = fetchFeed_calls h1 @ (u, fid) # cs"
      "list_all (\<lambda>c. snd c = fid) cs"
      "fallback_calls (snd y) = fallback_calls h1
        \<or> fallback_calls (snd y) = fallback_calls h1 @ [last ((u, fid) # cs)]"
    and a: "case fst y of Inr res \<Rightarrow> list_all (\<lambda>a. feedId a = fid) (articles res) | Inl e \<Rightarrow> True"
    unfolding run_shape_def by blast
  have "fetchFeed_calls (snd y) = fetchFeed_calls h0 @ (url, fid) # ((u, fid) # cs)"
    using cs(1) q by simp
  moreover have "list_all (\<lambda>c. snd c = fid) ((u, fid) # cs)" using cs(2) by simp
  moreover have "fallback_calls (snd y) = fallback_calls h0
        \<or> fallback_calls (snd y) = fallback_calls h0 @ [last ((url, fid) # (u, fid) # cs)]"
    using cs(3) q by simp
  ultimately show ?thesis using a unfolding run_shape_def by blast
qed

lemma fetchFeed_run_shape:
  assumes "fetchFeed rt url fid h0 = Some y"
  shows "run_shape url fid h0 y"
proof (rule fetchFeed.raw_induct
         [where P = "\<lambda>rt url fid h0 y. run_shape url fid h0 y", OF _ assms], goal_cases)
  case (1 fetchFeed' rt url fid h0 y)
  obtain e h1 where d: "direct_fetch rt url fid (h0 @ [Call_fetchFeed url fid]) = (e, h1)"
    by (cases "direct_fetch rt url fid (h0 @ [Call_fetchFeed url fid])")
  show ?case
  proof (cases e)
    case (Inr r)
    then show ?thesis using 1(2) d run_shape_success [of rt url fid h0 r h1] by simp
  next
    case (Inl err)
    show ?thesis
    proof (cases err)
      case (Error m)
      then show ?thesis using 1(2) d Inl run_shape_fallback [OF d] by auto
    next
      case NeverSettles
      then show ?thesis using 1(2) d Inl run_shape_failure [of rt url fid h0 err h1] by simp
    next
      case (FeedDiscoveryError m html ou)
      show ?thesis
      proof (cases "truthy (getFeedUrlFromHtml rt html url)
                    \<and> getFeedUrlFromHtml rt html url \<noteq> Some url")
        case True
        then have "fetchFeed' rt (the_default [] (getFeedUrlFromHtml rt html url)) fid h1 = Some y"
          using 1(2) d Inl FeedDiscoveryError by simp
        then have "run_shape (the_default [] (getFeedUrlFromHtml rt html url)) fid h1 y"
          by (rule 1(1))
        then show ?thesis by (rule run_shape_step [OF d])
      next
        case False
        then show ?thesis using 1(2) d Inl FeedDiscoveryError run_shape_fallback [OF d] by auto
      qed
    qed
  qed
qed

section \<open>The orchestrator\<close>

lemma direct_fetch_calls:
  assumes "direct_fetch rt url fid (h0 @ [Call_fetchFeed url fid]) = (e, h1)"
  shows "fetchFeed_calls h1 = fetchFeed_calls h0 @ [(url, fid)]"
    and "fallback_calls h1 = fallback_calls h0"
  using extends_quietly_calls [OF direct_fetch_quiet [OF assms]]
  by (simp_all add: fetchFeed_calls_def fallback_calls_def)

lemma truthy_Some: "truthy v \<Longrightarrow> \<exists>u. v = Some u \<and> u \<noteq> []"
  by (cases v) (simp_all add: truthy_def)

lemma fetchFeed_cases:
  assumes d: "direct_fetch rt url fid (h0 @ [Call_fetchFeed url fid]) = (e, h1)"
  shows "fetchFeed rt url fid h0 = Some (e, h1)
       \<or> (\<exists>err. e = Inl err \<and> fetchFeed rt url fid h0 = Some (fetchWithRss2Json rt url fid h1))
       \<or> (\<exists>m html ou u. e = Inl (FeedDiscoveryError m html ou)
             \<and> getFeedUrlFromHtml rt html url = Some u \<and> u \<noteq> [] \<and> u \<noteq> url
             \<and> fetchFeed rt url fid h0 = fetchFeed rt u fid h1)"
proof (cases e)
  case (Inr r)
  have "fetchFeed rt url fid h0 = Some (Inr r, h1)"
    using d unfolding Inr by (rule fetchFeed_success)
  then show ?thesis using Inr by simp
next
  case (Inl err)
  show ?thesis
  proof (cases err)
    case (Error m)
    have "fetchFeed rt url fid h0 = Some (fetchWithRss2Json rt url fid h1)"
      using d unfolding Inl Error by (rule fetchFeed_plain_error)
    then show ?thesis using Inl by simp
  next
    case NeverSettles
    have "fetchFeed rt url fid h0 = Some (Inl NeverSettles, h1)"
      using d unfolding Inl NeverSettles by (rule fetchFeed_pending)
    then show ?thesis using Inl NeverSettles by simp
  next
    case (FeedDiscoveryError m html ou)
    have d': "direct_fetch rt url fid (h0 @ [Call_fetchFeed url fid])
                = (Inl (FeedDiscoveryError m html ou), h1)"
      using d unfolding Inl FeedDiscoveryError .
    show ?thesis
    proof (cases "truthy (getFeedUrlFromHtml rt html url)
                  \<and> getFeedUrlFromHtml rt html url \<noteq> Some url")
      case True
      then obtain u where u: "getFeedUrlFromHtml rt html url = Some u" "u \<noteq> []"
        using truthy_Some [of "getFeedUrlFromHtml rt html url"] by auto
      have "u \<noteq> url" using True u by simp
      then have "fetchFeed rt url fid h0 = fetchFeed rt u fid h1"
        using fetchFeed_recurses [OF d' u] by simp
      then have "\<exists>m html ou u. e = Inl (FeedDiscoveryError m html ou)
             \<and> getFeedUrlFromHtml rt html url = Some u \<and> u \<noteq> [] \<and> u \<noteq> url
             \<and> fetchFeed rt url fid h0 = fetchFeed rt u fid h1"
        using u \<open>u \<noteq> url\<close> Inl FeedDiscoveryError by blast
      then show ?thesis by simp
    next
      case False
      then have "\<not> truthy (getFeedUrlFromHtml rt html url) \<or> getFeedUrlFromHtml rt html url = Some url"
        by blast
      from fetchFeed_no_new_url [OF d' this] show ?thesis
        using Inl by simp
    qed
  qed
qed

text \<open>
  Claim C2. When the direct chain fails with \<open>FeedDiscoveryError\<close> and discovery on the
  carried HTML finds no URL or the input URL again, \<open>fetchFeed\<close> ends as the fallback
  ends for the same URL (with its result, with its error, or pending with it), and the
  run records no call of \<open>fetchFeed\<close> besides its own and one call of the fallback. A
  run that ends and records a further call of \<open>fetchFeed\<close>
  had a direct chain that failed with \<open>FeedDiscoveryError\<close> and a discovered URL different
  from the input; it is the run of \<open>fetchFeed\<close> on that URL with the same \<open>feedId\<close>, and
  every call of \<open>fetchFeed\<close> it records carries that \<open>feedId\<close>.
\<close>
theorem fetchFeed_recursion_guard:
  "(direct_fetch rt url fid (h0 @ [Call_fetchFeed url fid])
        = (Inl (FeedDiscoveryError m html ou), h1)
      \<and> (getFeedUrlFromHtml rt html url = None \<or> getFeedUrlFromHtml rt html url = Some url)
    \<longrightarrow> fetchFeed rt url fid h0 = Some (fetchWithRss2Json rt url fid h1)
        \<and> fetchFeed_calls (snd (fetchWithRss2Json rt url fid h1)) = fetchFeed_calls h0 @ [(url, fid)]
        \<and> fallback_calls (snd (fetchWithRss2Json rt url fid h1)) = fallback_calls h0 @ [(url, fid)])
   \<and> (fetchFeed rt url fid h0 = Some (r, h')
        \<and> fetchFeed_calls h' \<noteq> fetchFeed_calls h0 @ [(url, fid)]
    \<longrightarrow> (\<exists>m html ou h1 u.
           direct_fetch rt url fid (h0 @ [Call_fetchFeed url fid])
             = (Inl (FeedDiscoveryError m html ou), h1)
           \<and> getFeedUrlFromHtml rt html url = Some u \<and> u \<noteq> url
           \<and> fetchFeed rt u fid h1 = Some (r, h'))
        \<and> list_all (\<lambda>c. snd c = fid) (drop (length (fetchFeed_calls h0)) (fetchFeed_calls h')))"
proof (intro conjI impI)
  assume a: "direct_fetch rt url fid (h0 @ [Call_fetchFeed url fid])
        = (Inl (FeedDiscoveryError m html ou), h1)
      \<and> (getFeedUrlFromHtml rt html url = None \<or> getFeedUrlFromHtml rt html url = Some url)"
  then have d: "direct_fetch rt url fid (h0 @ [Call_fetchFeed url fid])
        = (Inl (FeedDiscoveryError m html ou), h1)" by simp
  have n: "\<not> truthy (getFeedUrlFromHtml rt html url) \<or> getFeedUrlFromHtml rt html url = Some url"
    using a by (auto simp: truthy_def)
  show "fetchFeed rt url fid h0 = Some (fetchWithRss2Json rt url fid h1)"
    using fetchFeed_no_new_url [OF d n] .
  obtain r2 h2 where f: "fetchWithRss2Json rt url fid h1 = (r2, h2)"
    by (cases "fetchWithRss2Json rt url fid h1")
  show "fetchFeed_calls (snd (fetchWithRss2Json rt url fid h1)) = fetchFeed_calls h0 @ [(url, fid)]"
    using fetchWithRss2Json_calls [OF f] direct_fetch_calls [OF d] f by simp
  show "fallback_calls (snd (fetchWithRss2Json rt url fid h1)) = fallback_calls h0 @ [(url, fid)]"
    using fetchWithRss2Json_calls [OF f] direct_fetch_calls [OF d] f by simp
next
  assume a: "fetchFeed rt url fid h0 = Some (r, h')
        \<and> fetchFeed_calls h' \<noteq> fetchFeed_calls h0 @ [(url, fid)]"
  obtain e h1 where d: "direct_fetch rt url fid (h0 @ [Call_fetchFeed url fid]) = (e, h1)"
    by (cases "direct_fetch rt url fid (h0 @ [Call_fetchFeed url fid])")
  have c1: "fetchFeed_calls h1 = fetchFeed_calls h0 @ [(url, fid)]"
    using direct_fetch_calls [OF d] by simp
  have c2: "fetchFeed_calls (snd (fetchWithRss2Json rt url fid h1)) = fetchFeed_calls h0 @ [(url, fid)]"
    using fetchWithRss2Json_calls [of rt url fid h1] c1
    by (cases "fetchWithRss2Json rt url fid h1") simp
  have na: "fetchFeed rt url fid h0 \<noteq> Some (e, h1)"
    using a c1 by auto
  have nb: "fetchFeed rt url fid h0 \<noteq> Some (fetchWithRss2Json rt url fid h1)"
  proof
    assume "fetchFeed rt url fid h0 = Some (fetchWithRss2Json rt url fid h1)"
    then have "h' = snd (fetchWithRss2Json rt url fid h1)" using a by (metis option.inject snd_conv)
    then show False using a c2 by simp
  qed
  from fetchFeed_cases [OF d] na nb
  have "\<exists>m html ou u. e = Inl (FeedDiscoveryError m html ou)
             \<and> getFeedUrlFromHtml rt html url = Some u \<and> u \<noteq> [] \<and> u \<noteq> url
             \<and> fetchFeed rt url fid h0 = fetchFeed rt u fid h1"
    by blast
  then obtain m' html' ou' u' where x: "e = Inl (FeedDiscoveryError m' html' ou')"
      "getFeedUrlFromHtml rt html' url = Some u'" "u' \<noteq> url"
      "fetchFeed rt url fid h0 = fetchFeed rt u' fid h1"
    by blast
  have "fetchFeed rt u' fid h1 = Some (r, h')" using x(4) a by simp
  with x d show "\<exists>m html ou h1 u.
           direct_fetch rt url fid (h0 @ [Call_fetchFeed url fid])
             = (Inl (FeedDiscoveryError m html ou), h1)
           \<and> getFeedUrlFromHtml rt html url = Some u \<and> u \<noteq> url
           \<and> fetchFeed rt u fid h1 = Some (r, h')"
    by blast
next
  assume a: "fetchFeed rt url fid h0 = Some (r, h')
        \<and> fetchFeed_calls h' \<noteq> fetchFeed_calls h0 @ [(url, fid)]"
  then have "run_shape url fid h0 (r, h')" using fetchFeed_run_shape by blast
  then obtain cs where "fetchFeed_calls h' = fetchFeed_calls h0 @ (url, fid) # cs"
    and "list_all (\<lambda>c. snd c = fid) cs"
    unfolding run_shape_def by auto
  then show "list_all (\<lambda>c. snd c = fid) (drop (length (fetchFeed_calls h0)) (fetchFeed_calls h'))"
    by simp
qed

text \<open>
  Claim C3. When the direct chain (relays, then normalizer) fails with an error that is
  not a \<open>FeedDiscoveryError\<close>, \<open>fetchFeed\<close> ends as \<open>fetchWithRss2Json\<close> ends for the
  same URL and \<open>feedId\<close>: the fallback is entered exactly once, \<open>fetchFeed\<close> is not entered
  again, and when the fallback fails, its error is the error of \<open>fetchFeed\<close>.
\<close>
theorem fetchFeed_fallback_once:
  assumes "direct_fetch rt url fid (h0 @ [Call_fetchFeed url fid]) = (Inl (Error m), h1)"
  shows "fetchFeed rt url fid h0 = Some (fetchWithRss2Json rt url fid h1)
       \<and> fallback_calls (snd (fetchWithRss2Json rt url fid h1)) = fallback_calls h0 @ [(url, fid)]
       \<and> fetchFeed_calls (snd (fetchWithRss2Json rt url fid h1)) = fetchFeed_calls h0 @ [(url, fid)]
       \<and> (\<forall>e h2. fetchWithRss2Json rt url fid h1 = (Inl e, h2)
              \<longrightarrow> fetchFeed rt url fid h0 = Some (Inl e, h2))"
proof -
  have a: "fetchFeed rt url fid h0 = Some (fetchWithRss2Json rt url fid h1)"
    using fetchFeed_plain_error [OF assms] .
  obtain r2 h2 where f: "fetchWithRss2Json rt url fid h1 = (r2, h2)"
    by (cases "fetchWithRss2Json rt url fid h1")
  have "fallback_calls h2 = fallback_calls h0 @ [(url, fid)]"
    and "fetchFeed_calls h2 = fetchFeed_calls h0 @ [(url, fid)]"
    using fetchWithRss2Json_calls [OF f] direct_fetch_calls [OF assms] by simp_all
  then show ?thesis using a f by simp
qed

text \<open>
  Claim C9, amended. When the direct chain fails with \<open>FeedDiscoveryError\<close> and discovery
  yields a URL different from the input, the rest of the run is the run of \<open>fetchFeed\<close> on
  the discovered URL with the same \<open>feedId\<close>; when the direct chain of that call fails
  with a plain error, or with \<open>FeedDiscoveryError\<close> and no new URL, the fallback is entered
  with the discovered URL; and the input URL
  reaches the fallback only if \<open>fetchFeed\<close> was entered with it again, after a later
  discovery led back to it.
\<close>
theorem fetchFeed_discovered_url:
  assumes d: "direct_fetch rt url fid (h0 @ [Call_fetchFeed url fid])
                = (Inl (FeedDiscoveryError m html ou), h1)"
    and u: "getFeedUrlFromHtml rt html url = Some u" "u \<noteq> []" "u \<noteq> url"
  shows "fetchFeed rt url fid h0 = fetchFeed rt u fid h1
       \<and> (\<forall>e h2. direct_fetch rt u fid (h1 @ [Call_fetchFeed u fid]) = (Inl (Error e), h2)
              \<longrightarrow> fetchFeed rt url fid h0 = Some (fetchWithRss2Json rt u fid h2)
                  \<and> fallback_calls (snd (fetchWithRss2Json rt u fid h2)) = fallback_calls h0 @ [(u, fid)])
       \<and> (\<forall>m2 html2 ou2 h2.
              direct_fetch rt u fid (h1 @ [Call_fetchFeed u fid])
                = (Inl (FeedDiscoveryError m2 html2 ou2), h2)
              \<and> (getFeedUrlFromHtml rt html2 u = None \<or> getFeedUrlFromHtml rt html2 u = Some u)
              \<longrightarrow> fetchFeed rt url fid h0 = Some (fetchWithRss2Json rt u fid h2))
       \<and> (\<forall>r h'. fetchFeed rt url fid h0 = Some (r, h')
              \<and> (url, fid) \<in> set (drop (length (fallback_calls h0)) (fallback_calls h'))
              \<longrightarrow> (url, fid) \<in> set (drop (Suc (length (fetchFeed_calls h0))) (fetchFeed_calls h')))"
proof (intro conjI allI impI)
  show eq: "fetchFeed rt url fid h0 = fetchFeed rt u fid h1"
    using fetchFeed_recurses [OF d u] .
  {
    fix e h2
    assume d2: "direct_fetch rt u fid (h1 @ [Call_fetchFeed u fid]) = (Inl (Error e), h2)"
    show "fetchFeed rt url fid h0 = Some (fetchWithRss2Json rt u fid h2)"
      using eq fetchFeed_plain_error [OF d2] by simp
    obtain r3 h3 where f: "fetchWithRss2Json rt u fid h2 = (r3, h3)"
      by (cases "fetchWithRss2Json rt u fid h2")
    show "fallback_calls (snd (fetchWithRss2Json rt u fid h2)) = fallback_calls h0 @ [(u, fid)]"
      using fetchWithRss2Json_calls [OF f] direct_fetch_calls [OF d2] direct_fetch_calls [OF d] f
      by simp
  }
  {
    fix m2 html2 ou2 h2
    assume a: "direct_fetch rt u fid (h1 @ [Call_fetchFeed u fid])
                = (Inl (FeedDiscoveryError m2 html2 ou2), h2)
              \<and> (getFeedUrlFromHtml rt html2 u = None \<or> getFeedUrlFromHtml rt html2 u = Some u)"
    then have "\<not> truthy (getFeedUrlFromHtml rt html2 u) \<or> getFeedUrlFromHtml rt html2 u = Some u"
      by (auto simp: truthy_def)
    from fetchFeed_no_new_url [OF conjunct1 [OF a] this]
    show "fetchFeed rt url fid h0 = Some (fetchWithRss2Json rt u fid h2)"
      using eq by simp
  }
  {
    fix r h'
    assume a: "fetchFeed rt url fid h0 = Some (r, h')
              \<and> (url, fid) \<in> set (drop (length (fallback_calls h0)) (fallback_calls h'))"
    then have "fetchFeed rt u fid h1 = Some (r, h')" using eq by simp
    then have "run_shape u fid h1 (r, h')" by (rule fetchFeed_run_shape)
    then obtain cs where cs: "fetchFeed_calls h' = fetchFeed_calls h1 @ (u, fid) # cs"
      "fallback_calls h' = fallback_calls h1
        \<or> fallback_calls h' = fallback_calls h1 @ [last ((u, fid) # cs)]"
      unfolding run_shape_def by auto
    have "(url, fid) = last ((u, fid) # cs)"
      using cs(2) a direct_fetch_calls [OF d] by auto
    then have "(url, fid) \<in> set ((u, fid) # cs)"
      by (metis last_in_set list.distinct(1))
    then show "(url, fid) \<in> set (drop (Suc (length (fetchFeed_calls h0))) (fetchFeed_calls h'))"
      using cs(1) direct_fetch_calls [OF d] by simp
  }
qed

text \<open>
  Claim C10. Every article of a result of \<open>parseXmlFeed\<close>, of \<open>fetchWithRss2Json\<close> and of
  \<open>fetchFeed\<close> carries the \<open>feedId\<close> the caller supplied.
\<close>
theorem feedId_stamped:
  "(parseXmlFeed rt text fid url h = (Inr r, h') \<longrightarrow> list_all (\<lambda>a. feedId a = fid) (articles r))
   \<and> (fetchWithRss2Json rt url fid h = (Inr r, h') \<longrightarrow> list_all (\<lambda>a. feedId a = fid) (articles r))
   \<and> (fetchFeed rt url fid h = Some (Inr r, h') \<longrightarrow> list_all (\<lambda>a. feedId a = fid) (articles r))"
proof (intro conjI impI)
  assume "parseXmlFeed rt text fid url h = (Inr r, h')"
  then show "list_all (\<lambda>a. feedId a = fid) (articles r)"
    using parseXmlFeed_feedId by (simp add: list_all_iff)
next
  assume "fetchWithRss2Json rt url fid h = (Inr r, h')"
  then show "list_all (\<lambda>a. feedId a = fid) (articles r)"
    using fetchWithRss2Json_feedId by (simp add: list_all_iff)
next
  assume "fetchFeed rt url fid h = Some (Inr r, h')"
  then have "run_shape url fid h (Inr r, h')" by (rule fetchFeed_run_shape)
  then show "list_all (\<lambda>a. feedId a = fid) (articles r)"
    by (simp add: run_shape_def)
qed

lemmas encoder_defs = unreserved_def hex_digit_def percent_def utf8_def

lemma fallback_relays:
  "fst (fetchRawText fallback_runtime url h) = Inl (Error (js ''Failed to fetch''))"
  by (simp add: fetchRawText_def PROXIES_def attempt_def fetch_def expired_def TIMEOUT_MS_def
        fallback_runtime_def sample_runtime_def Let_def startsWith_def js_def split: option.split)

lemma fallback_direct:
  "fst (direct_fetch fallback_runtime url fid h) = Inl (Error (js ''Failed to fetch''))"
  using fallback_relays [of url h]
  by (cases "fetchRawText fallback_runtime url h") (simp add: direct_fetch_def)

lemma fallback_busy:
  "fst (fetchWithRss2Json fallback_runtime PAGE_A_URL fid h)
     = Inl (Error (js ''RSS2JSON failed with status 500''))"
  by (simp add: fetchWithRss2Json_def fetch_def expired_def fallback_runtime_def sample_runtime_def
        Let_def encoder_defs PAGE_A_URL_def js_def startsWith_def response_ok_def show_nat.simps)

text \<open>
  Every relay request fails with a network error; the fallback is entered once, and its
  error, the status of the conversion service, is the error of \<open>fetchFeed\<close>.
\<close>

theorem fetchFeed_fallback_once_witness:
  "fst (direct_fetch fallback_runtime PAGE_A_URL FID ([] @ [Call_fetchFeed PAGE_A_URL FID]))
     = Inl (Error (js ''Failed to fetch''))
   \<and> fetchFeed fallback_runtime PAGE_A_URL FID []
     = Some (fetchWithRss2Json fallback_runtime PAGE_A_URL FID
              (snd (direct_fetch fallback_runtime PAGE_A_URL FID ([] @ [Call_fetchFeed PAGE_A_URL FID]))))
   \<and> fallback_calls (snd (fetchWithRss2Json fallback_runtime PAGE_A_URL FID
              (snd (direct_fetch fallback_runtime PAGE_A_URL FID ([] @ [Call_fetchFeed PAGE_A_URL FID])))))
     = [(PAGE_A_URL, FID)]
   \<and> map_option fst (fetchFeed fallback_runtime PAGE_A_URL FID [])
     = Some (Inl (Error (js ''RSS2JSON failed with status 500'')))"
proof -
  define X where "X = direct_fetch fallback_runtime PAGE_A_URL FID ([] @ [Call_fetchFeed PAGE_A_URL FID])"
  have c0: "fst X = Inl (Error (js ''Failed to fetch''))"
    unfolding X_def by (rule fallback_direct)
  have d: "direct_fetch fallback_runtime PAGE_A_URL FID ([] @ [Call_fetchFeed PAGE_A_URL FID])
             = (Inl (Error (js ''Failed to fetch'')), snd X)"
    using c0 unfolding X_def by (simp add: prod_eq_iff)
  note T = fetchFeed_fallback_once [OF d]
  have c1: "fetchFeed fallback_runtime PAGE_A_URL FID []
              = Some (fetchWithRss2Json fallback_runtime PAGE_A_URL FID (snd X))"
    using T by blast
  have c2: "fallback_calls (snd (fetchWithRss2Json fallback_runtime PAGE_A_URL FID (snd X)))
              = [(PAGE_A_URL, FID)]"
    using T by (simp add: fallback_calls_def)
  have c3: "map_option fst (fetchFeed fallback_runtime PAGE_A_URL FID [])
              = Some (Inl (Error (js ''RSS2JSON failed with status 500'')))"
    unfolding c1 by (simp add: fallback_busy)
  show ?thesis
    using c0 c1 c2 c3 unfolding X_def by blast
qed

section \<open>The transport layer\<close>



















section \<open>Merging by link\<close>

lemma map_set_keys:
  "map fst (map_set m k v) = (if k \<in> set (map fst m) then map fst m else map fst m @ [k])"
proof (induction m)
  case Nil
  then show ?case by simp
next
  case (Cons p m)
  obtain k' v' where p: "p = (k', v')" by (cases p)
  show ?case
  proof (cases "k' = k")
    case True
    then show ?thesis using p by simp
  next
    case False
    then show ?thesis using p Cons.IH by (cases "k \<in> set (map fst m)") simp_all
  qed
qed

lemma map_set_distinct: "distinct (map fst m) \<Longrightarrow> distinct (map fst (map_set m k v))"
  by (simp add: map_set_keys)

lemma map_of_map_set: "map_of (map_set m k v) = (map_of m)(k \<mapsto> v)"
  by (induction m) (auto simp: fun_eq_iff)

lemma map_set_entries: "set (map_set m k v) \<subseteq> insert (k, v) (set m)"
proof (induction m)
  case Nil
  then show ?case by simp
next
  case (Cons p m)
  obtain k' v' where p: "p = (k', v')" by (cases p)
  show ?case using Cons.IH unfolding p by (cases "k' = k") auto
qed

lemma foldl_map_set_distinct:
  "distinct (map fst m) \<Longrightarrow> distinct (map fst (foldl (\<lambda>m (k, v). map_set m k v) m es))"
  by (induction es arbitrary: m) (auto simp: map_set_distinct)

lemma foldl_map_set_keys:
  "set (map fst (foldl (\<lambda>m (k, v). map_set m k v) m es)) = set (map fst m) \<union> set (map fst es)"
proof (induction es arbitrary: m)
  case Nil
  then show ?case by simp
next
  case (Cons e es)
  obtain k v where e: "e = (k, v)" by (cases e)
  have "set (map fst (map_set m k v)) = insert k (set (map fst m))"
    by (simp only: map_set_keys) auto
  then show ?case using Cons.IH [of "map_set m k v"] unfolding e by simp
qed

lemma foldl_map_set_map_of:
  "map_of (foldl (\<lambda>m (k, v). map_set m k v) m es) = map_of m ++ map_of (rev es)"
  by (induction es arbitrary: m) (auto simp: map_of_map_set fun_eq_iff map_add_def split: option.splits)

lemma foldl_map_set_entries:
  "set (foldl (\<lambda>m (k, v). map_set m k v) m es) \<subseteq> set m \<union> set es"
proof (induction es arbitrary: m)
  case Nil
  then show ?case by simp
next
  case (Cons e es)
  obtain k v where e: "e = (k, v)" by (cases e)
  have "set (foldl (\<lambda>m (k, v). map_set m k v) (map_set m k v) es) \<subseteq> set (map_set m k v) \<union> set es"
    by (rule Cons.IH)
  then show ?case using map_set_entries [of m k v] e by auto
qed

lemma new_Map_distinct: "distinct (map fst (new_Map es))"
  unfolding new_Map_def by (rule foldl_map_set_distinct) simp

lemma new_Map_keys: "set (map fst (new_Map es)) = set (map fst es)"
  unfolding new_Map_def by (simp only: foldl_map_set_keys) simp

lemma new_Map_map_of: "map_of (new_Map es) = map_of (rev es)"
  unfolding new_Map_def by (simp add: foldl_map_set_map_of)

lemma new_Map_entries: "set (new_Map es) \<subseteq> set es"
  unfolding new_Map_def using foldl_map_set_entries [of "[]" es] by simp

lemma map_of_rev_keyed:
  "map_of (rev (map (\<lambda>a. (f a, a)) xs)) k =
     (if filter (\<lambda>x. f x = k) xs = [] then None else Some (last (filter (\<lambda>x. f x = k) xs)))"
  by (induction xs rule: rev_induct) auto

lemma unique_by_link_links:
  "map link (unique_by_link xs) = map fst (new_Map (map (\<lambda>item. (link item, item)) xs))"
proof -
  have "\<forall>p \<in> set (new_Map (map (\<lambda>item. (link item, item)) xs)). link (snd p) = fst p"
    using new_Map_entries [of "map (\<lambda>item. (link item, item)) xs"] by auto
  then show ?thesis by (simp add: unique_by_link_def map_values_def)
qed

lemma unique_by_link_distinct: "distinct (map link (unique_by_link xs))"
  by (simp add: unique_by_link_links new_Map_distinct)

lemma unique_by_link_set: "set (map link (unique_by_link xs)) = set (map link xs)"
  by (simp only: unique_by_link_links new_Map_keys) (simp add: comp_def)

lemma unique_by_link_last:
  assumes "a \<in> set (unique_by_link xs)"
  shows "a = last (filter (\<lambda>x. link x = link a) xs)"
proof -
  let ?es = "map (\<lambda>item. (link item, item)) xs"
  from assms obtain k where m: "(k, a) \<in> set (new_Map ?es)"
    by (auto simp: unique_by_link_def map_values_def)
  then have k: "k = link a" using new_Map_entries [of ?es] by auto
  have "map_of (new_Map ?es) k = Some a"
    using m new_Map_distinct [of ?es] by simp
  then have "map_of (rev ?es) (link a) = Some a" by (simp add: new_Map_map_of k)
  then show ?thesis by (simp add: map_of_rev_keyed split: if_splits)
qed

lemma filter_distinct_links:
  "distinct (map link xs) \<Longrightarrow> distinct (map link (filter P xs))"
  by (simp add: distinct_map_filter)

lemma apply_operation_distinct:
  "distinct (map link (stored s)) \<Longrightarrow> distinct (map link (stored (apply_operation s op)))"
proof (cases op)
  case (RefreshFeeds results notificationThrows)
  assume "distinct (map link (stored s))"
  then show ?thesis using RefreshFeeds
    by (simp add: refreshFeeds_def unique_by_link_distinct split: prod.splits)
next
  case (AddFeed url newId outcome)
  assume "distinct (map link (stored s))"
  then show ?thesis using AddFeed
    by (cases outcome) (simp_all add: addFeed_def unique_by_link_distinct)
next
  case (RemoveFeed fid)
  assume "distinct (map link (stored s))"
  then show ?thesis using RemoveFeed
    by (simp add: removeFeed_def distinct_map_filter)
qed

lemma foldl_apply_operation_distinct:
  "distinct (map link (stored s)) \<Longrightarrow> distinct (map link (stored (foldl apply_operation s ops)))"
  by (induction ops arbitrary: s) (simp_all add: apply_operation_distinct)

lemma collect_results_articles:
  "snd (collect_results zs fs acc) =
     acc @ concat (map (\<lambda>(f, r). case r of Fulfilled v \<Rightarrow> articles v | Failed e \<Rightarrow> []) zs)"
  by (induction zs fs acc rule: collect_results.induct) simp_all

lemma unique_by_link_newest:
  assumes "a \<in> set (unique_by_link (old @ new))" and "link a \<in> set (map link new)"
  shows "a \<in> set new"
proof -
  have ne: "filter (\<lambda>x. link x = link a) new \<noteq> []"
    using assms(2) by (auto simp: filter_empty_conv)
  have "a = last (filter (\<lambda>x. link x = link a) (old @ new))"
    using assms(1) by (rule unique_by_link_last)
  then have "a = last (filter (\<lambda>x. link x = link a) new)" using ne by simp
  then have "a \<in> set (filter (\<lambda>x. link x = link a) new)" using ne last_in_set by metis
  then show ?thesis by simp
qed

text \<open>
  Claim C5. After any sequence of the operations that update the article state
  (\<open>refreshFeeds\<close>, \<open>addFeed\<close>, \<open>removeFeed\<close>) the stored articles have pairwise distinct
  links. \<open>refreshFeeds\<close>, when it reaches \<open>setArticles\<close>, stores the merge of the fetched
  lists in feed order and \<open>addFeed\<close>
  the merge of the stored list followed by the fetched one; a merge has exactly the links
  of its input, each once, and keeps for each link the last article of the input with that
  link, so that in \<open>addFeed\<close> a fetched article replaces a stored one with the same link.
\<close>

theorem merge_keeps_one_article_per_link:
  "distinct (map link (stored (run_operations initialFeeds ops)))
   \<and> (length (feeds s) \<noteq> 0 \<longrightarrow>
        stored (refreshFeeds s results False)
          = unique_by_link (concat (map (\<lambda>(f, r). case r of Fulfilled v \<Rightarrow> articles v
                                                      | Failed e \<Rightarrow> [])
                                        (zip (feeds s) results))))
   \<and> (\<not> list_ex (\<lambda>f. strip_trailing_slash (feed_url f) = strip_trailing_slash url) (feeds s) \<longrightarrow>
        stored (addFeed s url newId (Fulfilled v)) = unique_by_link (stored s @ articles v)
        \<and> list_all (\<lambda>a. link a \<in> set (map link (articles v)) \<longrightarrow> a \<in> set (articles v))
                    (stored (addFeed s url newId (Fulfilled v))))
   \<and> distinct (map link (unique_by_link xs))
   \<and> set (map link (unique_by_link xs)) = set (map link xs)
   \<and> list_all (\<lambda>a. a = last (filter (\<lambda>x. link x = link a) xs)) (unique_by_link xs)"
proof (intro conjI impI)
  show "distinct (map link (stored (run_operations initialFeeds ops)))"
    unfolding run_operations_def by (rule foldl_apply_operation_distinct) simp
next
  assume "length (feeds s) \<noteq> 0"
  then show "stored (refreshFeeds s results False)
          = unique_by_link (concat (map (\<lambda>(f, r). case r of Fulfilled v \<Rightarrow> articles v
                                                      | Failed e \<Rightarrow> [])
                                        (zip (feeds s) results)))"
    using collect_results_articles [of "zip (feeds s) results" "feeds s" "[]"]
    by (cases "collect_results (zip (feeds s) results) (feeds s) []")
       (simp add: refreshFeeds_def)
next
  assume a: "\<not> list_ex (\<lambda>f. strip_trailing_slash (feed_url f) = strip_trailing_slash url) (feeds s)"
  then show e: "stored (addFeed s url newId (Fulfilled v)) = unique_by_link (stored s @ articles v)"
    by (simp add: addFeed_def)
  show "list_all (\<lambda>a. link a \<in> set (map link (articles v)) \<longrightarrow> a \<in> set (articles v))
                    (stored (addFeed s url newId (Fulfilled v)))"
    unfolding e list_all_iff using unique_by_link_newest by blast
next
  show "distinct (map link (unique_by_link xs))" by (rule unique_by_link_distinct)
next
  show "set (map link (unique_by_link xs)) = set (map link xs)" by (rule unique_by_link_set)
next
  show "list_all (\<lambda>a. a = last (filter (\<lambda>x. link x = link a) xs)) (unique_by_link xs)"
    unfolding list_all_iff using unique_by_link_last by blast
qed

lemma sample_merge: "unique_by_link ([ART_OLD, ART_OTHER] @ [ART_NEW]) = [ART_NEW, ART_OTHER]"
  by (simp add: unique_by_link_def new_Map_def map_values_def ART_OLD_def ART_OTHER_def ART_NEW_def js_def)

theorem merge_keeps_one_article_per_link_witness:
  "stored (addFeed \<lparr>feeds = [], stored = [ART_OLD, ART_OTHER]\<rparr> (js ''https://y/feed'') (js ''feed-2'')
             (Fulfilled \<lparr>result_title = js ''Y'', articles = [ART_NEW]\<rparr>))
     = [ART_NEW, ART_OTHER]
   \<and> map link [ART_NEW, ART_OTHER] = [js ''https://x/a'', js ''https://x/b'']
   \<and> stored (refreshFeeds
        \<lparr>feeds = [\<lparr>feed_id = js ''feed-1'', feed_url = js ''https://x/feed'', feed_title = js ''X'',
                    feed_icon = None\<rparr>,
                  \<lparr>feed_id = js ''feed-2'', feed_url = js ''https://y/feed'', feed_title = js ''Y'',
                    feed_icon = None\<rparr>],
          stored = []\<rparr>
        [Fulfilled \<lparr>result_title = js ''X'', articles = [ART_OLD, ART_OTHER]\<rparr>,
         Fulfilled \<lparr>result_title = js ''Y'', articles = [ART_NEW]\<rparr>]
        False)
     = [ART_NEW, ART_OTHER]"
  using merge_keeps_one_article_per_link
          [of "[]" "[]" "\<lparr>feeds = [], stored = [ART_OLD, ART_OTHER]\<rparr>" "[]" "js ''https://y/feed''"
              "js ''feed-2''" "\<lparr>result_title = js ''Y'', articles = [ART_NEW]\<rparr>" "[]"]
        merge_keeps_one_article_per_link
          [of "[]" "[]" "\<lparr>feeds = [\<lparr>feed_id = js ''feed-1'', feed_url = js ''https://x/feed'', feed_title = js ''X'',
                    feed_icon = None\<rparr>,
                  \<lparr>feed_id = js ''feed-2'', feed_url = js ''https://y/feed'', feed_title = js ''Y'',
                    feed_icon = None\<rparr>],
          stored = []\<rparr>"
             "[Fulfilled \<lparr>result_title = js ''X'', articles = [ART_OLD, ART_OTHER]\<rparr>,
         Fulfilled \<lparr>result_title = js ''Y'', articles = [ART_NEW]\<rparr>]"]
        sample_merge
  by (simp add: ART_OLD_def ART_OTHER_def ART_NEW_def)

section \<open>The format normalizer\<close>

lemma parse_items_items:
  "parse_items rt fid items h = (as, h') \<Longrightarrow>
     list_all2 (\<lambda>item a. \<exists>hi. a = fst (parse_item rt fid item hi)) items as"
proof (induction items arbitrary: h as h')
  case Nil
  then show ?case by simp
next
  case (Cons item items)
  obtain a h1 where a: "parse_item rt fid item h = (a, h1)" by (cases "parse_item rt fid item h")
  obtain as' h2 where b: "parse_items rt fid items h1 = (as', h2)"
    by (cases "parse_items rt fid items h1")
  have "list_all2 (\<lambda>item a. \<exists>hi. a = fst (parse_item rt fid item hi)) items as'"
    using Cons.IH [OF b] .
  moreover have "\<exists>hi. a = fst (parse_item rt fid item hi)"
    using a by (metis fst_conv)
  ultimately show ?case using a b Cons.prems by auto
qed

lemma parseXmlFeed_success:
  assumes "parseXmlFeed rt text0 fid url h = (Inr r, h')"
  shows "parse_items rt fid (feed_items rt text0) h = (articles r, h')"
proof -
  from assms have "parse_body rt (stripBOM text0) (trim (stripBOM text0)) fid url h = (Inr r, h')"
    by (auto simp: parseXmlFeed_def Let_def split: if_splits prod.splits sum.splits)
  then show ?thesis
    by (auto simp: parse_body_def Let_def feed_items_def split: option.splits if_splits prod.splits)
qed

lemma parseXmlFeed_items:
  assumes "parseXmlFeed rt text0 fid url h = (Inr r, h')"
  shows "list_all2 (\<lambda>item a. \<exists>hi. a = fst (parse_item rt fid item hi))
           (feed_items rt text0) (articles r)"
  using parse_items_items [OF parseXmlFeed_success [OF assms]] .

lemma parse_item_snippet:
  "contentSnippet (fst (parse_item rt fid item h))
     = make_snippet (parseHtml rt (content (fst (parse_item rt fid item h))))"
  by (simp add: parse_item_def Let_def)

lemma parse_item_thumbnail:
  "thumbnail (fst (parse_item rt fid item h))
     = extract_thumbnail item (parseHtml rt (content (fst (parse_item rt fid item h))))"
  by (simp add: parse_item_def Let_def)

lemma trim_length: "length (trim s) \<le> length s"
proof -
  have "length (trim s) \<le> length (dropWhile is_js_whitespace s)"
    unfolding trim_def using length_dropWhile_le [of is_js_whitespace "rev (dropWhile is_js_whitespace s)"]
    by simp
  also have "\<dots> \<le> length s" by (rule length_dropWhile_le)
  finally show ?thesis .
qed

lemma trim_embedded: "\<exists>a c. s = a @ trim s @ c"
proof -
  let ?d = "dropWhile is_js_whitespace s"
  have "rev ?d = takeWhile is_js_whitespace (rev ?d) @ dropWhile is_js_whitespace (rev ?d)"
    by simp
  then have "?d = rev (dropWhile is_js_whitespace (rev ?d)) @ rev (takeWhile is_js_whitespace (rev ?d))"
    by (metis rev_append rev_rev_ident)
  then have "?d = trim s @ rev (takeWhile is_js_whitespace (rev ?d))"
    by (simp add: trim_def)
  moreover have "s = takeWhile is_js_whitespace s @ ?d" by simp
  ultimately have "s = takeWhile is_js_whitespace s @ trim s @ rev (takeWhile is_js_whitespace (rev ?d))"
    by simp
  then show ?thesis by blast
qed

lemma has_tag_iff: "has_tag s \<longleftrightarrow> (\<exists>a b c. s = a @ LT # b @ GT # c)"
proof (induction s)
  case Nil
  then show ?case by simp
next
  case (Cons x s)
  show ?case
  proof
    assume "has_tag (x # s)"
    then consider "x = LT" "GT \<in> set s" | "has_tag s" by auto
    then show "\<exists>a b c. x # s = a @ LT # b @ GT # c"
    proof cases
      case 1
      then obtain b c where "s = b @ GT # c" by (meson split_list)
      then have "x # s = [] @ LT # b @ GT # c" using 1 by simp
      then show ?thesis by blast
    next
      case 2
      then obtain a b c where "s = a @ LT # b @ GT # c" using Cons.IH by blast
      then have "x # s = (x # a) @ LT # b @ GT # c" by simp
      then show ?thesis by blast
    qed
  next
    assume "\<exists>a b c. x # s = a @ LT # b @ GT # c"
    then obtain a b c where e: "x # s = a @ LT # b @ GT # c" by blast
    show "has_tag (x # s)"
    proof (cases a)
      case Nil
      then show ?thesis using e by auto
    next
      case (Cons y a')
      then have "s = a' @ LT # b @ GT # c" using e by simp
      then have "has_tag s" using Cons.IH by blast
      then show ?thesis by simp
    qed
  qed
qed

lemma has_tag_embedded: "has_tag s \<Longrightarrow> has_tag (p @ s @ q)"
proof -
  assume "has_tag s"
  then obtain a b c where "s = a @ LT # b @ GT # c" using has_tag_iff by blast
  then have "p @ s @ q = (p @ a) @ LT # b @ GT # (c @ q)" by simp
  then show ?thesis using has_tag_iff by blast
qed

lemma has_tag_dots: "has_tag (s @ js ''...'') \<Longrightarrow> has_tag s"
  by (induction s) (auto simp: js_def LT_def GT_def)

lemma make_snippet_eq:
  "make_snippet doc =
     trim (take 300 (body_textContent doc))
     @ (if length (body_textContent doc) > 300 then js ''...'' else [])"
  by (auto simp: make_snippet_def or_else_def)

lemma make_snippet_length: "length (make_snippet doc) \<le> 303"
proof -
  define x where "x = trim (take 300 (body_textContent doc))"
  have "length x \<le> length (take 300 (body_textContent doc))"
    unfolding x_def by (rule trim_length)
  then have lx: "length x \<le> 300" by simp
  have "make_snippet doc = x @ (if length (body_textContent doc) > 300 then js ''...'' else [])"
    unfolding x_def by (rule make_snippet_eq)
  then show ?thesis using lx by (simp add: js_def)
qed

lemma make_snippet_tag:
  assumes "has_tag (make_snippet doc)"
  shows "has_tag (body_textContent doc)"
proof -
  let ?t = "body_textContent doc"
  have "has_tag (trim (take 300 ?t))"
    using assms has_tag_dots by (auto simp: make_snippet_eq split: if_splits)
  moreover obtain a c where "take 300 ?t = a @ trim (take 300 ?t) @ c"
    using trim_embedded by blast
  ultimately have "has_tag (take 300 ?t)" using has_tag_embedded by metis
  then have "has_tag ([] @ take 300 ?t @ drop 300 ?t)" by (rule has_tag_embedded)
  then show ?thesis by simp
qed

text \<open>
  Claim C4, amended. Every article of a result of \<open>parseXmlFeed\<close> has a snippet of at most
  303 code units; the snippet is cut from the text content of the body of the HTML
  document parsed from the article's content, and it contains a tag (a match of
  \<^verbatim>\<open><[^>]*>\<close>) only if that text content contains one.
\<close>

theorem contentSnippet_bounded_plain_text:
  assumes "parseXmlFeed rt text0 fid url h = (Inr r, h')"
  shows "list_all (\<lambda>a. length (contentSnippet a) \<le> 303
                        \<and> contentSnippet a = make_snippet (parseHtml rt (content a))
                        \<and> (has_tag (contentSnippet a)
                             \<longrightarrow> has_tag (body_textContent (parseHtml rt (content a)))))
                  (articles r)"
proof -
  have "\<And>a. a \<in> set (articles r) \<Longrightarrow> \<exists>item hi. a = fst (parse_item rt fid item hi)"
  proof -
    fix a
    assume "a \<in> set (articles r)"
    then obtain i where i: "i < length (articles r)" "a = articles r ! i"
      by (metis in_set_conv_nth)
    from parseXmlFeed_items [OF assms] i
    have "\<exists>hi. a = fst (parse_item rt fid (feed_items rt text0 ! i) hi)"
      by (simp add: list_all2_conv_all_nth)
    then show "\<exists>item hi. a = fst (parse_item rt fid item hi)" by blast
  qed
  then have "\<And>a. a \<in> set (articles r) \<Longrightarrow>
      contentSnippet a = make_snippet (parseHtml rt (content a))"
    using parse_item_snippet by metis
  then show ?thesis
    using make_snippet_length make_snippet_tag by (simp add: list_all_iff)
qed

lemma parse_item_stable:
  "erase_id_date (fst (parse_item rt fid item h1)) = erase_id_date (fst (parse_item rt fid item h2))"
  by (simp add: parse_item_def Let_def erase_id_date_def)

lemma parse_item_dated:
  "has_date item \<Longrightarrow>
     erase_id (fst (parse_item rt fid item h1)) = erase_id (fst (parse_item rt fid item h2))"
  by (simp add: parse_item_def Let_def erase_id_def has_date_def)

lemma parse_item_stamps:
  "pubDate (fst (parse_item rt fid item h))
     = (if has_date item then date_text item else nowISO rt (length h))"
  "article_id (fst (parse_item rt fid item h))
     = randomUUID rt (length h + (if has_date item then 0 else 1))"
  "snd (parse_item rt fid item h) = h @ item_effects item"
  by (simp_all add: parse_item_def Let_def has_date_def date_text_def item_effects_def)

lemma parse_items_stable:
  "list_all2 (\<lambda>a1 a2. erase_id_date a1 = erase_id_date a2)
     (fst (parse_items rt fid items h1)) (fst (parse_items rt fid items h2))"
proof (induction items arbitrary: h1 h2)
  case Nil
  then show ?case by simp
next
  case (Cons item items)
  obtain a1 k1 where a1: "parse_item rt fid item h1 = (a1, k1)" by (cases "parse_item rt fid item h1")
  obtain a2 k2 where a2: "parse_item rt fid item h2 = (a2, k2)" by (cases "parse_item rt fid item h2")
  have "erase_id_date a1 = erase_id_date a2"
    using parse_item_stable [of rt fid item h1 h2] a1 a2 by simp
  then show ?case using a1 a2 Cons.IH [of k1 k2]
    by (cases "parse_items rt fid items k1"; cases "parse_items rt fid items k2") simp
qed

lemma parse_items_dated:
  "list_all has_date items \<Longrightarrow>
     list_all2 (\<lambda>a1 a2. erase_id a1 = erase_id a2)
       (fst (parse_items rt fid items h1)) (fst (parse_items rt fid items h2))"
proof (induction items arbitrary: h1 h2)
  case Nil
  then show ?case by simp
next
  case (Cons item items)
  obtain a1 k1 where a1: "parse_item rt fid item h1 = (a1, k1)" by (cases "parse_item rt fid item h1")
  obtain a2 k2 where a2: "parse_item rt fid item h2 = (a2, k2)" by (cases "parse_item rt fid item h2")
  have "erase_id a1 = erase_id a2"
    using parse_item_dated [of item rt fid h1 h2] a1 a2 Cons.prems by simp
  then show ?case using a1 a2 Cons.IH [of k1 k2] Cons.prems
    by (cases "parse_items rt fid items k1"; cases "parse_items rt fid items k2") simp
qed

lemma parse_items_Cons:
  "parse_items rt fid (item # items) h =
     (fst (parse_item rt fid item h) # fst (parse_items rt fid items (h @ item_effects item)),
      snd (parse_items rt fid items (h @ item_effects item)))"
  using parse_item_stamps(3) [of rt fid item h]
  by (cases "parse_item rt fid item h"; cases "parse_items rt fid items (h @ item_effects item)")
     simp

lemma parse_items_length: "length (fst (parse_items rt fid items h)) = length items"
  by (induction items arbitrary: h) (simp_all add: parse_items_Cons del: parse_items.simps(2))

lemma parse_items_history:
  "snd (parse_items rt fid items h) = h @ concat (map item_effects items)"
  by (induction items arbitrary: h) (simp_all add: parse_items_Cons del: parse_items.simps(2))

lemma parse_items_nth:
  "i < length items \<Longrightarrow>
     fst (parse_items rt fid items h) ! i
       = fst (parse_item rt fid (items ! i) (h @ concat (map item_effects (take i items))))"
proof (induction items arbitrary: h i)
  case Nil
  then show ?case by simp
next
  case (Cons item items)
  show ?case
  proof (cases i)
    case 0
    then show ?thesis by (simp add: parse_items_Cons del: parse_items.simps(2))
  next
    case (Suc j)
    then have "j < length items" using Cons.prems by simp
    from Cons.IH [OF this, of "h @ item_effects item"] show ?thesis
      using Suc by (simp add: parse_items_Cons del: parse_items.simps(2))
  qed
qed

lemma parse_items_stamps:
  assumes "i < length items"
  shows "pubDate (fst (parse_items rt fid items h) ! i)
           = (if has_date (items ! i) then date_text (items ! i)
              else nowISO rt (length h + effects_before items i))"
    and "article_id (fst (parse_items rt fid items h) ! i)
           = randomUUID rt (length h + effects_before items i
                            + (if has_date (items ! i) then 0 else 1))"
  unfolding parse_items_nth [OF assms] parse_item_stamps effects_before_def by simp_all

lemma parse_items_dated_nth:
  assumes "i < length items" and "has_date (items ! i)"
  shows "erase_id (fst (parse_items rt fid items h1) ! i)
           = erase_id (fst (parse_items rt fid items h2) ! i)"
  unfolding parse_items_nth [OF assms(1)] using assms(2) by (rule parse_item_dated)

lemma parseXmlFeed_outcome:
  "fst (parseXmlFeed rt text0 fid url h) =
     (let text = stripBOM text0;
          trimmed = trim text;
          lowerText = toLowerCase rt trimmed
      in if (startsWith lowerText (js ''<!doctype html'') \<or> startsWith lowerText (js ''<html''))
            \<and> \<not> (js_includes lowerText (js ''<rss'') \<or> js_includes lowerText (js ''<feed'')
                   \<or> js_includes lowerText (js ''<rdf:rdf''))
         then Inl (FeedDiscoveryError (js ''Received HTML page instead of XML'') text url)
         else (case doc_querySelector [js ''parsererror''] (parseXml rt text) of
                 Some errorNode \<Rightarrow>
                   if js_includes trimmed (js ''<html'') \<or> js_includes trimmed (js ''<body'')
                   then Inl (FeedDiscoveryError (js ''XML Parsing failed, content looks like HTML'')
                               text url)
                   else Inl (Error (PARSE_FAILED @ js ''XML Parser Error: '' @ textContent errorNode))
               | None \<Rightarrow>
                   Inr \<lparr> result_title =
                           or_else (opt_text (first_of (select_children
                              [js ''channel'', js ''feed''] [js ''title''] (parseXml rt text))))
                              UNKNOWN_SOURCE,
                         articles = fst (parse_items rt fid (feed_items rt text0) h) \<rparr>))"
  by (simp add: parseXmlFeed_def parse_body_def Let_def feed_items_def
           split: option.splits prod.splits sum.splits)

text \<open>
  Claim C7, amended. Two calls of \<open>parseXmlFeed\<close> on the same text, \<open>feedId\<close> and URL, at
  any two moments, fail with the same error or both succeed; then the titles are equal
  and the articles agree, item by item, in every field except the identifier and the
  date, and for each item that has a date element with text they agree in the date too.
  In each call the articles correspond to the items in order; the date of an item with
  date text is that text, the date of an item without is the clock reading made for it
  during that very call; each article has the identifier drawn for it during the call, a
  draw of its own; and these readings and draws are all the effects of the call.
\<close>

theorem parseXmlFeed_repeatable:
  "(\<forall>e. fst (parseXmlFeed rt text0 fid url h1) = Inl e
          \<longleftrightarrow> fst (parseXmlFeed rt text0 fid url h2) = Inl e)
   \<and> (fst (parseXmlFeed rt text0 fid url h1) = Inr r1
        \<and> fst (parseXmlFeed rt text0 fid url h2) = Inr r2
      \<longrightarrow> result_title r1 = result_title r2
          \<and> list_all2 (\<lambda>a1 a2. erase_id_date a1 = erase_id_date a2) (articles r1) (articles r2)
          \<and> (\<forall>i < length (feed_items rt text0).
                has_date (feed_items rt text0 ! i)
                \<longrightarrow> erase_id (articles r1 ! i) = erase_id (articles r2 ! i)
                    \<and> pubDate (articles r1 ! i) = pubDate (articles r2 ! i))
          \<and> (list_all has_date (feed_items rt text0)
               \<longrightarrow> list_all2 (\<lambda>a1 a2. erase_id a1 = erase_id a2) (articles r1) (articles r2)))
   \<and> (parseXmlFeed rt text0 fid url h = (Inr r, h')
      \<longrightarrow> length (articles r) = length (feed_items rt text0)
          \<and> h' = h @ concat (map item_effects (feed_items rt text0))
          \<and> (\<forall>i < length (feed_items rt text0).
                pubDate (articles r ! i)
                  = (if has_date (feed_items rt text0 ! i) then date_text (feed_items rt text0 ! i)
                     else nowISO rt (length h + effects_before (feed_items rt text0) i))
                \<and> article_id (articles r ! i)
                    = randomUUID rt (length h + effects_before (feed_items rt text0) i
                                     + (if has_date (feed_items rt text0 ! i) then 0 else 1))))"
proof (intro conjI allI impI)
  fix e
  show "fst (parseXmlFeed rt text0 fid url h1) = Inl e
          \<longleftrightarrow> fst (parseXmlFeed rt text0 fid url h2) = Inl e"
    by (simp add: parseXmlFeed_outcome Let_def split: option.splits)
next
  assume a: "fst (parseXmlFeed rt text0 fid url h1) = Inr r1
        \<and> fst (parseXmlFeed rt text0 fid url h2) = Inr r2"
  then have r: "result_title r1 = result_title r2
      \<and> articles r1 = fst (parse_items rt fid (feed_items rt text0) h1)
      \<and> articles r2 = fst (parse_items rt fid (feed_items rt text0) h2)"
    by (auto simp: parseXmlFeed_outcome Let_def split: option.splits if_splits)
  show "result_title r1 = result_title r2" using r by simp
  show "list_all2 (\<lambda>a1 a2. erase_id_date a1 = erase_id_date a2) (articles r1) (articles r2)"
    using r parse_items_stable by simp
  {
    fix i
    assume i: "i < length (feed_items rt text0)" and d: "has_date (feed_items rt text0 ! i)"
    show "erase_id (articles r1 ! i) = erase_id (articles r2 ! i)"
      using r parse_items_dated_nth [OF i d] by simp
    show "pubDate (articles r1 ! i) = pubDate (articles r2 ! i)"
      using r parse_items_stamps(1) [OF i] d by simp
  }
  {
    assume "list_all has_date (feed_items rt text0)"
    then show "list_all2 (\<lambda>a1 a2. erase_id a1 = erase_id a2) (articles r1) (articles r2)"
      using r parse_items_dated by simp
  }
next
  assume a: "parseXmlFeed rt text0 fid url h = (Inr r, h')"
  have p: "parse_items rt fid (feed_items rt text0) h = (articles r, h')"
    using a by (rule parseXmlFeed_success)
  then have f: "articles r = fst (parse_items rt fid (feed_items rt text0) h)"
    and s: "h' = snd (parse_items rt fid (feed_items rt text0) h)"
    by simp_all
  show "length (articles r) = length (feed_items rt text0)"
    unfolding f by (rule parse_items_length)
  show "h' = h @ concat (map item_effects (feed_items rt text0))"
    unfolding s by (rule parse_items_history)
  {
    fix i
    assume i: "i < length (feed_items rt text0)"
    show "pubDate (articles r ! i)
            = (if has_date (feed_items rt text0 ! i) then date_text (feed_items rt text0 ! i)
               else nowISO rt (length h + effects_before (feed_items rt text0) i))"
      unfolding f by (rule parse_items_stamps(1) [OF i])
    show "article_id (articles r ! i)
            = randomUUID rt (length h + effects_before (feed_items rt text0) i
                             + (if has_date (feed_items rt text0 ! i) then 0 else 1))"
      unfolding f by (rule parse_items_stamps(2) [OF i])
  }
qed

section \<open>The sample feeds\<close>

lemmas dom_defs = doc_querySelector_def doc_querySelectorAll_def querySelector_def querySelectorAll_def
  getElementsByTagNameNS_any_def first_of_def html_querySelector_def html_elements_def
  body_textContent_def opt_text_def attr_of_def truthy_def the_default_def or_else_def

lemmas sample_defs = site_runtime_def sample_runtime_def make_snippet_def extract_thumbnail_def
  js_def trim_def is_js_whitespace_def startsWith_def SITE_HTML_def UNTITLED_def

lemma feed_item1: "parse_item site_runtime FID FEED_ITEM1 h = (FEED_ARTICLE1 h, h @ [UuidDrawn])"
  by (simp add: parse_item_def Let_def dom_defs FEED_ITEM1_def sample_defs FEED_ARTICLE1_def)

lemma feed_item2:
  "parse_item site_runtime FID FEED_ITEM2 (h @ [UuidDrawn])
     = (FEED_ARTICLE2 h, h @ [UuidDrawn, DateRead, UuidDrawn])"
  by (simp add: parse_item_def Let_def dom_defs FEED_ITEM2_def sample_defs FEED_ARTICLE2_def)

lemma feed_text:
  "stripBOM FEED_XML = FEED_XML"
  "\<not> startsWith (ascii_lower (trim FEED_XML)) (js ''<!doctype html'')"
  "\<not> startsWith (ascii_lower (trim FEED_XML)) (js ''<html'')"
  by (simp_all add: trim_def stripBOM_def FEED_XML_def js_def is_js_whitespace_def startsWith_def
        ascii_lower_def dq_def)

lemma feed_doc:
  "parseXml site_runtime FEED_XML = FEED_DOC"
  "doc_querySelector [js ''parsererror''] FEED_DOC = None"
  "doc_querySelectorAll [js ''item'', js ''entry''] FEED_DOC = [FEED_ITEM1, FEED_ITEM2]"
  "or_else (opt_text (first_of (select_children [js ''channel'', js ''feed''] [js ''title''] FEED_DOC)))
           UNKNOWN_SOURCE = js ''News''"
  by (simp_all add: site_runtime_def dom_defs FEED_DOC_def FEED_ITEM1_def FEED_ITEM2_def js_def)

lemma feed_parse:
  "parseXmlFeed site_runtime FEED_XML FID url h =
     (Inr \<lparr>result_title = js ''News'', articles = [FEED_ARTICLE1 h, FEED_ARTICLE2 h]\<rparr>,
      h @ [UuidDrawn, DateRead, UuidDrawn])"
proof -
  have l: "toLowerCase site_runtime = ascii_lower" by (simp add: site_runtime_def sample_runtime_def)
  have "parse_body site_runtime FEED_XML (trim FEED_XML) FID url h =
     (Inr \<lparr>result_title = js ''News'', articles = [FEED_ARTICLE1 h, FEED_ARTICLE2 h]\<rparr>,
      h @ [UuidDrawn, DateRead, UuidDrawn])"
    by (simp add: parse_body_def Let_def feed_doc feed_item1 feed_item2)
  then show ?thesis
    by (simp add: parseXmlFeed_def Let_def feed_text l)
qed

lemma atom_entry:
  "parse_item site_runtime FID ATOM_ENTRY h = (ATOM_ARTICLE h, h @ [UuidDrawn])"
  by (simp add: parse_item_def Let_def dom_defs ATOM_ENTRY_def ATOM_MEDIA_def sample_defs
        ATOM_ARTICLE_def)

lemma atom_text:
  "stripBOM ATOM_XML = ATOM_XML"
  "\<not> startsWith (ascii_lower (trim ATOM_XML)) (js ''<!doctype html'')"
  "\<not> startsWith (ascii_lower (trim ATOM_XML)) (js ''<html'')"
  by (simp_all add: trim_def stripBOM_def ATOM_XML_def js_def is_js_whitespace_def startsWith_def
        ascii_lower_def dq_def)

lemma atom_doc:
  "parseXml site_runtime ATOM_XML = ATOM_DOC"
  "doc_querySelector [js ''parsererror''] ATOM_DOC = None"
  "doc_querySelectorAll [js ''item'', js ''entry''] ATOM_DOC = [ATOM_ENTRY]"
  "or_else (opt_text (first_of (select_children [js ''channel'', js ''feed''] [js ''title''] ATOM_DOC)))
           UNKNOWN_SOURCE = js ''Blog''"
  by (simp_all add: site_runtime_def dom_defs ATOM_DOC_def ATOM_ENTRY_def ATOM_MEDIA_def js_def
        ATOM_XML_def FEED_XML_def dq_def)

lemma atom_parse:
  "parseXmlFeed site_runtime ATOM_XML FID url h =
     (Inr \<lparr>result_title = js ''Blog'', articles = [ATOM_ARTICLE h]\<rparr>, h @ [UuidDrawn])"
proof -
  have l: "toLowerCase site_runtime = ascii_lower" by (simp add: site_runtime_def sample_runtime_def)
  have "parse_body site_runtime ATOM_XML (trim ATOM_XML) FID url h =
     (Inr \<lparr>result_title = js ''Blog'', articles = [ATOM_ARTICLE h]\<rparr>, h @ [UuidDrawn])"
    by (simp add: parse_body_def Let_def atom_doc atom_entry)
  then show ?thesis
    by (simp add: parseXmlFeed_def Let_def atom_text l)
qed

lemma escaped_text:
  "stripBOM ESCAPED_XML = ESCAPED_XML"
  "\<not> startsWith (ascii_lower (trim ESCAPED_XML)) (js ''<!doctype html'')"
  "\<not> startsWith (ascii_lower (trim ESCAPED_XML)) (js ''<html'')"
  by (simp_all add: trim_def stripBOM_def ESCAPED_XML_def js_def is_js_whitespace_def startsWith_def
        ascii_lower_def)

lemma escaped_doc:
  "parseXml site_runtime ESCAPED_XML = ESCAPED_DOC"
  "doc_querySelector [js ''parsererror''] ESCAPED_DOC = None"
  "or_else (opt_text (first_of (select_children [js ''channel'', js ''feed''] [js ''title''] ESCAPED_DOC)))
           UNKNOWN_SOURCE = UNKNOWN_SOURCE"
  by (simp_all add: site_runtime_def dom_defs ESCAPED_DOC_def js_def
        ATOM_XML_def FEED_XML_def ESCAPED_XML_def dq_def)

lemma escaped_items:
  "parse_items site_runtime FID (doc_querySelectorAll [js ''item'', js ''entry''] ESCAPED_DOC) h
     = ([ESCAPED_ARTICLE h], h @ [DateRead, UuidDrawn])"
  by (simp add: parse_item_def Let_def dom_defs ESCAPED_DOC_def sample_defs ESCAPED_ARTICLE_def)

lemma escaped_parse:
  "parseXmlFeed site_runtime ESCAPED_XML FID url h =
     (Inr \<lparr>result_title = UNKNOWN_SOURCE, articles = [ESCAPED_ARTICLE h]\<rparr>,
      h @ [DateRead, UuidDrawn])"
proof -
  have l: "toLowerCase site_runtime = ascii_lower" by (simp add: site_runtime_def sample_runtime_def)
  have "parse_body site_runtime ESCAPED_XML (trim ESCAPED_XML) FID url h =
     (Inr \<lparr>result_title = UNKNOWN_SOURCE, articles = [ESCAPED_ARTICLE h]\<rparr>,
      h @ [DateRead, UuidDrawn])"
    by (simp add: parse_body_def Let_def escaped_doc escaped_items)
  then show ?thesis
    by (simp add: parseXmlFeed_def Let_def escaped_text l)
qed

text \<open>
  Claim C8, amended. The articles of a result correspond, in order, to the item and entry
  elements of the document, and the thumbnail of each is: the \<open>url\<close> attribute of the first
  element of the item with local name \<open>content\<close>, in any namespace, when that attribute is
  present and not empty; else the \<open>url\<close> attribute (possibly missing) of the first
  \<open>enclosure\<close> element when its \<open>type\<close> begins with \<open>image\<close>; else the \<open>src\<close> attribute
  (possibly missing) of the first \<open>img\<close> of the content parsed as HTML; else the empty
  string.
\<close>
theorem thumbnail_preference:
  assumes "parseXmlFeed rt text0 fid url h = (Inr r, h')"
  shows "list_all2
           (\<lambda>item a.
              (truthy (attr_of (first_of (getElementsByTagNameNS_any (js ''content'') item)) (js ''url''))
                 \<longrightarrow> thumbnail a
                       = attr_of (first_of (getElementsByTagNameNS_any (js ''content'') item)) (js ''url''))
              \<and> (\<not> truthy (attr_of (first_of (getElementsByTagNameNS_any (js ''content'') item)) (js ''url''))
                  \<and> image_enclosure (querySelector [js ''enclosure''] item)
                 \<longrightarrow> thumbnail a = attr_of (querySelector [js ''enclosure''] item) (js ''url''))
              \<and> (\<not> truthy (attr_of (first_of (getElementsByTagNameNS_any (js ''content'') item)) (js ''url''))
                  \<and> \<not> image_enclosure (querySelector [js ''enclosure''] item)
                  \<and> html_querySelector [js ''img''] (parseHtml rt (content a)) \<noteq> None
                 \<longrightarrow> thumbnail a
                       = attr_of (html_querySelector [js ''img''] (parseHtml rt (content a))) (js ''src''))
              \<and> (\<not> truthy (attr_of (first_of (getElementsByTagNameNS_any (js ''content'') item)) (js ''url''))
                  \<and> \<not> image_enclosure (querySelector [js ''enclosure''] item)
                  \<and> html_querySelector [js ''img''] (parseHtml rt (content a)) = None
                 \<longrightarrow> thumbnail a = Some []))
           (feed_items rt text0) (articles r)"
proof (rule list_all2_mono [OF parseXmlFeed_items [OF assms]])
  fix item a
  assume "\<exists>hi. a = fst (parse_item rt fid item hi)"
  then have t: "thumbnail a = extract_thumbnail item (parseHtml rt (content a))"
    using parse_item_thumbnail by blast
  show "(truthy (attr_of (first_of (getElementsByTagNameNS_any (js ''content'') item)) (js ''url''))
                 \<longrightarrow> thumbnail a
                       = attr_of (first_of (getElementsByTagNameNS_any (js ''content'') item)) (js ''url''))
              \<and> (\<not> truthy (attr_of (first_of (getElementsByTagNameNS_any (js ''content'') item)) (js ''url''))
                  \<and> image_enclosure (querySelector [js ''enclosure''] item)
                 \<longrightarrow> thumbnail a = attr_of (querySelector [js ''enclosure''] item) (js ''url''))
              \<and> (\<not> truthy (attr_of (first_of (getElementsByTagNameNS_any (js ''content'') item)) (js ''url''))
                  \<and> \<not> image_enclosure (querySelector [js ''enclosure''] item)
                  \<and> html_querySelector [js ''img''] (parseHtml rt (content a)) \<noteq> None
                 \<longrightarrow> thumbnail a
                       = attr_of (html_querySelector [js ''img''] (parseHtml rt (content a))) (js ''src''))
              \<and> (\<not> truthy (attr_of (first_of (getElementsByTagNameNS_any (js ''content'') item)) (js ''url''))
                  \<and> \<not> image_enclosure (querySelector [js ''enclosure''] item)
                  \<and> html_querySelector [js ''img''] (parseHtml rt (content a)) = None
                 \<longrightarrow> thumbnail a = Some [])"
    unfolding t by (simp add: extract_thumbnail_def Let_def image_enclosure_def)
qed

text \<open>The first sample item has a media element with a URL, which becomes its thumbnail.\<close>

theorem thumbnail_preference_witness:
  "feed_items site_runtime FEED_XML = [FEED_ITEM1, FEED_ITEM2]
   \<and> truthy (attr_of (first_of (getElementsByTagNameNS_any (js ''content'') FEED_ITEM1)) (js ''url''))
   \<and> thumbnail (FEED_ARTICLE1 []) = Some (js ''https://site.example/m.jpg'')
   \<and> thumbnail (FEED_ARTICLE1 [])
       = attr_of (first_of (getElementsByTagNameNS_any (js ''content'') FEED_ITEM1)) (js ''url'')"
proof -
  have i: "feed_items site_runtime FEED_XML = [FEED_ITEM1, FEED_ITEM2]"
    by (simp add: feed_items_def feed_text feed_doc)
  have m: "attr_of (first_of (getElementsByTagNameNS_any (js ''content'') FEED_ITEM1)) (js ''url'')
             = Some (js ''https://site.example/m.jpg'')"
    by (simp add: dom_defs FEED_ITEM1_def js_def)
  then have t: "truthy (attr_of (first_of (getElementsByTagNameNS_any (js ''content'') FEED_ITEM1)) (js ''url''))"
    by (simp add: truthy_def js_def)
  from thumbnail_preference [OF feed_parse [of FEED_URL "[]"]] t
  have "thumbnail (FEED_ARTICLE1 [])
       = attr_of (first_of (getElementsByTagNameNS_any (js ''content'') FEED_ITEM1)) (js ''url'')"
    unfolding i by simp
  then show ?thesis using i t m by simp
qed

text \<open>
  An Atom entry whose own \<open>content\<close> element precedes a media \<open>content\<close> element with a
  URL gets no thumbnail, where the claimed order selects that URL.
\<close>

theorem thumbnail_claim_counterexample:
  "parseXmlFeed site_runtime ATOM_XML FID FEED_URL []
     = (Inr \<lparr>result_title = js ''Blog'', articles = [ATOM_ARTICLE []]\<rparr>, [UuidDrawn])
   \<and> feed_items site_runtime ATOM_XML = [ATOM_ENTRY]
   \<and> thumbnail (ATOM_ARTICLE []) = Some []
   \<and> claimed_thumbnail ATOM_ENTRY (parseHtml site_runtime (content (ATOM_ARTICLE [])))
       = Some (js ''https://blog.example/i.jpg'')
   \<and> thumbnail (ATOM_ARTICLE [])
       \<noteq> claimed_thumbnail ATOM_ENTRY (parseHtml site_runtime (content (ATOM_ARTICLE [])))"
proof -
  have i: "feed_items site_runtime ATOM_XML = [ATOM_ENTRY]"
    by (simp add: feed_items_def atom_text atom_doc)
  have c: "claimed_thumbnail ATOM_ENTRY (parseHtml site_runtime (content (ATOM_ARTICLE [])))
       = Some (js ''https://blog.example/i.jpg'')"
    by (simp add: claimed_thumbnail_def dom_defs ATOM_ENTRY_def ATOM_MEDIA_def js_def)
  have t: "thumbnail (ATOM_ARTICLE []) = Some []" by (simp add: ATOM_ARTICLE_def)
  show ?thesis using atom_parse [of FEED_URL "[]"] i c t by (simp add: js_def)
qed

text \<open>The snippets of the sample feed.\<close>

theorem contentSnippet_bounded_plain_text_witness:
  "parseXmlFeed site_runtime FEED_XML FID FEED_URL []
     = (Inr \<lparr>result_title = js ''News'', articles = [FEED_ARTICLE1 [], FEED_ARTICLE2 []]\<rparr>,
        [UuidDrawn, DateRead, UuidDrawn])
   \<and> contentSnippet (FEED_ARTICLE1 []) = js ''Hello''
   \<and> length (contentSnippet (FEED_ARTICLE1 [])) \<le> 303
   \<and> \<not> has_tag (contentSnippet (FEED_ARTICLE2 []))"
proof -
  note T = contentSnippet_bounded_plain_text
             [OF feed_parse [of FEED_URL "[]"], unfolded feed_result.select_convs list.pred_inject]
  have "length (contentSnippet (FEED_ARTICLE1 [])) \<le> 303"
    by (rule T [THEN conjunct1, THEN conjunct1])
  moreover have "\<not> has_tag (contentSnippet (FEED_ARTICLE2 []))"
    by (simp add: FEED_ARTICLE2_def js_def LT_def GT_def)
  ultimately show ?thesis using feed_parse [of FEED_URL "[]"] by (simp add: FEED_ARTICLE1_def)
qed

text \<open>A description that is escaped twice yields a snippet that contains tags.\<close>

theorem contentSnippet_markup_counterexample:
  "parseXmlFeed site_runtime ESCAPED_XML FID FEED_URL []
     = (Inr \<lparr>result_title = UNKNOWN_SOURCE, articles = [ESCAPED_ARTICLE []]\<rparr>,
        [DateRead, UuidDrawn])
   \<and> contentSnippet (ESCAPED_ARTICLE []) = js ''<b>bold</b>''
   \<and> has_tag (contentSnippet (ESCAPED_ARTICLE []))"
  using escaped_parse [of FEED_URL "[]"]
  by (simp add: ESCAPED_ARTICLE_def js_def LT_def GT_def)

lemma feed_items_sample:
  "feed_items site_runtime FEED_XML = [FEED_ITEM1, FEED_ITEM2]"
  "has_date FEED_ITEM1" "\<not> has_date FEED_ITEM2"
  "effects_before [FEED_ITEM1, FEED_ITEM2] 1 = 1"
proof -
  show "feed_items site_runtime FEED_XML = [FEED_ITEM1, FEED_ITEM2]"
    by (simp add: feed_items_def feed_text feed_doc)
  show d: "has_date FEED_ITEM1"
    by (simp add: has_date_def dom_defs FEED_ITEM1_def js_def)
  show "\<not> has_date FEED_ITEM2"
    by (simp add: has_date_def dom_defs FEED_ITEM2_def js_def)
  show "effects_before [FEED_ITEM1, FEED_ITEM2] 1 = 1"
    using d by (simp add: effects_before_def item_effects_def)
qed

text \<open>
  Two calls on the sample feed, the second after the effects of the first: the first
  item has a date and differs in the identifier only; the second has none and gets the
  clock reading of each call.
\<close>

theorem parseXmlFeed_repeatable_witness:
  "parseXmlFeed site_runtime FEED_XML FID FEED_URL []
     = (Inr \<lparr>result_title = js ''News'', articles = [FEED_ARTICLE1 [], FEED_ARTICLE2 []]\<rparr>,
        [UuidDrawn, DateRead, UuidDrawn])
   \<and> parseXmlFeed site_runtime FEED_XML FID FEED_URL [UuidDrawn, DateRead, UuidDrawn]
     = (Inr \<lparr>result_title = js ''News'',
             articles = [FEED_ARTICLE1 [UuidDrawn, DateRead, UuidDrawn],
                         FEED_ARTICLE2 [UuidDrawn, DateRead, UuidDrawn]]\<rparr>,
        [UuidDrawn, DateRead, UuidDrawn, UuidDrawn, DateRead, UuidDrawn])
   \<and> feed_items site_runtime FEED_XML = [FEED_ITEM1, FEED_ITEM2]
   \<and> has_date FEED_ITEM1
   \<and> erase_id (FEED_ARTICLE1 []) = erase_id (FEED_ARTICLE1 [UuidDrawn, DateRead, UuidDrawn])
   \<and> erase_id_date (FEED_ARTICLE2 []) = erase_id_date (FEED_ARTICLE2 [UuidDrawn, DateRead, UuidDrawn])
   \<and> pubDate (FEED_ARTICLE2 [UuidDrawn, DateRead, UuidDrawn]) = nowISO site_runtime 4
   \<and> article_id (FEED_ARTICLE2 [UuidDrawn, DateRead, UuidDrawn]) = randomUUID site_runtime 5
   \<and> list_all has_date (feed_items site_runtime ATOM_XML)
   \<and> erase_id (ATOM_ARTICLE []) = erase_id (ATOM_ARTICLE [UuidDrawn])"
proof -
  have ai: "feed_items site_runtime ATOM_XML = [ATOM_ENTRY]"
    by (simp add: feed_items_def atom_text atom_doc)
  have ad: "list_all has_date (feed_items site_runtime ATOM_XML)"
    unfolding ai by (simp add: has_date_def dom_defs ATOM_ENTRY_def ATOM_MEDIA_def js_def)
  have ap: "fst (parseXmlFeed site_runtime ATOM_XML FID FEED_URL [])
              = Inr \<lparr>result_title = js ''Blog'', articles = [ATOM_ARTICLE []]\<rparr>
            \<and> fst (parseXmlFeed site_runtime ATOM_XML FID FEED_URL [UuidDrawn])
              = Inr \<lparr>result_title = js ''Blog'', articles = [ATOM_ARTICLE [UuidDrawn]]\<rparr>"
    by (simp add: atom_parse)
  have c5: "erase_id (ATOM_ARTICLE []) = erase_id (ATOM_ARTICLE [UuidDrawn])"
    using parseXmlFeed_repeatable
            [where rt = site_runtime and ?text0.0 = ATOM_XML and fid = FID and url = FEED_URL
               and ?h1.0 = "[]" and ?h2.0 = "[UuidDrawn]"
               and ?r1.0 = "\<lparr>result_title = js ''Blog'', articles = [ATOM_ARTICLE []]\<rparr>"
               and ?r2.0 = "\<lparr>result_title = js ''Blog'', articles = [ATOM_ARTICLE [UuidDrawn]]\<rparr>",
             THEN conjunct2, THEN conjunct1, rule_format, OF ap,
             THEN conjunct2, THEN conjunct2, THEN conjunct2, rule_format, OF ad]
    by simp
  define R1 where "R1 = \<lparr>result_title = js ''News'', articles = [FEED_ARTICLE1 [], FEED_ARTICLE2 []]\<rparr>"
  define H where "H = [UuidDrawn, DateRead, UuidDrawn]"
  define R2 where "R2 = \<lparr>result_title = js ''News'', articles = [FEED_ARTICLE1 H, FEED_ARTICLE2 H]\<rparr>"
  have p1: "parseXmlFeed site_runtime FEED_XML FID FEED_URL [] = (Inr R1, H)"
    unfolding R1_def H_def using feed_parse [of FEED_URL "[]"] by simp
  have p2: "parseXmlFeed site_runtime FEED_XML FID FEED_URL H = (Inr R2, H @ H)"
    unfolding R2_def H_def using feed_parse [of FEED_URL "[UuidDrawn, DateRead, UuidDrawn]"] by simp
  have a: "fst (parseXmlFeed site_runtime FEED_XML FID FEED_URL []) = Inr R1
           \<and> fst (parseXmlFeed site_runtime FEED_XML FID FEED_URL H) = Inr R2"
    using p1 p2 by simp
  note T = parseXmlFeed_repeatable
             [of site_runtime FEED_XML FID FEED_URL "[]" H R1 R2 H R2 "H @ H",
              unfolded feed_items_sample(1)]
  note T2 = T [THEN conjunct2, THEN conjunct1, rule_format, OF a]
  have i0: "(0::nat) < length [FEED_ITEM1, FEED_ITEM2]" by simp
  have d0: "has_date ([FEED_ITEM1, FEED_ITEM2] ! 0)" using feed_items_sample(2) by simp
  have c1: "erase_id (FEED_ARTICLE1 []) = erase_id (FEED_ARTICLE1 H)"
    using T2 [THEN conjunct2, THEN conjunct2, THEN conjunct1, rule_format, OF i0 d0]
    by (simp add: R1_def R2_def)
  have c2: "erase_id_date (FEED_ARTICLE2 []) = erase_id_date (FEED_ARTICLE2 H)"
    using T2 [THEN conjunct2, THEN conjunct1] by (simp add: R1_def R2_def)
  note T3 = T [THEN conjunct2, THEN conjunct2, rule_format, OF p2]
  have i1: "(1::nat) < length [FEED_ITEM1, FEED_ITEM2]" by simp
  have s: "Suc (Suc (Suc (Suc 0))) = 4" by simp
  have c3: "pubDate (FEED_ARTICLE2 H) = nowISO site_runtime 4"
    and c4: "article_id (FEED_ARTICLE2 H) = randomUUID site_runtime 5"
    using T3 [THEN conjunct2, THEN conjunct2, rule_format, OF i1] feed_items_sample(3,4)
    by (simp_all add: R2_def H_def s)
  show ?thesis
    using p1 p2 feed_items_sample(1,2) c1 c2 c3 c4 ad c5 unfolding R1_def R2_def H_def by simp
qed

text \<open>The second item of the sample feed has no date: the two calls give it different dates.\<close>

theorem parseXmlFeed_dates_counterexample:
  "stripBOM FEED_XML = FEED_XML
   \<and> parseXmlFeed site_runtime FEED_XML FID FEED_URL []
     = (Inr \<lparr>result_title = js ''News'', articles = [FEED_ARTICLE1 [], FEED_ARTICLE2 []]\<rparr>,
        [UuidDrawn, DateRead, UuidDrawn])
   \<and> parseXmlFeed site_runtime FEED_XML FID FEED_URL [UuidDrawn, DateRead, UuidDrawn]
     = (Inr \<lparr>result_title = js ''News'',
             articles = [FEED_ARTICLE1 [UuidDrawn, DateRead, UuidDrawn],
                         FEED_ARTICLE2 [UuidDrawn, DateRead, UuidDrawn]]\<rparr>,
        [UuidDrawn, DateRead, UuidDrawn, UuidDrawn, DateRead, UuidDrawn])
   \<and> pubDate (FEED_ARTICLE2 []) = js ''2024-01-01T00:00:00.101Z''
   \<and> pubDate (FEED_ARTICLE2 [UuidDrawn, DateRead, UuidDrawn]) = js ''2024-01-01T00:00:00.104Z''
   \<and> pubDate (FEED_ARTICLE2 []) \<noteq> pubDate (FEED_ARTICLE2 [UuidDrawn, DateRead, UuidDrawn])"
  using feed_parse [of FEED_URL "[]"] feed_parse [of FEED_URL "[UuidDrawn, DateRead, UuidDrawn]"]
  by (simp add: feed_text FEED_ARTICLE2_def site_runtime_def sample_runtime_def show_nat.simps js_def)

section \<open>Classification of HTML pages\<close>

lemmas eval_defs = fetchRawText_def PROXIES_def attempt_def fetch_def expired_def Let_def
  TIMEOUT_MS_def show_nat.simps encoder_defs
  js_def startsWith_def response_ok_def trim_def is_js_whitespace_def sample_runtime_def

lemma trim_id:
  assumes "s \<noteq> []" and "\<not> is_js_whitespace (hd s)" and "\<not> is_js_whitespace (last s)"
  shows "trim s = s"
proof -
  have a: "dropWhile is_js_whitespace s = s"
    using assms(1,2) by (cases s) simp_all
  have "dropWhile is_js_whitespace (rev s) = rev s"
    using assms(1,3) by (cases "rev s") (simp_all add: last_rev [symmetric] hd_rev)
  then show ?thesis by (simp add: trim_def a)
qed

lemma site_fetch1:
  "fetchRawText site_runtime SITE_URL ([] @ [Call_fetchFeed SITE_URL FID]) = (Inr SITE_HTML, SITE_H1)"
  by (simp add: eval_defs site_runtime_def SITE_URL_def FEED_URL_def SITE_HTML_def SITE_H1_def FID_def)

lemma html_classified:
  assumes "startsWith (toLowerCase rt (trim (stripBOM text0))) (js ''<!doctype html'')
           \<or> startsWith (toLowerCase rt (trim (stripBOM text0))) (js ''<html'')"
    and "\<not> js_includes (toLowerCase rt (trim (stripBOM text0))) (js ''<rss'')"
    and "\<not> js_includes (toLowerCase rt (trim (stripBOM text0))) (js ''<feed'')"
    and "\<not> js_includes (toLowerCase rt (trim (stripBOM text0))) (js ''<rdf:rdf'')"
  shows "parseXmlFeed rt text0 fid url h =
           (Inl (FeedDiscoveryError (js ''Received HTML page instead of XML'') (stripBOM text0) url), h)"
  using assms by (simp add: parseXmlFeed_def Let_def)

text \<open>
  Claim C1, amended. When the input, after one leading byte-order mark is removed and the
  result is trimmed and lower-cased, starts with \<open><!doctype html\<close> or \<open><html\<close> and
  contains none of \<open><rss\<close>, \<open><feed\<close>, \<open><rdf:rdf\<close>, then \<open>parseXmlFeed\<close> fails with the
  \<open>FeedDiscoveryError\<close> that carries the input without its byte-order mark (not trimmed)
  and the original URL, whatever the XML parser would make of the text, and no effect
  happens.
\<close>
theorem html_page_is_discovery_error:
  assumes "startsWith (toLowerCase rt (trim (stripBOM text0))) (js ''<!doctype html'')
           \<or> startsWith (toLowerCase rt (trim (stripBOM text0))) (js ''<html'')"
    and "\<not> js_includes (toLowerCase rt (trim (stripBOM text0))) (js ''<rss'')"
    and "\<not> js_includes (toLowerCase rt (trim (stripBOM text0))) (js ''<feed'')"
    and "\<not> js_includes (toLowerCase rt (trim (stripBOM text0))) (js ''<rdf:rdf'')"
  shows "parseXmlFeed (rt\<lparr>parseXml := p\<rparr>) text0 fid url h =
           (Inl (FeedDiscoveryError (js ''Received HTML page instead of XML'') (stripBOM text0) url), h)"
  using assms by (simp add: parseXmlFeed_def Let_def)

lemma bom_page:
  "stripBOM BOM_PAGE = js '' <!DOCTYPE html><html><body>Hello</body></html>''"
  "ascii_lower (trim (stripBOM BOM_PAGE)) = js ''<!doctype html><html><body>hello</body></html>''"
  by (simp_all add: BOM_PAGE_def stripBOM_def trim_def is_js_whitespace_def js_def ascii_lower_def)

lemma bom_page_class:
  "startsWith (js ''<!doctype html><html><body>hello</body></html>'') (js ''<!doctype html'')"
  "\<not> js_includes (js ''<!doctype html><html><body>hello</body></html>'') (js ''<rss'')"
  "\<not> js_includes (js ''<!doctype html><html><body>hello</body></html>'') (js ''<feed'')"
  "\<not> js_includes (js ''<!doctype html><html><body>hello</body></html>'') (js ''<rdf:rdf'')"
  by (simp_all add: js_def startsWith_def)

text \<open>A page behind a byte-order mark and a blank: the error carries the page and the blank.\<close>

theorem html_page_is_discovery_error_witness:
  "startsWith (toLowerCase sample_runtime (trim (stripBOM BOM_PAGE))) (js ''<!doctype html'')
   \<and> \<not> js_includes (toLowerCase sample_runtime (trim (stripBOM BOM_PAGE))) (js ''<rss'')
   \<and> \<not> js_includes (toLowerCase sample_runtime (trim (stripBOM BOM_PAGE))) (js ''<feed'')
   \<and> \<not> js_includes (toLowerCase sample_runtime (trim (stripBOM BOM_PAGE))) (js ''<rdf:rdf'')
   \<and> parseXmlFeed (sample_runtime\<lparr>parseXml := parseXml site_runtime\<rparr>) BOM_PAGE FID SITE_URL []
       = (Inl (FeedDiscoveryError (js ''Received HTML page instead of XML'')
                 (js '' <!DOCTYPE html><html><body>Hello</body></html>'') SITE_URL), [])"
proof -
  have l: "toLowerCase sample_runtime = ascii_lower" by (simp add: sample_runtime_def)
  have a: "startsWith (toLowerCase sample_runtime (trim (stripBOM BOM_PAGE))) (js ''<!doctype html'')
           \<or> startsWith (toLowerCase sample_runtime (trim (stripBOM BOM_PAGE))) (js ''<html'')"
    and b: "\<not> js_includes (toLowerCase sample_runtime (trim (stripBOM BOM_PAGE))) (js ''<rss'')"
    and c: "\<not> js_includes (toLowerCase sample_runtime (trim (stripBOM BOM_PAGE))) (js ''<feed'')"
    and d: "\<not> js_includes (toLowerCase sample_runtime (trim (stripBOM BOM_PAGE))) (js ''<rdf:rdf'')"
    unfolding l bom_page(2) using bom_page_class by simp_all
  from html_page_is_discovery_error [OF a b c d, of "parseXml site_runtime" FID SITE_URL "[]"]
  have "parseXmlFeed (sample_runtime\<lparr>parseXml := parseXml site_runtime\<rparr>) BOM_PAGE FID SITE_URL []
       = (Inl (FeedDiscoveryError (js ''Received HTML page instead of XML'')
                 (js '' <!DOCTYPE html><html><body>Hello</body></html>'') SITE_URL), [])"
    unfolding bom_page(1) .
  moreover have "startsWith (toLowerCase sample_runtime (trim (stripBOM BOM_PAGE))) (js ''<!doctype html'')"
    unfolding l bom_page(2) by (rule bom_page_class(1))
  ultimately show ?thesis using b c d by blast
qed

text \<open>The text the error carries is not the raw input: the byte-order mark is gone.\<close>

theorem raw_text_counterexample:
  "startsWith (toLowerCase sample_runtime (trim (stripBOM BOM_PAGE))) (js ''<!doctype html'')
   \<and> \<not> js_includes (toLowerCase sample_runtime (trim (stripBOM BOM_PAGE))) (js ''<rss'')
   \<and> \<not> js_includes (toLowerCase sample_runtime (trim (stripBOM BOM_PAGE))) (js ''<feed'')
   \<and> \<not> js_includes (toLowerCase sample_runtime (trim (stripBOM BOM_PAGE))) (js ''<rdf:rdf'')
   \<and> fst (parseXmlFeed sample_runtime BOM_PAGE FID SITE_URL [])
       = Inl (FeedDiscoveryError (js ''Received HTML page instead of XML'')
                (js '' <!DOCTYPE html><html><body>Hello</body></html>'') SITE_URL)
   \<and> fst (parseXmlFeed sample_runtime BOM_PAGE FID SITE_URL [])
       \<noteq> Inl (FeedDiscoveryError (js ''Received HTML page instead of XML'') BOM_PAGE SITE_URL)"
proof -
  have l: "toLowerCase sample_runtime = ascii_lower" by (simp add: sample_runtime_def)
  have a: "startsWith (toLowerCase sample_runtime (trim (stripBOM BOM_PAGE))) (js ''<!doctype html'')"
    and b: "\<not> js_includes (toLowerCase sample_runtime (trim (stripBOM BOM_PAGE))) (js ''<rss'')"
    and c: "\<not> js_includes (toLowerCase sample_runtime (trim (stripBOM BOM_PAGE))) (js ''<feed'')"
    and d: "\<not> js_includes (toLowerCase sample_runtime (trim (stripBOM BOM_PAGE))) (js ''<rdf:rdf'')"
    unfolding l bom_page(2) using bom_page_class by simp_all
  have e: "fst (parseXmlFeed sample_runtime BOM_PAGE FID SITE_URL [])
       = Inl (FeedDiscoveryError (js ''Received HTML page instead of XML'')
                (js '' <!DOCTYPE html><html><body>Hello</body></html>'') SITE_URL)"
    using html_classified [OF disjI1 [OF a] b c d, of FID SITE_URL "[]"] by (simp add: bom_page(1))
  have "js '' <!DOCTYPE html><html><body>Hello</body></html>'' \<noteq> BOM_PAGE"
    by (simp add: BOM_PAGE_def js_def)
  then show ?thesis using a b c d e by simp
qed

section \<open>The sample runs\<close>

lemma site_html_class:
  "stripBOM SITE_HTML = SITE_HTML"
  "startsWith (ascii_lower (trim SITE_HTML)) (js ''<!doctype html'')"
  "\<not> js_includes (ascii_lower (trim SITE_HTML)) (js ''<rss'')"
  "\<not> js_includes (ascii_lower (trim SITE_HTML)) (js ''<feed'')"
  "\<not> js_includes (ascii_lower (trim SITE_HTML)) (js ''<rdf:rdf'')"
  by (simp_all add: SITE_HTML_def stripBOM_def trim_def is_js_whitespace_def js_def ascii_lower_def
        startsWith_def)

lemma site_direct1:
  "direct_fetch site_runtime SITE_URL FID ([] @ [Call_fetchFeed SITE_URL FID]) =
     (Inl (FeedDiscoveryError (js ''Received HTML page instead of XML'') SITE_HTML SITE_URL), SITE_H1)"
proof -
  have l: "toLowerCase site_runtime = ascii_lower" by (simp add: site_runtime_def sample_runtime_def)
  have "parseXmlFeed site_runtime SITE_HTML FID SITE_URL SITE_H1 =
     (Inl (FeedDiscoveryError (js ''Received HTML page instead of XML'') (stripBOM SITE_HTML) SITE_URL),
      SITE_H1)"
    by (rule html_classified) (simp_all add: l site_html_class)
  then show ?thesis
    by (simp add: direct_fetch_def site_fetch1 [unfolded append_Nil] site_html_class(1))
qed

lemma site_discovery: "getFeedUrlFromHtml site_runtime SITE_HTML SITE_URL = Some FEED_URL"
  by (simp add: getFeedUrlFromHtml_def site_runtime_def SITE_DOC_def html_elements_def is_feed_link_def
        ascii_lower_def js_def Let_def)

lemma site_fetch2:
  "fetchRawText site_runtime FEED_URL (SITE_H1 @ [Call_fetchFeed FEED_URL FID]) = (Inr FEED_XML, SITE_H2)"
  by (simp add: eval_defs site_runtime_def SITE_URL_def FEED_URL_def FEED_XML_def dq_def
        SITE_H1_def SITE_H2_def FID_def)

lemma site_direct2:
  "direct_fetch site_runtime FEED_URL FID (SITE_H1 @ [Call_fetchFeed FEED_URL FID]) =
     (Inr \<lparr>result_title = js ''News'', articles = [FEED_ARTICLE1 SITE_H2, FEED_ARTICLE2 SITE_H2]\<rparr>,
      SITE_H2 @ [UuidDrawn, DateRead, UuidDrawn])"
  by (simp add: direct_fetch_def site_fetch2 feed_parse)

lemma site_urls: "FEED_URL \<noteq> []" "FEED_URL \<noteq> SITE_URL"
  by (simp_all add: FEED_URL_def SITE_URL_def js_def)

lemma site_run:
  "fetchFeed site_runtime SITE_URL FID [] =
     Some (Inr \<lparr>result_title = js ''News'', articles = [FEED_ARTICLE1 SITE_H2, FEED_ARTICLE2 SITE_H2]\<rparr>,
           SITE_H2 @ [UuidDrawn, DateRead, UuidDrawn])"
  using fetchFeed_recurses [OF site_direct1 site_discovery site_urls]
        fetchFeed_success [OF site_direct2]
  by simp

lemma site_calls:
  "fetchFeed_calls (SITE_H2 @ [UuidDrawn, DateRead, UuidDrawn]) = [(SITE_URL, FID), (FEED_URL, FID)]"
  by (simp add: fetchFeed_calls_def SITE_H2_def SITE_H1_def)

lemma page_direct:
  "fst (direct_fetch page_runtime url fid h)
     = Inl (FeedDiscoveryError (js ''Received HTML page instead of XML'') PAGE_HTML url)"
proof -
  have l: "toLowerCase page_runtime = ascii_lower" by (simp add: page_runtime_def sample_runtime_def)
  have c: "stripBOM PAGE_HTML = PAGE_HTML"
    "startsWith (ascii_lower (trim PAGE_HTML)) (js ''<html'')"
    "\<not> js_includes (ascii_lower (trim PAGE_HTML)) (js ''<rss'')"
    "\<not> js_includes (ascii_lower (trim PAGE_HTML)) (js ''<feed'')"
    "\<not> js_includes (ascii_lower (trim PAGE_HTML)) (js ''<rdf:rdf'')"
    by (simp_all add: PAGE_HTML_def stripBOM_def trim_def is_js_whitespace_def js_def ascii_lower_def
          startsWith_def)
  have p: "parseXmlFeed page_runtime PAGE_HTML fid url k =
     (Inl (FeedDiscoveryError (js ''Received HTML page instead of XML'') (stripBOM PAGE_HTML) url), k)"
    for k
    by (rule html_classified) (simp_all add: l c)
  have t: "trim PAGE_HTML \<noteq> []" "PAGE_HTML \<noteq> []"
    by (simp_all add: PAGE_HTML_def trim_def is_js_whitespace_def js_def)
  have "fst (fetchRawText page_runtime url h) = Inr PAGE_HTML"
    by (simp add: fetchRawText_def PROXIES_def attempt_def fetch_def expired_def TIMEOUT_MS_def
          Let_def page_runtime_def sample_runtime_def response_ok_def t split: option.split)
  then show ?thesis
    by (cases "fetchRawText page_runtime url h") (simp add: direct_fetch_def p c(1))
qed

lemma page_discovery: "getFeedUrlFromHtml page_runtime html url = None"
  by (simp add: getFeedUrlFromHtml_def page_runtime_def sample_runtime_def html_elements_def
        is_feed_link_def)

lemma page_class:
  "stripBOM PAGE_A = PAGE_A"
  "startsWith (ascii_lower (trim PAGE_A)) (js ''<html'')"
  "\<not> js_includes (ascii_lower (trim PAGE_A)) (js ''<rss'')"
  "\<not> js_includes (ascii_lower (trim PAGE_A)) (js ''<feed'')"
  "\<not> js_includes (ascii_lower (trim PAGE_A)) (js ''<rdf:rdf'')"
  "stripBOM PAGE_B = PAGE_B"
  "startsWith (ascii_lower (trim PAGE_B)) (js ''<html'')"
  "\<not> js_includes (ascii_lower (trim PAGE_B)) (js ''<rss'')"
  "\<not> js_includes (ascii_lower (trim PAGE_B)) (js ''<feed'')"
  "\<not> js_includes (ascii_lower (trim PAGE_B)) (js ''<rdf:rdf'')"
  by (simp_all add: PAGE_A_def PAGE_B_def stripBOM_def trim_def is_js_whitespace_def js_def
        ascii_lower_def startsWith_def)

lemma cyclic_lower: "toLowerCase cyclic_runtime = ascii_lower"
  by (simp add: cyclic_runtime_def sample_runtime_def)

lemma cyclic_fetch1:
  "fetchRawText cyclic_runtime PAGE_A_URL ([] @ [Call_fetchFeed PAGE_A_URL FID]) = (Inr PAGE_A, CYCLE_H1)"
  by (simp add: eval_defs cyclic_runtime_def PAGE_A_URL_def PAGE_B_URL_def PAGE_A_def CYCLE_H1_def FID_def)

lemma cyclic_direct1:
  "direct_fetch cyclic_runtime PAGE_A_URL FID ([] @ [Call_fetchFeed PAGE_A_URL FID]) =
     (Inl (FeedDiscoveryError (js ''Received HTML page instead of XML'') PAGE_A PAGE_A_URL), CYCLE_H1)"
proof -
  have "parseXmlFeed cyclic_runtime PAGE_A FID PAGE_A_URL CYCLE_H1 =
     (Inl (FeedDiscoveryError (js ''Received HTML page instead of XML'') (stripBOM PAGE_A) PAGE_A_URL),
      CYCLE_H1)"
    by (rule html_classified) (simp_all add: cyclic_lower page_class)
  then show ?thesis
    by (simp add: direct_fetch_def cyclic_fetch1 [unfolded append_Nil] page_class(1))
qed

lemma cyclic_discovery:
  "getFeedUrlFromHtml cyclic_runtime PAGE_A PAGE_A_URL = Some PAGE_B_URL"
  "getFeedUrlFromHtml cyclic_runtime PAGE_B PAGE_B_URL = Some PAGE_A_URL"
  by (simp_all add: getFeedUrlFromHtml_def cyclic_runtime_def sample_runtime_def link_doc_def
        html_elements_def is_feed_link_def ascii_lower_def js_def Let_def PAGE_A_def PAGE_B_def
        PAGE_A_URL_def PAGE_B_URL_def)

lemma cyclic_fetch2:
  "fetchRawText cyclic_runtime PAGE_B_URL (CYCLE_H1 @ [Call_fetchFeed PAGE_B_URL FID]) = (Inr PAGE_B, CYCLE_H2)"
  by (simp add: eval_defs cyclic_runtime_def PAGE_A_URL_def PAGE_B_URL_def PAGE_B_def CYCLE_H1_def
        CYCLE_H2_def FID_def)

lemma cyclic_direct2:
  "direct_fetch cyclic_runtime PAGE_B_URL FID (CYCLE_H1 @ [Call_fetchFeed PAGE_B_URL FID]) =
     (Inl (FeedDiscoveryError (js ''Received HTML page instead of XML'') PAGE_B PAGE_B_URL), CYCLE_H2)"
proof -
  have "parseXmlFeed cyclic_runtime PAGE_B FID PAGE_B_URL CYCLE_H2 =
     (Inl (FeedDiscoveryError (js ''Received HTML page instead of XML'') (stripBOM PAGE_B) PAGE_B_URL),
      CYCLE_H2)"
    by (rule html_classified) (simp_all add: cyclic_lower page_class)
  then show ?thesis
    by (simp add: direct_fetch_def cyclic_fetch2 page_class(6))
qed

lemma cyclic_direct3:
  "direct_fetch cyclic_runtime PAGE_A_URL FID (CYCLE_H2 @ [Call_fetchFeed PAGE_A_URL FID]) =
     (Inl (Error (js ''Failed to fetch'')), CYCLE_H3)"
  by (simp add: direct_fetch_def eval_defs cyclic_runtime_def PAGE_A_URL_def CYCLE_H1_def
        CYCLE_H2_def CYCLE_H3_def FID_def)

lemma cyclic_urls: "PAGE_B_URL \<noteq> []" "PAGE_B_URL \<noteq> PAGE_A_URL" "PAGE_A_URL \<noteq> []" "PAGE_A_URL \<noteq> PAGE_B_URL"
  by (simp_all add: PAGE_A_URL_def PAGE_B_URL_def js_def)

lemma cyclic_run:
  "fetchFeed cyclic_runtime PAGE_A_URL FID []
     = Some (fetchWithRss2Json cyclic_runtime PAGE_A_URL FID CYCLE_H3)"
  using fetchFeed_recurses [OF cyclic_direct1 cyclic_discovery(1) cyclic_urls(1,2)]
        fetchFeed_recurses [OF cyclic_direct2 cyclic_discovery(2) cyclic_urls(3,4)]
        fetchFeed_plain_error [OF cyclic_direct3]
  by simp

lemma cyclic_fallback:
  "fallback_calls (snd (fetchWithRss2Json cyclic_runtime PAGE_A_URL FID CYCLE_H3)) = [(PAGE_A_URL, FID)]"
proof -
  have "fallback_calls CYCLE_H3 = []"
    by (simp add: fallback_calls_def CYCLE_H3_def CYCLE_H2_def CYCLE_H1_def)
  then show ?thesis
    using fetchWithRss2Json_calls [of cyclic_runtime PAGE_A_URL FID CYCLE_H3]
    by (cases "fetchWithRss2Json cyclic_runtime PAGE_A_URL FID CYCLE_H3") simp
qed

text \<open>
  Page A announces B and page B announces A; the relays answer for A and for B and then
  stop answering: the third call of \<open>fetchFeed\<close> is on A again and hands A to the fallback.
\<close>
theorem original_url_reaches_fallback_counterexample:
  "direct_fetch cyclic_runtime PAGE_A_URL FID ([] @ [Call_fetchFeed PAGE_A_URL FID]) =
     (Inl (FeedDiscoveryError (js ''Received HTML page instead of XML'') PAGE_A PAGE_A_URL), CYCLE_H1)
   \<and> getFeedUrlFromHtml cyclic_runtime PAGE_A PAGE_A_URL = Some PAGE_B_URL
   \<and> PAGE_B_URL \<noteq> PAGE_A_URL
   \<and> fetchFeed cyclic_runtime PAGE_A_URL FID []
       = Some (fetchWithRss2Json cyclic_runtime PAGE_A_URL FID CYCLE_H3)
   \<and> fallback_calls (snd (fetchWithRss2Json cyclic_runtime PAGE_A_URL FID CYCLE_H3))
       = [(PAGE_A_URL, FID)]"
  using cyclic_direct1 cyclic_discovery(1) cyclic_urls(2) cyclic_run cyclic_fallback by blast

text \<open>The site announces its feed: the run continues as the run on the feed URL.\<close>
theorem fetchFeed_discovered_url_witness:
  "direct_fetch site_runtime SITE_URL FID ([] @ [Call_fetchFeed SITE_URL FID]) =
     (Inl (FeedDiscoveryError (js ''Received HTML page instead of XML'') SITE_HTML SITE_URL), SITE_H1)
   \<and> getFeedUrlFromHtml site_runtime SITE_HTML SITE_URL = Some FEED_URL
   \<and> FEED_URL \<noteq> [] \<and> FEED_URL \<noteq> SITE_URL
   \<and> fetchFeed site_runtime SITE_URL FID [] = fetchFeed site_runtime FEED_URL FID SITE_H1
   \<and> fetchFeed_calls (SITE_H2 @ [UuidDrawn, DateRead, UuidDrawn]) = [(SITE_URL, FID), (FEED_URL, FID)]"
  using fetchFeed_discovered_url [OF site_direct1 site_discovery site_urls]
        site_direct1 site_discovery site_urls site_calls
  by blast

lemma mirror_direct:
  "fst (direct_fetch mirror_runtime url fid h)
     = Inl (FeedDiscoveryError (js ''Received HTML page instead of XML'') PAGE_A url)"
proof -
  have l: "toLowerCase mirror_runtime = ascii_lower" by (simp add: mirror_runtime_def sample_runtime_def)
  have p: "parseXmlFeed mirror_runtime PAGE_A fid url k =
     (Inl (FeedDiscoveryError (js ''Received HTML page instead of XML'') (stripBOM PAGE_A) url), k)"
    for k
    by (rule html_classified) (simp_all add: l page_class)
  have t: "trim PAGE_A \<noteq> []" "PAGE_A \<noteq> []"
    by (simp_all add: PAGE_A_def trim_def is_js_whitespace_def js_def)
  have "fst (fetchRawText mirror_runtime url h) = Inr PAGE_A"
    by (simp add: fetchRawText_def PROXIES_def attempt_def fetch_def expired_def TIMEOUT_MS_def
          Let_def mirror_runtime_def sample_runtime_def response_ok_def t split: option.split)
  then show ?thesis
    by (cases "fetchRawText mirror_runtime url h") (simp add: direct_fetch_def p page_class(1))
qed

lemma mirror_discovery: "getFeedUrlFromHtml mirror_runtime PAGE_A PAGE_B_URL = Some PAGE_B_URL"
  by (simp add: getFeedUrlFromHtml_def mirror_runtime_def sample_runtime_def link_doc_def
        html_elements_def is_feed_link_def ascii_lower_def js_def Let_def PAGE_B_URL_def)

text \<open>
  A page without a feed link goes to the fallback without a second call of \<open>fetchFeed\<close>,
  and so does a page that announces its own address;
  the site that announces its feed is fetched with a second call, with the same \<open>feedId\<close>.
\<close>
theorem fetchFeed_recursion_guard_witness:
  "fst (direct_fetch page_runtime SITE_URL FID ([] @ [Call_fetchFeed SITE_URL FID]))
     = Inl (FeedDiscoveryError (js ''Received HTML page instead of XML'') PAGE_HTML SITE_URL)
   \<and> getFeedUrlFromHtml page_runtime PAGE_HTML SITE_URL = None
   \<and> fst (direct_fetch mirror_runtime PAGE_B_URL FID ([] @ [Call_fetchFeed PAGE_B_URL FID]))
     = Inl (FeedDiscoveryError (js ''Received HTML page instead of XML'') PAGE_A PAGE_B_URL)
   \<and> getFeedUrlFromHtml mirror_runtime PAGE_A PAGE_B_URL = Some PAGE_B_URL
   \<and> fetchFeed mirror_runtime PAGE_B_URL FID []
       = Some (fetchWithRss2Json mirror_runtime PAGE_B_URL FID
                (snd (direct_fetch mirror_runtime PAGE_B_URL FID ([] @ [Call_fetchFeed PAGE_B_URL FID]))))
   \<and> fetchFeed page_runtime SITE_URL FID []
       = Some (fetchWithRss2Json page_runtime SITE_URL FID
                (snd (direct_fetch page_runtime SITE_URL FID ([] @ [Call_fetchFeed SITE_URL FID]))))
   \<and> fetchFeed_calls (snd (fetchWithRss2Json page_runtime SITE_URL FID
                (snd (direct_fetch page_runtime SITE_URL FID ([] @ [Call_fetchFeed SITE_URL FID])))))
       = [(SITE_URL, FID)]
   \<and> fetchFeed site_runtime SITE_URL FID []
       = Some (Inr \<lparr>result_title = js ''News'',
                    articles = [FEED_ARTICLE1 SITE_H2, FEED_ARTICLE2 SITE_H2]\<rparr>,
               SITE_H2 @ [UuidDrawn, DateRead, UuidDrawn])
   \<and> fetchFeed_calls (SITE_H2 @ [UuidDrawn, DateRead, UuidDrawn]) \<noteq> [(SITE_URL, FID)]
   \<and> list_all (\<lambda>c. snd c = FID) (fetchFeed_calls (SITE_H2 @ [UuidDrawn, DateRead, UuidDrawn]))"
proof -
  define X where "X = direct_fetch page_runtime SITE_URL FID ([] @ [Call_fetchFeed SITE_URL FID])"
  have c0: "fst X = Inl (FeedDiscoveryError (js ''Received HTML page instead of XML'') PAGE_HTML SITE_URL)"
    unfolding X_def by (rule page_direct)
  have d: "direct_fetch page_runtime SITE_URL FID ([] @ [Call_fetchFeed SITE_URL FID])
      = (Inl (FeedDiscoveryError (js ''Received HTML page instead of XML'') PAGE_HTML SITE_URL), snd X)"
    using c0 unfolding X_def by (simp add: prod_eq_iff)
  have n: "getFeedUrlFromHtml page_runtime PAGE_HTML SITE_URL = None" by (rule page_discovery)
  note T1 = fetchFeed_recursion_guard
              [of page_runtime SITE_URL FID "[]" "js ''Received HTML page instead of XML''" PAGE_HTML
                  SITE_URL "snd X", THEN conjunct1, rule_format, OF conjI [OF d disjI1 [OF n]]]
  have c1: "fetchFeed page_runtime SITE_URL FID []
       = Some (fetchWithRss2Json page_runtime SITE_URL FID (snd X))"
    using T1 by blast
  have c2: "fetchFeed_calls (snd (fetchWithRss2Json page_runtime SITE_URL FID (snd X))) = [(SITE_URL, FID)]"
    using T1 by (simp add: fetchFeed_calls_def)
  define Y where "Y = direct_fetch mirror_runtime PAGE_B_URL FID ([] @ [Call_fetchFeed PAGE_B_URL FID])"
  have m0: "fst Y = Inl (FeedDiscoveryError (js ''Received HTML page instead of XML'') PAGE_A PAGE_B_URL)"
    unfolding Y_def by (rule mirror_direct)
  have md: "direct_fetch mirror_runtime PAGE_B_URL FID ([] @ [Call_fetchFeed PAGE_B_URL FID])
      = (Inl (FeedDiscoveryError (js ''Received HTML page instead of XML'') PAGE_A PAGE_B_URL), snd Y)"
    using m0 unfolding Y_def by (simp add: prod_eq_iff)
  note T3 = fetchFeed_recursion_guard
              [of mirror_runtime PAGE_B_URL FID "[]" "js ''Received HTML page instead of XML''" PAGE_A
                  PAGE_B_URL "snd Y", THEN conjunct1, rule_format,
               OF conjI [OF md disjI2 [OF mirror_discovery]]]
  have m1: "fetchFeed mirror_runtime PAGE_B_URL FID []
       = Some (fetchWithRss2Json mirror_runtime PAGE_B_URL FID (snd Y))"
    using T3 by blast
  have e: "fetchFeed_calls [] = []" by (simp add: fetchFeed_calls_def)
  have ne: "fetchFeed_calls (SITE_H2 @ [UuidDrawn, DateRead, UuidDrawn]) \<noteq> fetchFeed_calls [] @ [(SITE_URL, FID)]"
    unfolding site_calls e by simp
  note T2 = fetchFeed_recursion_guard
              [of site_runtime SITE_URL FID "[]" _ _ _ _
                  "Inr \<lparr>result_title = js ''News'',
                        articles = [FEED_ARTICLE1 SITE_H2, FEED_ARTICLE2 SITE_H2]\<rparr>"
                  "SITE_H2 @ [UuidDrawn, DateRead, UuidDrawn]",
               THEN conjunct2, rule_format, OF conjI [OF site_run ne]]
  have c3: "list_all (\<lambda>c. snd c = FID) (fetchFeed_calls (SITE_H2 @ [UuidDrawn, DateRead, UuidDrawn]))"
    using T2 unfolding e by simp
  have c4: "fetchFeed_calls (SITE_H2 @ [UuidDrawn, DateRead, UuidDrawn]) \<noteq> [(SITE_URL, FID)]"
    using ne unfolding e by simp
  show ?thesis
    using c0 n m0 mirror_discovery m1 c1 c2 site_run c3 c4 unfolding X_def Y_def by blast
qed

lemma fallback_success:
  "fetchWithRss2Json fallback_runtime SITE_URL FID [] =
     (Inr \<lparr>result_title = js ''News'', articles = [JSON_ARTICLE]\<rparr>,
      [Call_fetchWithRss2Json SITE_URL FID, Fetch API_URL None, UuidDrawn])"
proof -
  have s: "strip_tags (js ''<p>Hello</p>'') = js ''Hello''"
    by (simp add: js_def LT_def GT_def)
  have j: "json_result fallback_runtime FID (Inr (Some JSON_DATA)) h =
     (Inr \<lparr>result_title = js ''News'',
            articles = [\<lparr> article_id = randomUUID fallback_runtime (length h), feedId = FID,
                          title = js ''First'', link = js ''https://site.example/a'',
                          pubDate = js ''2024-01-01 00:00:00'', content = js ''<p>Hello</p>'',
                          contentSnippet = js ''Hello'', thumbnail = None, author = None \<rparr>]\<rparr>,
      h @ [UuidDrawn])" for h
    by (simp add: json_result_def JSON_DATA_def convert_item_def or_else_def the_default_def
          truthy_def s) (simp add: js_def)
  have p: "parseJson fallback_runtime JSON_TEXT = Inr (Some JSON_DATA)"
    by (simp add: fallback_runtime_def)
  have n: "fetch fallback_runtime (length [Call_fetchWithRss2Json SITE_URL FID]) API_URL None
             = FetchResolved 200 (Body JSON_TEXT)"
    by (simp add: fetch_def expired_def fallback_runtime_def sample_runtime_def API_URL_def js_def
          startsWith_def)
  have e: "encodeURIComponent fallback_runtime SITE_URL = Inr (js ''https%3A%2F%2Fsite.example%2F'')"
    by (simp add: fallback_runtime_def sample_runtime_def encoder_defs SITE_URL_def js_def)
  have a: "js ''https://api.rss2json.com/v1/api.json?rss_url='' @ js ''https%3A%2F%2Fsite.example%2F''
             = API_URL"
    by (simp add: API_URL_def js_def)
  have i: "randomUUID fallback_runtime (Suc (Suc 0)) = js ''id-2''"
    by (simp add: fallback_runtime_def sample_runtime_def show_nat.simps js_def)
  show ?thesis
    by (simp add: fetchWithRss2Json_def Let_def e a n [simplified] response_ok_def p j i
          JSON_ARTICLE_def)
qed

text \<open>
  The articles of the sample feed, fetched through discovery, and the article of the
  conversion service carry the caller's \<open>feedId\<close>.
\<close>
theorem feedId_stamped_witness:
  "fetchFeed site_runtime SITE_URL FID []
       = Some (Inr \<lparr>result_title = js ''News'',
                    articles = [FEED_ARTICLE1 SITE_H2, FEED_ARTICLE2 SITE_H2]\<rparr>,
               SITE_H2 @ [UuidDrawn, DateRead, UuidDrawn])
   \<and> list_all (\<lambda>a. feedId a = FID) [FEED_ARTICLE1 SITE_H2, FEED_ARTICLE2 SITE_H2]
   \<and> fetchWithRss2Json fallback_runtime SITE_URL FID [] =
       (Inr \<lparr>result_title = js ''News'', articles = [JSON_ARTICLE]\<rparr>,
        [Call_fetchWithRss2Json SITE_URL FID, Fetch API_URL None, UuidDrawn])
   \<and> list_all (\<lambda>a. feedId a = FID) [JSON_ARTICLE]
   \<and> parseXmlFeed site_runtime ATOM_XML FID FEED_URL []
       = (Inr \<lparr>result_title = js ''Blog'', articles = [ATOM_ARTICLE []]\<rparr>, [UuidDrawn])
   \<and> list_all (\<lambda>a. feedId a = FID) [ATOM_ARTICLE []]"
proof -
  note P = feedId_stamped
             [of site_runtime ATOM_XML FID FEED_URL "[]"
                 "\<lparr>result_title = js ''Blog'', articles = [ATOM_ARTICLE []]\<rparr>" "[UuidDrawn]",
              THEN conjunct1, rule_format, OF atom_parse [of FEED_URL "[]", unfolded append_Nil]]
  have q: "list_all (\<lambda>a. feedId a = FID) [ATOM_ARTICLE []]"
    using P by simp
  note F = feedId_stamped
             [of fallback_runtime _ FID SITE_URL "[]"
                 "\<lparr>result_title = js ''News'', articles = [JSON_ARTICLE]\<rparr>"
                 "[Call_fetchWithRss2Json SITE_URL FID, Fetch API_URL None, UuidDrawn]",
              THEN conjunct2, THEN conjunct1, rule_format, OF fallback_success]
  have j: "list_all (\<lambda>a. feedId a = FID) [JSON_ARTICLE]"
    using F by simp
  note T = feedId_stamped
             [of site_runtime _ FID SITE_URL "[]"
                 "\<lparr>result_title = js ''News'',
                   articles = [FEED_ARTICLE1 SITE_H2, FEED_ARTICLE2 SITE_H2]\<rparr>"
                 "SITE_H2 @ [UuidDrawn, DateRead, UuidDrawn]",
              THEN conjunct2, THEN conjunct2, rule_format, OF site_run]
  have "list_all (\<lambda>a. feedId a = FID) [FEED_ARTICLE1 SITE_H2, FEED_ARTICLE2 SITE_H2]"
    using T by simp
  then show ?thesis
    using site_run fallback_success j q atom_parse [of FEED_URL "[]", unfolded append_Nil]
    by blast
qed

end
